(* ===== verification/Prelude.thy ===== *)
theory Prelude
  imports Main "HOL-Library.Char_ord" "HOL-Library.List_Lexorder" "HOL-Library.Product_Lexorder"
begin

text \<open>
  Shared vocabulary of the development: the exceptions of the Python code as a datatype, results
  as sums, Python dictionaries (insertion-ordered, distinct keys) as association lists with their
  interface locale, sets kept as lists where the code iterates over them, string operations of the
  standard library (\<open>split\<close>, \<open>strip\<close>, \<open>lower\<close>, \<open>startswith\<close>), and \<open>int(str)\<close> / \<open>str(int)\<close>.
  Text is modelled as ASCII characters: the stream keys, field values and identifiers the services
  exchange are ASCII.
\<close>

named_theorems py_defs \<open>definitions unfolded when a handler is evaluated\<close>
named_theorems frame \<open>fields an operation leaves alone\<close>

section \<open>Exceptions and results\<close>

datatype exn =
    KeyError | ValueError | IndexError | TypeError | ZeroDivisionError | RuntimeError
  | ExchangeRESTError | TimeoutError | HTTPError | OtherError

type_synonym 'a res = "exn + 'a"

definition rbind :: "'a res \<Rightarrow> ('a \<Rightarrow> 'b res) \<Rightarrow> 'b res" where
  "rbind m f = (case m of Inl e \<Rightarrow> Inl e | Inr x \<Rightarrow> f x)"

lemma rbind_simps [simp]: "rbind (Inl e) f = Inl e" "rbind (Inr x) f = f x"
  by (simp_all add: rbind_def)

lemma rbind_Inr_iff: "rbind m f = Inr y \<longleftrightarrow> (\<exists>x. m = Inr x \<and> f x = Inr y)"
  by (cases m) auto

definition of_option :: "exn \<Rightarrow> 'a option \<Rightarrow> 'a res" where
  "of_option e m = (case m of None \<Rightarrow> Inl e | Some x \<Rightarrow> Inr x)"

lemma of_option_simps [simp]: "of_option e None = Inl e" "of_option e (Some x) = Inr x"
  by (simp_all add: of_option_def)

lemma of_option_Inr_iff [simp]: "of_option e m = Inr x \<longleftrightarrow> m = Some x"
  by (cases m) auto

section \<open>Dictionaries\<close>

text \<open>
  A Python \<open>dict\<close> keeps its keys distinct and in insertion order; assigning to an existing key
  keeps its position. \<open>dset\<close>, \<open>dpop\<close> and \<open>map_of\<close> are \<open>d[k] = v\<close>, \<open>d.pop(k, None)\<close> and \<open>d.get(k)\<close>.
\<close>

type_synonym ('k, 'v) dict = "('k \<times> 'v) list"

fun dset :: "'k \<Rightarrow> 'v \<Rightarrow> ('k, 'v) dict \<Rightarrow> ('k, 'v) dict" where
  "dset k v [] = [(k, v)]"
| "dset k v ((k', v') # d) = (if k' = k then (k, v) # d else (k', v') # dset k v d)"

definition dpop :: "'k \<Rightarrow> ('k, 'v) dict \<Rightarrow> ('k, 'v) dict" where
  "dpop k d = filter (\<lambda>(k', _). k' \<noteq> k) d"

definition dget :: "('k, 'v) dict \<Rightarrow> 'k \<Rightarrow> 'v \<Rightarrow> 'v" where
  "dget d k dflt = (case map_of d k of None \<Rightarrow> dflt | Some v \<Rightarrow> v)"

definition dkeys :: "('k, 'v) dict \<Rightarrow> 'k list" where
  "dkeys d = map fst d"

definition dinv :: "('k, 'v) dict \<Rightarrow> bool" where
  "dinv d \<longleftrightarrow> distinct (map fst d)"

lemma dpop_simps [simp]:
  "dpop k [] = []"
  "dpop k ((k', v) # d) = (if k' = k then dpop k d else (k', v) # dpop k d)"
  by (auto simp: dpop_def)

lemma map_of_dset [simp]: "map_of (dset k v d) = (map_of d)(k \<mapsto> v)"
  by (induction k v d rule: dset.induct) (auto simp: fun_eq_iff)

lemma map_of_dpop [simp]: "map_of (dpop k d) = (map_of d)(k := None)"
  by (induction d) (auto simp: fun_eq_iff)

lemma dkeys_dset: "dkeys (dset k v d) = (if k \<in> set (dkeys d) then dkeys d else dkeys d @ [k])"
  by (induction k v d rule: dset.induct) (auto simp: dkeys_def)

lemma set_dkeys_dset [simp]: "set (dkeys (dset k v d)) = insert k (set (dkeys d))"
  by (auto simp: dkeys_dset)

lemma dkeys_dpop [simp]: "dkeys (dpop k d) = filter (\<lambda>x. x \<noteq> k) (dkeys d)"
  by (induction d) (auto simp: dkeys_def)

lemma dinv_dset [simp]: "dinv d \<Longrightarrow> dinv (dset k v d)"
  using dkeys_dset [of k v d] by (auto simp: dinv_def dkeys_def)

lemma dinv_dpop [simp]: "dinv d \<Longrightarrow> dinv (dpop k d)"
  using dkeys_dpop [of k d] by (simp add: dinv_def dkeys_def)

lemma dkeys_simps [simp]: "dkeys [] = []" "dkeys ((k, v) # d) = k # dkeys d"
  by (simp_all add: dkeys_def)

lemma dinv_Nil [simp]: "dinv []"
  by (simp add: dinv_def)

lemma set_dkeys: "set (dkeys d) = dom (map_of d)"
  by (simp add: dkeys_def dom_map_of_conv_image_fst)

lemma length_dset: "length (dset k v d) = (if k \<in> set (dkeys d) then length d else Suc (length d))"
  by (induction k v d rule: dset.induct) (auto simp: dkeys_def)

lemma dget_dset: "dget (dset k v d) k' x = (if k' = k then v else dget d k' x)"
  by (simp add: dget_def)

lemma dget_dpop: "dget (dpop k d) k' x = (if k' = k then x else dget d k' x)"
  by (simp add: dget_def)

lemma dget_Nil [simp]: "dget [] k x = x"
  by (simp add: dget_def)

lemma dpop_absent: "k \<notin> set (dkeys d) \<Longrightarrow> dpop k d = d"
  by (induction d) (auto simp: dkeys_def)

lemma dpop_dset_same: "dinv d \<Longrightarrow> k \<notin> set (dkeys d) \<Longrightarrow> dpop k (dset k v d) = d"
  by (induction d) (auto simp: dinv_def dkeys_def dpop_absent)

text \<open>
  The contract of a dictionary, as the components that keep one use it: what a lookup returns after
  an assignment and after a deletion, and that both keep the representation sound.
\<close>

locale dictionary =
  fixes lookup :: "'m \<Rightarrow> 'k \<Rightarrow> 'v option"
    and assign :: "'k \<Rightarrow> 'v \<Rightarrow> 'm \<Rightarrow> 'm"
    and delete :: "'k \<Rightarrow> 'm \<Rightarrow> 'm"
    and invar :: "'m \<Rightarrow> bool"
  assumes lookup_assign: "lookup (assign k v m) k' = (if k' = k then Some v else lookup m k')"
    and lookup_delete: "lookup (delete k m) k' = (if k' = k then None else lookup m k')"
    and invar_assign: "invar m \<Longrightarrow> invar (assign k v m)"
    and invar_delete: "invar m \<Longrightarrow> invar (delete k m)"
begin

definition member :: "'m \<Rightarrow> 'k \<Rightarrow> bool" where
  "member m k \<longleftrightarrow> lookup m k \<noteq> None"

lemma member_assign: "member (assign k v m) k' \<longleftrightarrow> k' = k \<or> member m k'"
  by (simp add: member_def lookup_assign)

lemma member_delete: "member (delete k m) k' \<longleftrightarrow> k' \<noteq> k \<and> member m k'"
  by (simp add: member_def lookup_delete)

lemma lookup_fold_assign:
  "lookup (fold (\<lambda>k m. assign k (f k) m) ks m) k =
     (if k \<in> set ks then Some (f k) else lookup m k)"
  by (induction ks arbitrary: m) (auto simp: lookup_assign)

lemma invar_fold_assign: "invar m \<Longrightarrow> invar (fold (\<lambda>k m. assign k (f k) m) ks m)"
  by (induction ks arbitrary: m) (auto simp: invar_assign)

lemma lookup_fold_delete:
  "lookup (fold delete ks m) k = (if k \<in> set ks then None else lookup m k)"
  by (induction ks arbitrary: m) (auto simp: lookup_delete)

end

interpretation pydict: dictionary map_of dset dpop dinv
  by unfold_locales (auto simp: fun_upd_def)

section \<open>Generic list lemmas\<close>

lemma fold_invariant: "P s \<Longrightarrow> (\<And>x s. P s \<Longrightarrow> x \<in> set xs \<Longrightarrow> P (f x s)) \<Longrightarrow> P (fold f xs s)"
  by (induction xs arbitrary: s) auto

lemma fold_unchanged: "(\<And>x s. x \<in> set xs \<Longrightarrow> g (f x s) = g s) \<Longrightarrow> g (fold f xs s) = g s"
  by (induction xs arbitrary: s) auto

lemma length_concat_map_le: "length (filter P xs) \<le> length xs"
  by simp

section \<open>Strings\<close>

fun split_on :: "char \<Rightarrow> string \<Rightarrow> string list" where
  "split_on c [] = [[]]"
| "split_on c (x # xs) =
     (if x = c then [] # split_on c xs
      else case split_on c xs of [] \<Rightarrow> [[x]] | w # ws \<Rightarrow> (x # w) # ws)"

definition starts_with :: "string \<Rightarrow> string \<Rightarrow> bool" where
  "starts_with p s \<longleftrightarrow> take (length p) s = p"

lemma split_on_nonempty [simp]: "split_on c s \<noteq> []"
  by (induction s) (auto split: list.splits)

lemma split_on_plain: "c \<notin> set s \<Longrightarrow> split_on c s = [s]"
  by (induction s) auto

lemma split_on_append: "c \<notin> set s \<Longrightarrow> split_on c (s @ c # t) = s # split_on c t"
  by (induction s) auto

definition is_space :: "char \<Rightarrow> bool" where
  "is_space c \<longleftrightarrow> (let n = (of_char c :: nat) in 9 \<le> n \<and> n \<le> 13 \<or> 28 \<le> n \<and> n \<le> 32)"

definition strip :: "string \<Rightarrow> string" where
  "strip s = rev (dropWhile is_space (rev (dropWhile is_space s)))"

definition lower_char :: "char \<Rightarrow> char" where
  "lower_char c = (let n = (of_char c :: nat) in if 65 \<le> n \<and> n \<le> 90 then char_of (n + 32) else c)"

definition lower :: "string \<Rightarrow> string" where
  "lower s = map lower_char s"

definition upper_char :: "char \<Rightarrow> char" where
  "upper_char c = (let n = (of_char c :: nat) in if 97 \<le> n \<and> n \<le> 122 then char_of (n - 32) else c)"

definition capitalize :: "string \<Rightarrow> string" where
  "capitalize s = (case s of [] \<Rightarrow> [] | c # cs \<Rightarrow> upper_char c # lower cs)"

section \<open>Integers and their text\<close>

definition is_digit :: "char \<Rightarrow> bool" where
  "is_digit c \<longleftrightarrow> (let n = (of_char c :: nat) in 48 \<le> n \<and> n \<le> 57)"

definition digit_val :: "char \<Rightarrow> nat" where
  "digit_val c = of_char c - 48"

definition digit_char :: "nat \<Rightarrow> char" where
  "digit_char n = char_of (48 + n)"

text \<open>
  \<open>scan\<close> reads the longest prefix of digits, single underscores allowed between digits, as
  Python's numeric literals do; it returns the value, the number of digits and the rest.
\<close>

fun scan :: "nat \<Rightarrow> nat \<Rightarrow> string \<Rightarrow> nat \<times> nat \<times> string" where
  "scan v n [] = (v, n, [])"
| "scan v n [c] = (if is_digit c then (10 * v + digit_val c, Suc n, []) else (v, n, [c]))"
| "scan v n (c # d # cs) =
     (if is_digit c then scan (10 * v + digit_val c) (Suc n) (d # cs)
      else if c = CHR ''_'' \<and> 0 < n \<and> is_digit d then scan (10 * v + digit_val d) (Suc n) cs
      else (v, n, c # d # cs))"

definition sign_of :: "string \<Rightarrow> int \<times> string" where
  "sign_of s = (case s of
       c # cs \<Rightarrow> if c = CHR ''-'' then (-1, cs) else if c = CHR ''+'' then (1, cs) else (1, s)
     | [] \<Rightarrow> (1, s))"

definition py_int :: "string \<Rightarrow> int option" where
  "py_int s = (case sign_of (strip s) of (sg, t) \<Rightarrow>
     (case scan 0 0 t of (v, n, r) \<Rightarrow> if 0 < n \<and> r = [] then Some (sg * int v) else None))"

fun nat_str :: "nat \<Rightarrow> string" where
  "nat_str n = (if n < 10 then [digit_char n] else nat_str (n div 10) @ [digit_char (n mod 10)])"

declare nat_str.simps [simp del]

definition int_str :: "int \<Rightarrow> string" where
  "int_str i = (if i < 0 then CHR ''-'' # nat_str (nat (- i)) else nat_str (nat i))"

lemma of_char_digit_char [simp]: "n < 10 \<Longrightarrow> of_char (digit_char n) = 48 + n"
  by (simp add: digit_char_def)

lemma digit_char_facts [simp]:
  assumes "n < 10"
  shows "is_digit (digit_char n)" "digit_val (digit_char n) = n" "\<not> is_space (digit_char n)"
    "digit_char n \<noteq> CHR ''-''" "digit_char n \<noteq> CHR ''+''"
proof -
  have h: "of_char (digit_char n) = 48 + n" using assms by simp
  show "is_digit (digit_char n)" "digit_val (digit_char n) = n" "\<not> is_space (digit_char n)"
    using assms h by (auto simp: is_digit_def digit_val_def is_space_def Let_def)
  show "digit_char n \<noteq> CHR ''-''" "digit_char n \<noteq> CHR ''+''" using h by auto
qed

lemma scan_digits:
  "list_all is_digit ds \<Longrightarrow>
     scan v n ds = (fold (\<lambda>c v. 10 * v + digit_val c) ds v, n + length ds, [])"
proof (induction ds arbitrary: v n)
  case (Cons c ds)
  then show ?case by (cases ds) auto
qed simp

lemma nat_str_facts:
  "list_all is_digit (nat_str n) \<and> nat_str n \<noteq> [] \<and> (\<forall>c \<in> set (nat_str n). \<not> is_space c) \<and>
   hd (nat_str n) \<noteq> CHR ''-'' \<and> hd (nat_str n) \<noteq> CHR ''+''"
proof (induction n rule: nat_str.induct)
  case (1 n)
  show ?case
  proof (cases "n < 10")
    case True
    then show ?thesis by (simp add: nat_str.simps [of n])
  next
    case False
    with 1 show ?thesis by (subst (1 2 3 4 5) nat_str.simps) (auto simp: hd_append)
  qed
qed

lemma fold_nat_str: "fold (\<lambda>c v. 10 * v + digit_val c) (nat_str n) 0 = n"
proof (induction n rule: nat_str.induct)
  case (1 n)
  then show ?case by (cases "n < 10") (simp_all add: nat_str.simps [of n])
qed

lemma strip_no_space: "\<forall>c \<in> set s. \<not> is_space c \<Longrightarrow> strip s = s"
proof -
  assume h: "\<forall>c \<in> set s. \<not> is_space c"
  have d: "dropWhile is_space t = t" if "\<forall>c \<in> set t. \<not> is_space c" for t
    using that by (cases t) auto
  from h show ?thesis by (simp add: strip_def d [of s] d [of "rev s"])
qed

lemma scan_nat_str: "scan 0 0 (nat_str n) = (n, length (nat_str n), [])"
  using scan_digits [of "nat_str n" 0 0] nat_str_facts [of n] fold_nat_str [of n] by simp

lemma sign_of_nat_str: "sign_of (nat_str n) = (1, nat_str n)"
  using nat_str_facts [of n] by (cases "nat_str n") (auto simp: sign_of_def)

lemma minus_not_space [simp]: "\<not> is_space (CHR ''-'')"
  by (simp add: is_space_def)

lemma py_int_int_str: "py_int (int_str i) = Some i"
proof (cases "i < 0")
  case True
  have "strip (int_str i) = int_str i"
    using nat_str_facts [of "nat (- i)"] True by (intro strip_no_space) (auto simp: int_str_def)
  then show ?thesis
    using True nat_str_facts [of "nat (- i)"]
    by (simp add: py_int_def int_str_def sign_of_def scan_nat_str)
next
  case False
  have "strip (int_str i) = int_str i"
    using nat_str_facts [of "nat i"] False by (intro strip_no_space) (auto simp: int_str_def)
  then show ?thesis
    using False nat_str_facts [of "nat i"]
    by (simp add: py_int_def int_str_def sign_of_nat_str scan_nat_str)
qed

end
