(* ===== verification/Float64.thy ===== *)
theory Float64
  imports Prelude Complex_Main "HOL-Library.Log_Nat"
begin

text \<open>
  Python's \<open>float\<close>: IEEE 754 binary64 with round-to-nearest-even, written as an executable
  rounding function on rationals. A value is a finite rational, an infinity or NaN; comparisons
  with NaN are false. Python's two zeros compare equal and its division raises on both, so one zero
  stands for them. \<open>fl\<close> scales by \<open>2 ^ 1074\<close> (the weight of the least subnormal), keeps the leading
  53 bits of the integer part and rounds half to even; above the largest finite value the result is
  an infinity. The lemmas show \<open>fl\<close> monotone, exact on representable values and sign preserving,
  which is what the risk and position bounds of the order code rest on.
\<close>

named_theorems f64_simps \<open>evaluation of float operations on finite arguments\<close>

section \<open>Rounding\<close>

definition rhe :: "rat \<Rightarrow> int" where
  "rhe x = (let f = \<lfloor>x\<rfloor>; d = x - of_int f in
     if d < 1 / 2 then f else if 1 / 2 < d then f + 1 else if even f then f else f + 1)"

definition weight :: rat where
  "weight = 2 ^ 1074"

definition quantum :: "rat \<Rightarrow> rat" where
  "quantum x = 2 ^ (floorlog 2 (nat \<lfloor>x * weight\<rfloor>) - 53) / weight"

definition rnd_pos :: "rat \<Rightarrow> rat" where
  "rnd_pos x = of_int (rhe (x / quantum x)) * quantum x"

definition rnd :: "rat \<Rightarrow> rat" where
  "rnd x = (if x < 0 then - rnd_pos (- x) else rnd_pos x)"

definition f64_max :: rat where
  "f64_max = (2 ^ 53 - 1) * 2 ^ 971"

datatype f64 = Fin rat | PInf | NInf | NaN

definition fl :: "rat \<Rightarrow> f64" where
  "fl x = (let r = rnd x in if f64_max < r then PInf else if r < - f64_max then NInf else Fin r)"

subsection \<open>Rounding to an integer\<close>

lemma rhe_of_int [simp]: "rhe (of_int k) = k"
  by (simp add: rhe_def Let_def)

lemma rhe_bounds: "\<lfloor>x\<rfloor> \<le> rhe x \<and> rhe x \<le> \<lfloor>x\<rfloor> + 1"
  by (simp add: rhe_def Let_def)

lemma rhe_mono: "x \<le> y \<Longrightarrow> rhe x \<le> rhe y"
proof (cases "\<lfloor>x\<rfloor> = \<lfloor>y\<rfloor>")
  case True
  assume "x \<le> y"
  with True show ?thesis by (auto simp: rhe_def Let_def)
next
  case False
  assume "x \<le> y"
  then have "\<lfloor>x\<rfloor> \<le> \<lfloor>y\<rfloor>" by (rule floor_mono)
  with False have "\<lfloor>x\<rfloor> + 1 \<le> \<lfloor>y\<rfloor>" by simp
  with rhe_bounds [of x] rhe_bounds [of y] show ?thesis by linarith
qed

lemma rhe_nonneg: "0 \<le> x \<Longrightarrow> 0 \<le> rhe x"
  using rhe_mono [of 0 x] rhe_of_int [of 0] by simp

subsection \<open>The quantum\<close>

lemma weight_pos [simp]: "0 < weight"
  by (simp add: weight_def)

lemma weight_nonneg [simp]: "0 \<le> weight"
  by (simp add: weight_def)

lemma weight_nonzero [simp]: "weight \<noteq> 0"
  using weight_pos by (metis less_irrefl)

lemma quantum_pos [simp]: "0 < quantum x"
  by (simp add: quantum_def)

lemma quantum_nonzero [simp]: "quantum x \<noteq> 0"
  using quantum_pos [of x] by (metis less_irrefl)

lemma rnd_pos_nonneg: "0 \<le> x \<Longrightarrow> 0 \<le> rnd_pos x"
  by (simp add: rnd_pos_def rhe_nonneg less_imp_le)

lemma rnd_pos_fixed:
  assumes "x = of_int k * quantum x"
  shows "rnd_pos x = x"
proof -
  have "x / quantum x = of_int k"
    using assms quantum_pos [of x] by (metis less_irrefl nonzero_eq_divide_eq)
  then show ?thesis using assms by (simp add: rnd_pos_def)
qed

definition bits :: "rat \<Rightarrow> nat" where
  "bits x = floorlog 2 (nat \<lfloor>x * weight\<rfloor>)"

lemma quantum_bits: "quantum x = 2 ^ (bits x - 53) / weight"
  by (simp add: quantum_def bits_def)

lemma bits_mono: "x \<le> y \<Longrightarrow> bits x \<le> bits y"
  unfolding bits_def by (intro floorlog_mono nat_mono floor_mono mult_right_mono) auto

lemma lt_bits:
  assumes "0 \<le> x"
  shows "x < 2 ^ bits x / weight"
proof -
  let ?n = "nat \<lfloor>x * weight\<rfloor>"
  have "?n < 2 ^ bits x"
  proof (cases "?n = 0")
    case False
    then show ?thesis using floorlog_bounds [of ?n 2] by (simp add: bits_def)
  qed simp
  then have "\<lfloor>x * weight\<rfloor> < 2 ^ bits x"
    using assms by (simp add: nat_less_iff)
  then have "x * weight < (2::rat) ^ bits x"
    by (metis floor_less_iff of_int_numeral of_int_power)
  then show ?thesis by (simp add: pos_less_divide_eq)
qed

lemma bits_le:
  assumes "0 \<le> x" "0 < bits x"
  shows "2 ^ (bits x - 1) / weight \<le> x"
proof -
  let ?n = "nat \<lfloor>x * weight\<rfloor>"
  have "0 < ?n" using assms(2) by (cases "?n = 0") (auto simp: bits_def floorlog_def)
  then have "2 ^ (bits x - 1) \<le> ?n" using floorlog_bounds [of ?n 2] by (simp add: bits_def)
  then have "(2::int) ^ (bits x - 1) \<le> \<lfloor>x * weight\<rfloor>"
    using assms(1) by (simp add: nat_le_eq_zle le_nat_iff)
  then have "(2::rat) ^ (bits x - 1) \<le> x * weight"
    by (metis le_floor_iff of_int_numeral of_int_power)
  then show ?thesis by (simp add: pos_divide_le_eq)
qed

lemma rnd_pos_mono:
  assumes "0 \<le> x" "x \<le> y"
  shows "rnd_pos x \<le> rnd_pos y"
proof (cases "quantum x = quantum y")
  case True
  have "rhe (x / quantum x) \<le> rhe (y / quantum x)"
    using assms by (intro rhe_mono divide_right_mono) (simp_all add: less_imp_le)
  with True show ?thesis
    by (simp add: rnd_pos_def mult_right_mono less_imp_le)
next
  case False
  then have "bits x - 53 \<noteq> bits y - 53" by (auto simp: quantum_bits)
  then have b: "bits x < bits y" "53 < bits y" using bits_mono [OF assms(2)] by linarith+
  let ?B = "2 ^ (bits y - 1) / weight :: rat"
  have xB: "x \<le> ?B"
  proof -
    have "x < 2 ^ bits x / weight" using assms by (simp add: lt_bits)
    also have "\<dots> \<le> ?B" using b by (intro divide_right_mono power_increasing) auto
    finally show ?thesis by simp
  qed
  have By: "?B \<le> y" using assms b bits_le [of y] by simp
  have Bx: "?B / quantum x = of_int (2 ^ (bits y - 1 - (bits x - 53)))"
  proof -
    have "bits y - 1 = (bits y - 1 - (bits x - 53)) + (bits x - 53)" using b by simp
    then have "?B = 2 ^ (bits y - 1 - (bits x - 53)) * quantum x"
      by (metis power_add quantum_bits times_divide_eq_right)
    then have "?B / quantum x = 2 ^ (bits y - 1 - (bits x - 53))"
      by (rule nonzero_divide_eq_eq [OF quantum_nonzero, THEN iffD2])
    also have "2 ^ (bits y - 1 - (bits x - 53)) = (of_int (2 ^ (bits y - 1 - (bits x - 53))) :: rat)" by simp
    finally show ?thesis .
  qed
  have Bq: "?B / quantum y = of_int (2 ^ 52)"
  proof -
    have "bits y - 1 = 52 + (bits y - 53)" using b by simp
    then have "?B = 2 ^ 52 * quantum y"
      by (metis power_add quantum_bits times_divide_eq_right)
    then have "?B / quantum y = 2 ^ 52"
      by (rule nonzero_divide_eq_eq [OF quantum_nonzero, THEN iffD2])
    also have "2 ^ 52 = (of_int (2 ^ 52) :: rat)" by simp
    finally show ?thesis .
  qed
  have "rnd_pos x \<le> ?B"
  proof -
    have "rhe (x / quantum x) \<le> rhe (?B / quantum x)"
      using xB by (intro rhe_mono divide_right_mono) (simp_all add: less_imp_le)
    then have "rhe (x / quantum x) \<le> 2 ^ (bits y - 1 - (bits x - 53))"
      unfolding Bx by (simp only: rhe_of_int)
    then have "of_int (rhe (x / quantum x)) \<le> ?B / quantum x"
      unfolding Bx by (simp only: of_int_le_iff)
    then show ?thesis by (simp only: rnd_pos_def pos_le_divide_eq [OF quantum_pos])
  qed
  moreover have "?B \<le> rnd_pos y"
  proof -
    have "rhe (?B / quantum y) \<le> rhe (y / quantum y)"
      using By by (intro rhe_mono divide_right_mono) (simp_all add: less_imp_le)
    then have "2 ^ 52 \<le> rhe (y / quantum y)" unfolding Bq by (simp only: rhe_of_int)
    then have "?B / quantum y \<le> of_int (rhe (y / quantum y))"
      unfolding Bq by (simp only: of_int_le_iff)
    then show ?thesis by (simp only: rnd_pos_def pos_divide_le_eq [OF quantum_pos])
  qed
  ultimately show ?thesis by (rule order_trans)
qed

lemma rnd_zero [simp]: "rnd 0 = 0"
  using rhe_of_int [of 0] by (simp add: rnd_def rnd_pos_def)

lemma rnd_minus: "rnd (- x) = - rnd x"
  by (auto simp: rnd_def) (metis minus_zero rnd_def rnd_zero less_irrefl linorder_neqE)

lemma rnd_mono: "x \<le> y \<Longrightarrow> rnd x \<le> rnd y"
  using rnd_pos_mono [of x y] rnd_pos_mono [of "- y" "- x"] rnd_pos_nonneg [of "- x"]
    rnd_pos_nonneg [of y]
  by (auto simp: rnd_def)

lemma rnd_nonneg: "0 \<le> x \<Longrightarrow> 0 \<le> rnd x"
  using rnd_mono [of 0 x] by simp

lemma rnd_nonpos: "x \<le> 0 \<Longrightarrow> rnd x \<le> 0"
  using rnd_mono [of x 0] by simp

subsection \<open>Exactness\<close>

text \<open>A dyadic rational with a 53-bit numerator is rounded to itself.\<close>

lemma quantum_dyadic:
  assumes m: "0 < m" "m < 2 ^ 53" and k: "k \<le> 1074"
  shows "\<exists>i. of_nat m / 2 ^ k = of_int i * quantum (of_nat m / 2 ^ k)"
proof -
  let ?x = "of_nat m / 2 ^ k :: rat" and ?j = "1074 - k"
  have e: "weight = 2 ^ k * 2 ^ ?j" using k by (simp add: weight_def flip: power_add)
  have X: "?x * weight = of_nat (m * 2 ^ ?j)" by (simp add: e)
  have b: "bits ?x = floorlog 2 (m * 2 ^ ?j)"
    by (simp only: bits_def X floor_of_nat nat_int)
  have "bits ?x - 53 \<le> ?j"
  proof (rule ccontr)
    assume "\<not> bits ?x - 53 \<le> ?j"
    then have h: "53 + ?j \<le> bits ?x - 1" by simp
    have "2 ^ (53 + ?j) \<le> (2::nat) ^ (bits ?x - 1)" using h by (intro power_increasing) auto
    also have "\<dots> \<le> m * 2 ^ ?j" using floorlog_bounds [of "m * 2 ^ ?j" 2] m by (simp add: b)
    finally have "2 ^ 53 \<le> m" by (simp add: power_add)
    with m show False by simp
  qed
  then have "(2::rat) ^ ?j = 2 ^ (?j - (bits ?x - 53)) * 2 ^ (bits ?x - 53)"
    by (simp flip: power_add)
  then have "of_int (int m * 2 ^ (?j - (bits ?x - 53))) * quantum ?x = of_nat m * 2 ^ ?j / weight"
    by (simp add: quantum_bits)
  then have "?x = of_int (int m * 2 ^ (?j - (bits ?x - 53))) * quantum ?x"
    by (simp add: e)
  then show ?thesis by blast
qed

lemma rnd_dyadic:
  assumes "m < 2 ^ 53" "k \<le> 1074"
  shows "rnd (of_nat m / 2 ^ k) = of_nat m / 2 ^ k"
proof (cases "m = 0")
  case False
  then obtain i where "of_nat m / 2 ^ k = of_int i * quantum (of_nat m / 2 ^ k)"
    using quantum_dyadic assms by blast
  then have "rnd_pos (of_nat m / 2 ^ k) = of_nat m / 2 ^ k" by (rule rnd_pos_fixed)
  then show ?thesis by (simp add: rnd_def divide_less_0_iff)
qed simp

lemma le_f64_max: "m < 2 ^ 53 \<Longrightarrow> of_nat m / 2 ^ k \<le> f64_max"
proof -
  assume "m < 2 ^ 53"
  then have "(of_nat m :: rat) \<le> 2 ^ 53 - 1"
    by (simp add: le_diff_eq)
  also have "\<dots> \<le> (2 ^ 53 - 1) * 2 ^ 971" by simp
  finally have a: "(of_nat m :: rat) \<le> f64_max" unfolding f64_max_def .
  have "of_nat m / 2 ^ k \<le> (of_nat m :: rat) / 1" by (intro divide_left_mono) auto
  with a show ?thesis by simp
qed

lemma f64_max_pos: "0 < f64_max"
  by (simp add: f64_max_def)

lemma fl_dyadic: "m < 2 ^ 53 \<Longrightarrow> k \<le> 1074 \<Longrightarrow> fl (of_nat m / 2 ^ k) = Fin (of_nat m / 2 ^ k)"
  using le_f64_max [of m k] f64_max_pos
  by (auto simp: fl_def Let_def rnd_dyadic not_less intro: order_trans [of _ 0])

lemma fl_zero [simp]: "fl 0 = Fin 0"
  using fl_dyadic [of 0 0] by simp

lemma fl_one [simp]: "fl 1 = Fin 1"
  using fl_dyadic [of 1 0] by simp

lemma fl_numeral [simp, f64_simps]:
  "(numeral n :: nat) < 2 ^ 53 \<Longrightarrow> fl (numeral n) = Fin (numeral n)"
  using fl_dyadic [of "numeral n" 0] by simp

lemma fl_minus: "fl (- x) = (case fl x of Fin r \<Rightarrow> Fin (- r) | PInf \<Rightarrow> NInf | NInf \<Rightarrow> PInf | NaN \<Rightarrow> NaN)"
  using f64_max_pos by (auto simp: fl_def Let_def rnd_minus)

lemma fl_neg_numeral [simp, f64_simps]:
  "(numeral n :: nat) < 2 ^ 53 \<Longrightarrow> fl (- numeral n) = Fin (- numeral n)"
  by (simp add: fl_minus fl_numeral)

subsection \<open>Executing the rounding\<close>

text \<open>
  The definition of \<open>quantum\<close> speaks of \<open>2 ^ 1074\<close>; for evaluation the binary exponent is read
  off the bit lengths of numerator and denominator, so that only small numbers are computed.
\<close>

definition pow2 :: "int \<Rightarrow> rat" where
  "pow2 e = (if 0 \<le> e then 2 ^ nat e else 1 / 2 ^ nat (- e))"

definition flog2 :: "rat \<Rightarrow> int" where
  "flog2 x = (case quotient_of x of (p, q) \<Rightarrow>
     (let e = bitlen p - bitlen q in if pow2 e \<le> x then e else e - 1))"

lemma pow2_pos [simp]: "0 < pow2 e"
  by (simp add: pow2_def)

lemma pow2_add: "pow2 (a + b) = pow2 a * pow2 b"
proof -
  have p: "pow2 e = 2 powi e" for e by (simp add: pow2_def power_int_def inverse_eq_divide power_one_over)
  show ?thesis unfolding p by (rule power_int_add) simp
qed

lemma pow2_nat: "0 \<le> e \<Longrightarrow> pow2 e = 2 ^ nat e"
  by (simp add: pow2_def)

lemma pow2_mono: "a \<le> b \<Longrightarrow> pow2 a \<le> pow2 b"
proof -
  assume "a \<le> b"
  then have "pow2 b = pow2 a * 2 ^ nat (b - a)" by (metis diff_add_cancel diff_ge_0_iff_ge add.commute pow2_add pow2_nat)
  moreover have "pow2 a * 1 \<le> pow2 a * 2 ^ nat (b - a)"
    by (intro mult_left_mono) (simp_all add: less_imp_le)
  ultimately show ?thesis by simp
qed

lemma pow2_int [simp]: "pow2 (int n) = 2 ^ n"
  by (simp add: pow2_def)

lemma weight_pow2: "weight = pow2 1074"
  by (simp add: weight_def pow2_def)

lemma flog2_bounds:
  assumes "0 < x"
  shows "pow2 (flog2 x) \<le> x" "x < pow2 (flog2 x + 1)"
proof -
  obtain p q where pq: "quotient_of x = (p, q)" by (cases "quotient_of x")
  have q: "0 < q" using quotient_of_denom_pos [OF pq] .
  have x: "x = of_int p / of_int q" using quotient_of_div [OF pq] .
  have p: "0 < p" using assms q by (simp add: x zero_less_divide_iff)
  have split: "pow2 (bitlen r - 1) \<le> of_int r \<and> of_int r < pow2 (bitlen r)" if "0 < r" for r
  proof -
    have b: "0 < bitlen r" using that by (metis bitlen_eq_zero_iff bitlen_nonneg leD le_less)
    have "2 ^ nat (bitlen r - 1) \<le> r" "r < 2 ^ nat (bitlen r)" using bitlen_bounds [OF that] by auto
    then have "(of_int (2 ^ nat (bitlen r - 1)) :: rat) \<le> of_int r" "of_int r < (of_int (2 ^ nat (bitlen r)) :: rat)"
      by (simp_all only: of_int_le_iff of_int_less_iff)
    with b show ?thesis by (simp add: pow2_nat)
  qed
  let ?e = "bitlen p - bitlen q"
  have q0: "(0::rat) < of_int q" using q by simp
  have up: "x < pow2 (?e + 1)"
  proof -
    have "of_int p < pow2 (bitlen p)" using split p by auto
    also have "\<dots> = pow2 (?e + 1) * pow2 (bitlen q - 1)" by (simp flip: pow2_add)
    also have "\<dots> \<le> pow2 (?e + 1) * of_int q"
      using split q by (intro mult_left_mono) (simp_all add: less_imp_le)
    finally show ?thesis using q0 by (simp add: x pos_divide_less_eq)
  qed
  have low: "pow2 (?e - 1) \<le> x"
  proof -
    have "pow2 (?e - 1) * of_int q \<le> pow2 (?e - 1) * pow2 (bitlen q)"
      using split q by (intro mult_left_mono) (simp_all add: less_imp_le)
    also have "\<dots> = pow2 (bitlen p - 1)" by (simp flip: pow2_add)
    also have "\<dots> \<le> of_int p" using split p by auto
    finally show ?thesis using q0 by (simp add: x pos_le_divide_eq)
  qed
  show "pow2 (flog2 x) \<le> x" "x < pow2 (flog2 x + 1)"
    using up low by (auto simp: flog2_def pq Let_def)
qed

lemma bits_flog2:
  assumes "0 < x" "-1074 \<le> flog2 x"
  shows "bits x = nat (flog2 x + 1075)"
proof -
  obtain k where f: "flog2 x + 1074 = int k" using nonneg_int_cases [of "flog2 x + 1074"] assms(2) by auto
  have lo: "2 ^ k \<le> x * weight"
  proof -
    have "2 ^ k = pow2 (flog2 x) * weight"
      by (simp only: weight_pow2 f pow2_int flip: pow2_add)
    also have "\<dots> \<le> x * weight"
      using flog2_bounds(1) [OF assms(1)] by (intro mult_right_mono) simp_all
    finally show ?thesis .
  qed
  have hi: "x * weight < 2 ^ Suc k"
  proof -
    have e: "flog2 x + 1 + 1074 = int (Suc k)" using f by simp
    have "x * weight < pow2 (flog2 x + 1) * weight"
      using flog2_bounds(2) [OF assms(1)] by (intro mult_strict_right_mono) simp_all
    also have "\<dots> = 2 ^ Suc k"
      by (simp only: weight_pow2 e pow2_int flip: pow2_add)
    finally show ?thesis .
  qed
  have "(2::int) ^ k \<le> \<lfloor>x * weight\<rfloor>" "\<lfloor>x * weight\<rfloor> < 2 ^ Suc k"
    using lo hi by (simp_all add: le_floor_iff floor_less_iff)
  then have "2 ^ k \<le> nat \<lfloor>x * weight\<rfloor>" "nat \<lfloor>x * weight\<rfloor> < 2 ^ Suc k"
    using assms(1) by (simp_all add: le_nat_iff nat_less_iff zero_le_mult_iff)
  then have "Suc k \<le> bits x" "bits x \<le> Suc k"
    unfolding bits_def by (auto intro: floorlog_ge_SucI simp: floorlog_le_iff)
  then show ?thesis using f by simp
qed

lemma quantum_code [code]:
  "quantum x = (if x \<le> 0 then pow2 (-1074) else pow2 (max (flog2 x - 52) (-1074)))"
proof (cases "x \<le> 0")
  case True
  then have "\<lfloor>x * weight\<rfloor> \<le> 0" by (simp add: floor_le_iff mult_le_0_iff order_le_less_trans [of _ 0])
  then have "bits x = 0" by (simp add: bits_def floorlog_def)
  with True show ?thesis by (simp add: quantum_bits weight_def pow2_def)
next
  case False
  then have x: "0 < x" by simp
  show ?thesis
  proof (cases "-1074 \<le> flog2 x")
    case True
    have "quantum x = pow2 (int (nat (flog2 x + 1075) - 53)) * pow2 (-1074)"
      by (simp add: quantum_bits bits_flog2 [OF x True] weight_def pow2_def)
    also have "\<dots> = pow2 (int (nat (flog2 x + 1075) - 53) + - 1074)"
      by (simp only: pow2_add)
    also have "int (nat (flog2 x + 1075) - 53) + - 1074 = max (flog2 x - 52) (-1074)"
      using True by (simp add: max_def)
    finally show ?thesis using x by simp
  next
    case False
    then have "pow2 (flog2 x + 1) \<le> pow2 (-1074)" by (intro pow2_mono) simp
    then have "x < 1 / weight" using flog2_bounds(2) [OF x] by (simp add: weight_def pow2_def)
    then have "x * weight < 1" by (simp add: pos_less_divide_eq)
    then have "\<lfloor>x * weight\<rfloor> \<le> 0" by (simp add: floor_le_iff)
    then have "bits x = 0" by (simp add: bits_def floorlog_def)
    with x False show ?thesis by (simp add: quantum_bits weight_def pow2_def)
  qed
qed

lemma fl_code [code]:
  "fl x = (if \<bar>x\<bar> \<le> 4503599627370496 then Fin (rnd x)
           else let r = rnd x in if f64_max < r then PInf else if r < - f64_max then NInf else Fin r)"
proof (cases "\<bar>x\<bar> \<le> 4503599627370496")
  case True
  have b: "rnd 4503599627370496 = 4503599627370496" "4503599627370496 \<le> f64_max"
    using rnd_dyadic [of 4503599627370496 0] le_f64_max [of 4503599627370496 0] by simp_all
  have "rnd x \<le> f64_max" "- f64_max \<le> rnd x"
    using True rnd_mono [of x 4503599627370496] rnd_mono [of "- 4503599627370496" x] b
    by (auto simp: rnd_minus abs_le_iff)
  with True show ?thesis by (simp add: fl_def Let_def not_less)
next
  case False
  then show ?thesis by (simp only: fl_def if_False)
qed

section \<open>Arithmetic and comparison\<close>

instantiation f64 :: "{zero, one, plus, uminus, minus, times, ord, abs}"
begin

definition zero_f64 :: f64 where "zero_f64 = Fin 0"

definition one_f64 :: f64 where "one_f64 = Fin 1"

fun plus_f64 :: "f64 \<Rightarrow> f64 \<Rightarrow> f64" where
  "plus_f64 (Fin a) (Fin b) = fl (a + b)"
| "plus_f64 NaN y = NaN"
| "plus_f64 x NaN = NaN"
| "plus_f64 PInf NInf = NaN"
| "plus_f64 NInf PInf = NaN"
| "plus_f64 PInf y = PInf"
| "plus_f64 NInf y = NInf"
| "plus_f64 (Fin a) y = y"

fun uminus_f64 :: "f64 \<Rightarrow> f64" where
  "uminus_f64 (Fin a) = Fin (- a)"
| "uminus_f64 PInf = NInf"
| "uminus_f64 NInf = PInf"
| "uminus_f64 NaN = NaN"

definition minus_f64 :: "f64 \<Rightarrow> f64 \<Rightarrow> f64" where "minus_f64 x y = x + (- y :: f64)"

definition inf_sgn :: "rat \<Rightarrow> f64" where
  "inf_sgn a = (if a = 0 then NaN else if 0 < a then PInf else NInf)"

fun times_f64 :: "f64 \<Rightarrow> f64 \<Rightarrow> f64" where
  "times_f64 (Fin a) (Fin b) = fl (a * b)"
| "times_f64 NaN y = NaN"
| "times_f64 x NaN = NaN"
| "times_f64 (Fin a) PInf = inf_sgn a"
| "times_f64 (Fin a) NInf = inf_sgn (- a)"
| "times_f64 PInf (Fin b) = inf_sgn b"
| "times_f64 NInf (Fin b) = inf_sgn (- b)"
| "times_f64 PInf PInf = PInf"
| "times_f64 PInf NInf = NInf"
| "times_f64 NInf PInf = NInf"
| "times_f64 NInf NInf = PInf"

fun less_f64 :: "f64 \<Rightarrow> f64 \<Rightarrow> bool" where
  "less_f64 (Fin a) (Fin b) = (a < b)"
| "less_f64 (Fin a) PInf = True"
| "less_f64 NInf (Fin b) = True"
| "less_f64 NInf PInf = True"
| "less_f64 x y = False"

fun less_eq_f64 :: "f64 \<Rightarrow> f64 \<Rightarrow> bool" where
  "less_eq_f64 (Fin a) (Fin b) = (a \<le> b)"
| "less_eq_f64 (Fin a) PInf = True"
| "less_eq_f64 NInf (Fin b) = True"
| "less_eq_f64 NInf PInf = True"
| "less_eq_f64 PInf PInf = True"
| "less_eq_f64 NInf NInf = True"
| "less_eq_f64 x y = False"

fun abs_f64 :: "f64 \<Rightarrow> f64" where
  "abs_f64 (Fin a) = Fin \<bar>a\<bar>"
| "abs_f64 NaN = NaN"
| "abs_f64 x = PInf"

instance ..

end

text \<open>
  Equality \<open>==\<close> is false on NaN. \<open>fdiv\<close> is division by a non-zero divisor; the code guards its
  divisors, and an unguarded division is \<open>py_div\<close>, which raises.
\<close>

definition feq :: "f64 \<Rightarrow> f64 \<Rightarrow> bool" where
  "feq x y \<longleftrightarrow> x = y \<and> x \<noteq> NaN"

definition is_nan :: "f64 \<Rightarrow> bool" where
  "is_nan x \<longleftrightarrow> x = NaN"

definition is_fin :: "f64 \<Rightarrow> bool" where
  "is_fin x \<longleftrightarrow> (case x of Fin _ \<Rightarrow> True | _ \<Rightarrow> False)"

definition truthy :: "f64 \<Rightarrow> bool" where
  "truthy x \<longleftrightarrow> x \<noteq> Fin 0"

fun fdiv :: "f64 \<Rightarrow> f64 \<Rightarrow> f64" where
  "fdiv (Fin a) (Fin b) = fl (a / b)"
| "fdiv NaN y = NaN"
| "fdiv x NaN = NaN"
| "fdiv (Fin a) y = Fin 0"
| "fdiv PInf (Fin b) = inf_sgn b"
| "fdiv NInf (Fin b) = inf_sgn (- b)"
| "fdiv x y = NaN"

definition py_div :: "f64 \<Rightarrow> f64 \<Rightarrow> f64 res" where
  "py_div x y = (if y = Fin 0 then Inl ZeroDivisionError else Inr (fdiv x y))"

definition py_max :: "f64 \<Rightarrow> f64 \<Rightarrow> f64" where
  "py_max x y = (if x < y then y else x)"

definition py_min :: "f64 \<Rightarrow> f64 \<Rightarrow> f64" where
  "py_min x y = (if y < x then y else x)"

text \<open>\<open>round(x, n)\<close>: the exact value rounded half-even to \<open>n\<close> decimals, as the nearest float.\<close>

definition py_round :: "f64 \<Rightarrow> nat \<Rightarrow> f64" where
  "py_round x n = (case x of Fin a \<Rightarrow> fl (of_int (rhe (a * 10 ^ n)) / 10 ^ n) | _ \<Rightarrow> x)"

definition of_nat_f64 :: "nat \<Rightarrow> f64" where
  "of_nat_f64 n = fl (of_nat n)"

definition of_int_f64 :: "int \<Rightarrow> f64" where
  "of_int_f64 i = fl (of_int i)"

definition sum_f64 :: "f64 list \<Rightarrow> f64" where
  "sum_f64 xs = foldl (+) 0 xs"

lemma zero_one_f64 [simp]: "(0::f64) = Fin 0" "(1::f64) = Fin 1"
  by (simp_all add: zero_f64_def one_f64_def)

lemma fin_minus [simp]: "Fin a - Fin b = fl (a - b)"
  by (simp add: minus_f64_def)

lemma fl_cases: "fl x = PInf \<or> fl x = NInf \<or> (\<exists>r. fl x = Fin r \<and> r = rnd x)"
  by (auto simp: fl_def Let_def)

lemma fl_not_nan [simp]: "fl x \<noteq> NaN"
  using fl_cases [of x] by auto

lemma fl_nonneg: "0 \<le> x \<Longrightarrow> Fin 0 \<le> fl x"
  using rnd_nonneg [of x] f64_max_pos by (auto simp: fl_def Let_def)

lemma fl_nonpos: "x \<le> 0 \<Longrightarrow> fl x \<le> Fin 0"
  using rnd_nonpos [of x] f64_max_pos by (auto simp: fl_def Let_def)

lemma fl_mono: "x \<le> y \<Longrightarrow> fl x \<le> fl y"
  using rnd_mono [of x y] f64_max_pos by (auto simp: fl_def Let_def)

lemma fl_between_inf [simp]: "fl x \<le> PInf" "NInf \<le> fl x"
  using fl_cases [of x] by auto

lemma f64_le_refl: "x \<noteq> NaN \<Longrightarrow> x \<le> (x::f64)"
  by (cases x) auto

lemma f64_le_trans: "x \<le> y \<Longrightarrow> y \<le> z \<Longrightarrow> x \<le> (z::f64)"
  by (cases x; cases y; cases z) auto

lemma f64_le_less_trans: "x \<le> y \<Longrightarrow> y < z \<Longrightarrow> x < (z::f64)"
  by (cases x; cases y; cases z) auto

lemma f64_less_le_trans: "x < y \<Longrightarrow> y \<le> z \<Longrightarrow> x < (z::f64)"
  by (cases x; cases y; cases z) auto

lemma f64_less_imp_le: "x < y \<Longrightarrow> x \<le> (y::f64)"
  by (cases x; cases y) auto

lemma f64_less_irrefl [simp]: "\<not> x < (x::f64)"
  by (cases x) auto

lemma f64_not_less: "x \<noteq> NaN \<Longrightarrow> y \<noteq> NaN \<Longrightarrow> \<not> x < y \<longleftrightarrow> y \<le> (x::f64)"
  by (cases x; cases y) auto

lemma f64_less_asym: "x < y \<Longrightarrow> \<not> y < (x::f64)"
  by (cases x; cases y) auto

lemma f64_le_not_nan: "x \<le> (y::f64) \<Longrightarrow> x \<noteq> NaN \<and> y \<noteq> NaN"
  by (cases x; cases y) auto

lemma f64_antisym: "x \<le> y \<Longrightarrow> y \<le> x \<Longrightarrow> x = (y::f64)"
  by (cases x; cases y) auto

lemma nan_cmp [simp]: "\<not> NaN < x" "\<not> x < NaN" "\<not> NaN \<le> x" "\<not> x \<le> NaN"
  by (cases x; simp)+

lemma add_nonneg_f64: "Fin 0 \<le> x \<Longrightarrow> Fin 0 \<le> y \<Longrightarrow> Fin 0 \<le> x + (y::f64)"
  by (cases x; cases y) (auto intro: fl_nonneg)

lemma add_mono_f64:
  "x \<le> y \<Longrightarrow> u \<le> v \<Longrightarrow> x + u \<noteq> NaN \<Longrightarrow> y + v \<noteq> NaN \<Longrightarrow> x + u \<le> y + (v::f64)"
  by (cases x; cases y; cases u; cases v) (auto intro!: fl_mono add_mono)

lemma mult_nonneg_fin: "0 \<le> a \<Longrightarrow> 0 \<le> b \<Longrightarrow> Fin 0 \<le> Fin a * Fin b"
  by (simp add: fl_nonneg)

lemma div_nonneg_fin: "0 \<le> a \<Longrightarrow> 0 < b \<Longrightarrow> Fin 0 \<le> fdiv (Fin a) (Fin b)"
  by (simp add: fl_nonneg)

lemma py_max_zero_nonneg [simp]: "Fin 0 \<le> py_max (Fin 0) x"
  by (cases x) (auto simp: py_max_def)

lemma py_min_le: "x \<noteq> NaN \<Longrightarrow> y \<noteq> NaN \<Longrightarrow> py_min x y \<le> x \<and> py_min x y \<le> y"
  by (cases x; cases y) (auto simp: py_min_def)

lemma py_min_cases: "py_min x y = x \<or> py_min x y = y"
  by (simp add: py_min_def)

lemma diff_self_f64: "x - x = Fin 0 \<or> x - x = (NaN::f64)"
  by (cases x) (auto simp: minus_f64_def)

lemma Fin_add_zero: "fl a = Fin a \<Longrightarrow> Fin a + Fin 0 = Fin a"
  by simp

subsection \<open>Rounding twice\<close>

lemma rhe_le: "x \<le> of_int n \<Longrightarrow> rhe x \<le> n"
  using rhe_mono [of x "of_int n"] by simp

lemma rnd_pos_idem:
  assumes "0 \<le> x"
  shows "rnd_pos (rnd_pos x) = rnd_pos x"
proof -
  let ?j = "bits x - 53"
  define k where "k = rhe (x / quantum x)"
  have k0: "0 \<le> k" using assms by (simp add: k_def rhe_nonneg less_imp_le)
  have r: "rnd_pos x = of_int k * 2 ^ ?j / weight" by (simp add: rnd_pos_def k_def quantum_bits)
  have "x / quantum x \<le> 2 ^ 53"
  proof -
    have "x \<le> 2 ^ bits x / weight" using lt_bits [OF assms] by simp
    also have "\<dots> \<le> 2 ^ (53 + ?j) / weight"
      by (intro divide_right_mono power_increasing) auto
    also have "\<dots> = 2 ^ 53 * quantum x" by (simp add: quantum_bits power_add)
    finally show ?thesis by (simp add: pos_divide_le_eq)
  qed
  then have k: "k \<le> 2 ^ 53" unfolding k_def using rhe_le [of _ "2 ^ 53"] by simp
  define n where "n = nat k * 2 ^ ?j"
  have X: "rnd_pos x * weight = of_nat n" using k0 by (simp add: r n_def)
  have b: "bits (rnd_pos x) = floorlog 2 n" by (simp only: bits_def X floor_of_nat nat_int)
  have "2 ^ (bits (rnd_pos x) - 53) dvd n"
  proof (cases "k = 2 ^ 53")
    case True
    then have n: "n = 2 ^ (53 + ?j)" by (simp add: n_def power_add nat_power_eq)
    have "bits (rnd_pos x) - 53 \<le> 53 + ?j"
    proof (rule ccontr)
      assume "\<not> bits (rnd_pos x) - 53 \<le> 53 + ?j"
      then have "(2::nat) ^ (54 + ?j) \<le> 2 ^ (floorlog 2 n - 1)" unfolding b by (intro power_increasing) auto
      also have "\<dots> \<le> n" using floorlog_bounds [of n 2] n by simp
      finally show False by (simp add: n)
    qed
    then show ?thesis unfolding n by (rule le_imp_power_dvd)
  next
    case False
    show ?thesis
    proof (cases "n = 0")
      case n0: False
      have "n < 2 ^ (53 + ?j)"
        using False k k0 by (simp add: n_def power_add nat_less_iff)
      have "bits (rnd_pos x) - 53 \<le> ?j"
      proof (rule ccontr)
        assume "\<not> bits (rnd_pos x) - 53 \<le> ?j"
        then have "(2::nat) ^ (53 + ?j) \<le> 2 ^ (floorlog 2 n - 1)" unfolding b by (intro power_increasing) auto
        also have "\<dots> \<le> n" using floorlog_bounds [of n 2] n0 by simp
        finally show False using \<open>n < 2 ^ (53 + ?j)\<close> by simp
      qed
      then have "(2::nat) ^ (bits (rnd_pos x) - 53) dvd 2 ^ ?j" by (rule le_imp_power_dvd)
      then show ?thesis unfolding n_def by (rule dvd_mult)
    qed simp
  qed
  then obtain i where i: "n = 2 ^ (bits (rnd_pos x) - 53) * i" ..
  have "rnd_pos x = of_nat n / weight" using X by (metis weight_nonzero nonzero_mult_div_cancel_right)
  also have "\<dots> = of_int (int i) * quantum (rnd_pos x)" by (simp add: i quantum_bits)
  finally show ?thesis by (rule rnd_pos_fixed)
qed

lemma rnd_idem: "rnd (rnd x) = rnd x"
proof (cases "x < 0")
  case True
  then have "rnd x = - rnd_pos (- x)" "0 \<le> rnd_pos (- x)" by (simp_all add: rnd_def rnd_pos_nonneg)
  then show ?thesis using rnd_pos_idem [of "- x"] True
    by (cases "rnd_pos (- x) = 0") (auto simp: rnd_def)
next
  case False
  then show ?thesis using rnd_pos_idem [of x] rnd_pos_nonneg [of x] by (simp add: rnd_def not_less)
qed

lemma fl_idem: "fl x = Fin r \<Longrightarrow> fl r = Fin r"
  by (auto simp: fl_def Let_def rnd_idem split: if_splits)

text \<open>A float proper: the finite values are the rounded ones.\<close>

definition f64_ok :: "f64 \<Rightarrow> bool" where
  "f64_ok x \<longleftrightarrow> (case x of Fin r \<Rightarrow> fl r = Fin r | _ \<Rightarrow> True)"

lemma f64_ok_fl [simp]: "f64_ok (fl x)"
  using fl_idem by (cases "fl x") (auto simp: f64_ok_def)

lemma f64_ok_times [simp]: "f64_ok (x * y)"
  by (cases x; cases y) (auto simp: f64_ok_def fl_idem inf_sgn_def split: f64.split)

lemma f64_ok_minus: "f64_ok x \<Longrightarrow> f64_ok (- x)"
  by (cases x) (auto simp: f64_ok_def fl_minus)

lemma fl_range:
  assumes "fl a = Fin a" "fl b = Fin b" "a \<le> x" "x \<le> b"
  shows "\<exists>r. fl x = Fin r \<and> a \<le> r \<and> r \<le> b"
  using fl_mono [OF assms(3)] fl_mono [OF assms(4)] assms(1,2) by (cases "fl x") auto

lemma zero_plus_f64: "f64_ok x \<Longrightarrow> Fin 0 + x = x"
  by (cases x) (auto simp: f64_ok_def)

section \<open>Parsing: float(str)\<close>

text \<open>
  \<open>float(s)\<close> strips white space, takes a sign, then \<open>inf\<close>, \<open>infinity\<close>, \<open>nan\<close> in any case or a
  decimal literal with an optional fraction and exponent; anything else is a ValueError. The value
  is the correctly rounded exact decimal.
\<close>

definition signed :: "int \<Rightarrow> f64 \<Rightarrow> f64" where
  "signed sg x = (if sg < 0 then - x else x)"

definition pow10 :: "int \<Rightarrow> rat" where
  "pow10 e = (if 0 \<le> e then 10 ^ nat e else 1 / 10 ^ nat (- e))"

definition parse_exp :: "string \<Rightarrow> int option" where
  "parse_exp s = (case s of
       [] \<Rightarrow> Some 0
     | c # t \<Rightarrow>
         if lower_char c = CHR ''e'' then
           (case sign_of t of (sg, u) \<Rightarrow>
             (case scan 0 0 u of (v, n, r) \<Rightarrow> if 0 < n \<and> r = [] then Some (sg * int v) else None))
         else None)"

definition parse_decimal :: "string \<Rightarrow> rat option" where
  "parse_decimal s = (case scan 0 0 s of (v, n, r) \<Rightarrow>
     (case r of
        [] \<Rightarrow> if 0 < n then Some (of_nat v) else None
      | c # t \<Rightarrow>
          if c = CHR ''.'' then
            (case scan v 0 t of (v', m, r') \<Rightarrow>
               if 0 < n + m then map_option (\<lambda>e. of_nat v' * pow10 (e - int m)) (parse_exp r')
               else None)
          else if 0 < n then map_option (\<lambda>e. of_nat v * pow10 e) (parse_exp r) else None))"

definition py_float :: "string \<Rightarrow> f64 option" where
  "py_float s = (case sign_of (strip s) of (sg, t) \<Rightarrow>
     if lower t \<in> {''inf'', ''infinity''} then Some (signed sg PInf)
     else if lower t = ''nan'' then Some NaN
     else map_option (\<lambda>q. signed sg (fl q)) (parse_decimal t))"

lemma py_float_ok: "py_float s = Some x \<Longrightarrow> f64_ok x"
  by (auto simp: py_float_def signed_def f64_ok_minus split: prod.splits if_splits) (simp_all add: f64_ok_def)

lemmas text_defs = py_int_def py_float_def strip_def is_space_def sign_of_def lower_def
  lower_char_def parse_decimal_def parse_exp_def is_digit_def digit_val_def signed_def Let_def

end
