(* ===== verification/Event_Types.thy ===== *)
theory Event_Types
  imports Float64
begin

text \<open>
  The typed events of the bus (\<open>bot_service/bus/event_types.py\<close>): one record per dataclass, the
  union \<open>BusEvent\<close> as a datatype, and the parser that turns a raw Redis stream entry into an event.
  Every parser catches the KeyError, ValueError and IndexError its expressions raise and returns
  None with a WARN log line; a result is the event together with whether the warning was logged.
  The lemmas characterise acceptance field by field and the routing by key prefix.
\<close>

section \<open>Events\<close>

record bar_close =
  bc_exchange :: string
  bc_symbol :: string
  bc_tf :: string
  bc_ts :: int
  bc_open :: f64
  bc_high :: f64
  bc_low :: f64
  bc_close :: f64
  bc_volume :: f64
  bc_quote_volume :: f64
  bc_trade_count :: int
  bc_is_complete :: bool

record multi_bar_close =
  mb_tf :: string
  mb_ts :: int
  mb_closes :: "(string, bar_close) dict"

record gap_marker =
  gm_exchange :: string
  gm_symbol :: string
  gm_gap_cause :: string
  gm_ts :: int

record ob_snapshot =
  ob_exchange :: string
  ob_symbol :: string
  ob_ts :: int
  ob_best_bid :: f64
  ob_best_ask :: f64
  ob_mid_price :: f64

record tick =
  tk_exchange :: string
  tk_symbol :: string
  tk_ts :: int
  tk_price :: f64
  tk_size :: f64
  tk_side :: string

record funding_rate =
  fr_exchange :: string
  fr_symbol :: string
  fr_ts :: int
  fr_funding_rate :: f64
  fr_next_funding_ts :: int

record order_filled =
  of_order_id :: string
  of_exchange :: string
  of_symbol :: string
  of_side :: string
  of_fill_price :: f64
  of_fill_size :: f64
  of_fee :: f64
  of_ts_exchange :: int

record order_rejected =
  orj_order_id :: string
  orj_exchange :: string
  orj_symbol :: string
  orj_reason :: string
  orj_ts_exchange :: int

datatype bus_event =
    EBarClose bar_close
  | EGapMarker gap_marker
  | EOBSnapshot ob_snapshot
  | ETick tick
  | EFundingRate funding_rate
  | EOrderFilled order_filled
  | EOrderRejected order_rejected

section \<open>Parsing one stream entry\<close>

type_synonym entry = "(string, string) dict"

definition part :: "string list \<Rightarrow> nat \<Rightarrow> string res" where
  "part ps i = (if i < length ps then Inr (ps ! i) else Inl IndexError)"

definition fld :: "entry \<Rightarrow> string \<Rightarrow> string res" where
  "fld e k = of_option KeyError (map_of e k)"

definition fld_int :: "entry \<Rightarrow> string \<Rightarrow> int res" where
  "fld_int e k = rbind (fld e k) (\<lambda>s. of_option ValueError (py_int s))"

definition fld_float :: "entry \<Rightarrow> string \<Rightarrow> f64 res" where
  "fld_float e k = rbind (fld e k) (\<lambda>s. of_option ValueError (py_float s))"

text \<open>\<open>try: return ... except (KeyError, ValueError, IndexError): log.warning; return None\<close>\<close>

definition or_warn :: "'a res \<Rightarrow> 'a option \<times> bool" where
  "or_warn r = (case r of Inl _ \<Rightarrow> (None, True) | Inr x \<Rightarrow> (Some x, False))"

definition bar_key :: "string \<Rightarrow> (string \<times> string \<times> string) res" where
  "bar_key stream_key =
     (let parts = split_on (CHR '':'') stream_key in
      rbind (part parts 1) (\<lambda>p1.
        if p1 = ''close'' then
          rbind (part parts 2) (\<lambda>ex. rbind (part parts 3) (\<lambda>sy. rbind (part parts 4) (\<lambda>tf.
            Inr (ex, sy, tf))))
        else
          rbind (part parts 1) (\<lambda>ex. rbind (part parts 2) (\<lambda>sy. rbind (part parts 3) (\<lambda>tf.
            Inr (ex, sy, tf))))))"

definition bar_fields :: "string \<Rightarrow> string \<Rightarrow> string \<Rightarrow> entry \<Rightarrow> bar_close res" where
  "bar_fields ex sy tf e =
     rbind (fld_int e ''ts'') (\<lambda>ts.
     rbind (fld_float e ''open'') (\<lambda>op.
     rbind (fld_float e ''high'') (\<lambda>hi.
     rbind (fld_float e ''low'') (\<lambda>lo.
     rbind (fld_float e ''close'') (\<lambda>cl.
     rbind (fld_float e ''volume'') (\<lambda>vo.
     rbind (fld_float e ''quote_volume'') (\<lambda>qv.
     rbind (fld_int e ''trade_count'') (\<lambda>tc.
     rbind (fld e ''is_complete'') (\<lambda>ic.
       Inr \<lparr>bc_exchange = ex, bc_symbol = sy, bc_tf = tf, bc_ts = ts, bc_open = op, bc_high = hi,
            bc_low = lo, bc_close = cl, bc_volume = vo, bc_quote_volume = qv,
            bc_trade_count = tc, bc_is_complete = (lower ic = ''true'')\<rparr>)))))))))"

definition parse_bar_close :: "string \<Rightarrow> entry \<Rightarrow> bar_close option \<times> bool" where
  "parse_bar_close stream_key e =
     or_warn (rbind (bar_key stream_key) (\<lambda>(ex, sy, tf). bar_fields ex sy tf e))"

definition parse_tick_or_gap :: "string \<Rightarrow> entry \<Rightarrow> bus_event option \<times> bool" where
  "parse_tick_or_gap stream_key e =
     (let parts = split_on (CHR '':'') stream_key in
      case rbind (part parts 1) (\<lambda>ex. rbind (part parts 2) (\<lambda>sy. rbind (fld e ''type'') (\<lambda>ty.
             Inr (ex, sy, ty)))) of
        Inl _ \<Rightarrow> (None, True)
      | Inr (ex, sy, ty) \<Rightarrow>
          if ty = ''tick'' then
            or_warn
              (rbind (fld_int e ''ts'') (\<lambda>ts. rbind (fld_float e ''price'') (\<lambda>pr.
               rbind (fld_float e ''size'') (\<lambda>sz. rbind (fld e ''side'') (\<lambda>sd.
                 Inr (ETick \<lparr>tk_exchange = ex, tk_symbol = sy, tk_ts = ts, tk_price = pr,
                              tk_size = sz, tk_side = sd\<rparr>))))))
          else if ty = ''gap'' then
            or_warn
              (rbind (fld e ''gap_cause'') (\<lambda>gc. rbind (fld_int e ''ts'') (\<lambda>ts.
                 Inr (EGapMarker \<lparr>gm_exchange = ex, gm_symbol = sy, gm_gap_cause = gc,
                                   gm_ts = ts\<rparr>))))
          else (None, True))"

definition parse_ob_snapshot :: "string \<Rightarrow> entry \<Rightarrow> ob_snapshot option \<times> bool" where
  "parse_ob_snapshot stream_key e =
     (let parts = split_on (CHR '':'') stream_key in
      or_warn
        (rbind (part parts 1) (\<lambda>ex. rbind (part parts 2) (\<lambda>sy.
         rbind (fld_int e ''ts'') (\<lambda>ts. rbind (fld_float e ''best_bid'') (\<lambda>bb.
         rbind (fld_float e ''best_ask'') (\<lambda>ba. rbind (fld_float e ''mid_price'') (\<lambda>mp.
           Inr \<lparr>ob_exchange = ex, ob_symbol = sy, ob_ts = ts, ob_best_bid = bb,
                ob_best_ask = ba, ob_mid_price = mp\<rparr>))))))))"

definition parse_funding_rate :: "string \<Rightarrow> entry \<Rightarrow> funding_rate option \<times> bool" where
  "parse_funding_rate stream_key e =
     (let parts = split_on (CHR '':'') stream_key in
      or_warn
        (rbind (part parts 1) (\<lambda>ex. rbind (part parts 2) (\<lambda>sy.
         rbind (fld_int e ''ts'') (\<lambda>ts. rbind (fld_float e ''funding_rate'') (\<lambda>fr.
         rbind (fld_int e ''next_funding_ts'') (\<lambda>nx.
           Inr \<lparr>fr_exchange = ex, fr_symbol = sy, fr_ts = ts, fr_funding_rate = fr,
                fr_next_funding_ts = nx\<rparr>)))))))"

definition parse_stream_entry :: "string \<Rightarrow> entry \<Rightarrow> bus_event option \<times> bool" where
  "parse_stream_entry stream_key e =
     (if starts_with ''candles:'' stream_key then map_prod (map_option EBarClose) id (parse_bar_close stream_key e)
      else if starts_with ''ob_features:'' stream_key then
        map_prod (map_option EOBSnapshot) id (parse_ob_snapshot stream_key e)
      else if starts_with ''ticks:'' stream_key then parse_tick_or_gap stream_key e
      else if starts_with ''funding:'' stream_key then
        map_prod (map_option EFundingRate) id (parse_funding_rate stream_key e)
      else (None, False))"

section \<open>Lemmas\<close>

lemma or_warn_simps [simp]: "or_warn (Inl e) = (None, True)" "or_warn (Inr x) = (Some x, False)"
  by (simp_all add: or_warn_def)

lemma or_warn_iff: "or_warn r = (Some x, w) \<longleftrightarrow> \<not> w \<and> r = Inr x"
  by (cases r) auto

lemma or_warn_total: "snd (or_warn r) \<longleftrightarrow> fst (or_warn r) = None"
  by (cases r) auto

lemma fld_Inr_iff: "fld e k = Inr s \<longleftrightarrow> map_of e k = Some s"
  by (simp add: fld_def)

lemma fld_int_Inr_iff: "fld_int e k = Inr i \<longleftrightarrow> (\<exists>s. map_of e k = Some s \<and> py_int s = Some i)"
  by (auto simp: fld_int_def rbind_Inr_iff fld_Inr_iff)

lemma fld_float_Inr_iff: "fld_float e k = Inr x \<longleftrightarrow> (\<exists>s. map_of e k = Some s \<and> py_float s = Some x)"
  by (auto simp: fld_float_def rbind_Inr_iff fld_Inr_iff)

lemmas fld_iffs = fld_Inr_iff fld_int_Inr_iff fld_float_Inr_iff

lemma bar_fields_Inr_iff:
  "bar_fields ex sy tf e = Inr b \<longleftrightarrow>
     bc_exchange b = ex \<and> bc_symbol b = sy \<and> bc_tf b = tf \<and>
     fld_int e ''ts'' = Inr (bc_ts b) \<and> fld_float e ''open'' = Inr (bc_open b) \<and>
     fld_float e ''high'' = Inr (bc_high b) \<and> fld_float e ''low'' = Inr (bc_low b) \<and>
     fld_float e ''close'' = Inr (bc_close b) \<and> fld_float e ''volume'' = Inr (bc_volume b) \<and>
     fld_float e ''quote_volume'' = Inr (bc_quote_volume b) \<and>
     fld_int e ''trade_count'' = Inr (bc_trade_count b) \<and>
     (\<exists>s. fld e ''is_complete'' = Inr s \<and> bc_is_complete b = (lower s = ''true''))"
  by (cases b) (auto simp: bar_fields_def rbind_Inr_iff)

lemma parse_bar_close_iff:
  "parse_bar_close k e = (Some b, w) \<longleftrightarrow>
     \<not> w \<and> bar_key k = Inr (bc_exchange b, bc_symbol b, bc_tf b) \<and>
     bar_fields (bc_exchange b) (bc_symbol b) (bc_tf b) e = Inr b"
  by (auto simp: parse_bar_close_def or_warn_iff rbind_Inr_iff bar_fields_Inr_iff)

lemma parse_candles:
  "starts_with ''candles:'' k \<Longrightarrow>
     parse_stream_entry k e = (Some (EBarClose b), w) \<longleftrightarrow> parse_bar_close k e = (Some b, w)"
  by (cases "parse_bar_close k e") (auto simp: parse_stream_entry_def)

lemma parse_candles_bar:
  "starts_with ''candles:'' k \<Longrightarrow> parse_stream_entry k e = (Some ev, w) \<Longrightarrow> \<exists>b. ev = EBarClose b"
  by (auto simp: parse_stream_entry_def map_prod_def split: prod.splits)

lemma bar_key_close:
  assumes "CHR '':'' \<notin> set ex" "CHR '':'' \<notin> set sy" "CHR '':'' \<notin> set tf"
  shows "bar_key (''candles:close:'' @ ex @ '':'' @ sy @ '':'' @ tf) = Inr (ex, sy, tf)"
proof -
  have "split_on (CHR '':'') (''candles:close:'' @ ex @ '':'' @ sy @ '':'' @ tf) =
      [''candles'', ''close'', ex, sy, tf]"
    using split_on_append [OF assms(1), of "sy @ '':'' @ tf"]
      split_on_append [OF assms(2), of tf] split_on_plain [OF assms(3)] by simp
  then show ?thesis by (simp add: bar_key_def part_def Let_def)
qed

lemma bar_key_ob:
  assumes "CHR '':'' \<notin> set ex" "CHR '':'' \<notin> set sy"
  shows "bar_key (''candles:ob:'' @ ex @ '':'' @ sy) = Inr (''ob'', ex, sy)"
proof -
  have "split_on (CHR '':'') (''candles:ob:'' @ ex @ '':'' @ sy) = [''candles'', ''ob'', ex, sy]"
    using split_on_append [OF assms(1), of sy] split_on_plain [OF assms(2)] by simp
  then show ?thesis by (simp add: bar_key_def part_def Let_def)
qed

lemma parse_tick_or_gap_kind:
  "parse_tick_or_gap k e = (Some ev, w) \<Longrightarrow> (\<exists>t. ev = ETick t) \<or> (\<exists>g. ev = EGapMarker g)"
  by (auto simp: parse_tick_or_gap_def Let_def or_warn_iff rbind_Inr_iff
      split: sum.splits if_splits)

definition known_key :: "string \<Rightarrow> bool" where
  "known_key k \<longleftrightarrow> starts_with ''candles:'' k \<or> starts_with ''ob_features:'' k \<or>
     starts_with ''ticks:'' k \<or> starts_with ''funding:'' k"

lemma parse_tick_or_gap_warn: "snd (parse_tick_or_gap k e) \<longleftrightarrow> fst (parse_tick_or_gap k e) = None"
  by (auto simp: parse_tick_or_gap_def Let_def or_warn_total split: sum.splits)

lemma map_prod_warn: "snd (map_prod (map_option f) id p) \<longleftrightarrow> snd p"
  "fst (map_prod (map_option f) id p) = None \<longleftrightarrow> fst p = None"
  by (cases p; simp)+

text \<open>
  Malformed input never escapes the parser: an entry of a known stream gives an event exactly
  when no warning is logged, an entry of an unknown stream gives nothing and logs nothing, and the
  parser never fabricates the order events, which arrive on the private feeds only.
\<close>

theorem parse_stream_entry_total:
  "(known_key k \<longrightarrow> (snd (parse_stream_entry k e) \<longleftrightarrow> fst (parse_stream_entry k e) = None)) \<and>
   (\<not> known_key k \<longrightarrow> parse_stream_entry k e = (None, False)) \<and>
   (\<forall>f. fst (parse_stream_entry k e) \<noteq> Some (EOrderFilled f)) \<and>
   (\<forall>r. fst (parse_stream_entry k e) \<noteq> Some (EOrderRejected r))"
proof -
  have w: "snd (parse_bar_close k e) \<longleftrightarrow> fst (parse_bar_close k e) = None"
    "snd (parse_ob_snapshot k e) \<longleftrightarrow> fst (parse_ob_snapshot k e) = None"
    "snd (parse_funding_rate k e) \<longleftrightarrow> fst (parse_funding_rate k e) = None"
    by (simp_all add: parse_bar_close_def parse_ob_snapshot_def parse_funding_rate_def Let_def
        or_warn_total)
  have t: "fst (parse_tick_or_gap k e) \<noteq> Some (EOrderFilled f)"
    "fst (parse_tick_or_gap k e) \<noteq> Some (EOrderRejected r)" for f r
    using parse_tick_or_gap_kind [of k e _ "snd (parse_tick_or_gap k e)"]
    by (metis bus_event.distinct prod.collapse)+
  show ?thesis
    using w t parse_tick_or_gap_warn [of k e]
    by (auto simp: parse_stream_entry_def known_key_def map_prod_warn)
qed

theorem parse_stream_entry_total_witness:
  "parse_stream_entry ''ticks:bybit:BTCUSDT'' [(''type'', ''tick''), (''ts'', ''1'')] = (None, True) \<and>
   snd (parse_stream_entry ''ticks:bybit:BTCUSDT'' [(''type'', ''tick''), (''ts'', ''1'')]) \<and>
   parse_stream_entry ''gaps:log'' [] = (None, False)"
proof -
  have a: "parse_stream_entry ''ticks:bybit:BTCUSDT'' [(''type'', ''tick''), (''ts'', ''1'')] = (None, True)"
    by code_simp
  have k: "known_key ''ticks:bybit:BTCUSDT''" "\<not> known_key ''gaps:log''" by code_simp+
  show ?thesis
    using a k parse_stream_entry_total [of "''ticks:bybit:BTCUSDT''" "[(''type'', ''tick''), (''ts'', ''1'')]"]
      parse_stream_entry_total [of "''gaps:log''" "[]"] by simp
qed

text \<open>
  C24. The parser of closed bars is exact: for a \<open>candles:close:{exchange}:{symbol}:{tf}\<close> key whose
  parts hold no colon, a bar is produced if and only if every required field is present and denotes
  the value the bar carries, and the bar carries the key's exchange, symbol and timeframe.
\<close>

theorem parse_closed_bar_exact:
  assumes "CHR '':'' \<notin> set ex" "CHR '':'' \<notin> set sy" "CHR '':'' \<notin> set tf"
  shows "parse_stream_entry (''candles:close:'' @ ex @ '':'' @ sy @ '':'' @ tf) e = (Some (EBarClose b), w)
    \<longleftrightarrow> \<not> w \<and> bc_exchange b = ex \<and> bc_symbol b = sy \<and> bc_tf b = tf \<and>
        (\<exists>s. map_of e ''ts'' = Some s \<and> py_int s = Some (bc_ts b)) \<and>
        (\<exists>s. map_of e ''open'' = Some s \<and> py_float s = Some (bc_open b)) \<and>
        (\<exists>s. map_of e ''high'' = Some s \<and> py_float s = Some (bc_high b)) \<and>
        (\<exists>s. map_of e ''low'' = Some s \<and> py_float s = Some (bc_low b)) \<and>
        (\<exists>s. map_of e ''close'' = Some s \<and> py_float s = Some (bc_close b)) \<and>
        (\<exists>s. map_of e ''volume'' = Some s \<and> py_float s = Some (bc_volume b)) \<and>
        (\<exists>s. map_of e ''quote_volume'' = Some s \<and> py_float s = Some (bc_quote_volume b)) \<and>
        (\<exists>s. map_of e ''trade_count'' = Some s \<and> py_int s = Some (bc_trade_count b)) \<and>
        (\<exists>s. map_of e ''is_complete'' = Some s \<and> bc_is_complete b = (lower s = ''true''))"
proof -
  let ?k = "''candles:close:'' @ ex @ '':'' @ sy @ '':'' @ tf"
  have "starts_with ''candles:'' ?k" by (simp add: starts_with_def)
  note parse_candles [OF this, of e b w]
  then show ?thesis
    unfolding parse_bar_close_iff bar_key_close [OF assms] bar_fields_Inr_iff fld_iffs
    by auto
qed

theorem parse_closed_bar_exact_witness:
  "parse_stream_entry (''candles:close:'' @ ''bybit'' @ '':'' @ ''BTCUSDT'' @ '':'' @ ''1m'')
     [(''ts'', ''60000''), (''open'', ''1''), (''high'', ''2''), (''low'', ''1''), (''close'', ''2''),
      (''volume'', ''3''), (''quote_volume'', ''6''), (''trade_count'', ''4''),
      (''is_complete'', ''True'')] =
   (Some (EBarClose \<lparr>bc_exchange = ''bybit'', bc_symbol = ''BTCUSDT'', bc_tf = ''1m'', bc_ts = 60000,
      bc_open = Fin 1, bc_high = Fin 2, bc_low = Fin 1, bc_close = Fin 2, bc_volume = Fin 3,
      bc_quote_volume = Fin 6, bc_trade_count = 4, bc_is_complete = True\<rparr>), False)"
proof -
  have p: "py_int ''60000'' = Some 60000" "py_int ''4'' = Some 4" by (simp_all add: text_defs)
  have q: "py_float ''1'' = Some (Fin 1)" "py_float ''2'' = Some (Fin 2)"
    "py_float ''3'' = Some (Fin 3)" "py_float ''6'' = Some (Fin 6)" by (simp_all add: text_defs)
  have l: "lower ''True'' = ''true''" by code_simp
  show ?thesis by (subst parse_closed_bar_exact) (simp_all add: p q l)
qed

text \<open>
  Order-book candle streams are misread: the registry subscribes every strategy to
  \<open>candles:ob:{exchange}:{symbol}\<close>, and the parser, which only singles out the part \<open>close\<close>, takes
  \<open>ob\<close> for the exchange, the exchange for the symbol and the symbol for the timeframe.
\<close>

theorem ob_candle_key_misparsed:
  assumes "CHR '':'' \<notin> set ex" "CHR '':'' \<notin> set sy"
    and "parse_stream_entry (''candles:ob:'' @ ex @ '':'' @ sy) e = (Some ev, w)"
  shows "\<exists>b. ev = EBarClose b \<and> bc_exchange b = ''ob'' \<and> bc_symbol b = ex \<and> bc_tf b = sy"
proof -
  let ?k = "''candles:ob:'' @ ex @ '':'' @ sy"
  have s: "starts_with ''candles:'' ?k" by (simp add: starts_with_def)
  from parse_candles_bar [OF this assms(3)] obtain b where b: "ev = EBarClose b" by blast
  with assms(3) parse_candles [OF s] have "parse_bar_close ?k e = (Some b, w)" by blast
  with b show ?thesis
    using bar_key_ob [OF assms(1,2)] by (auto simp: parse_bar_close_iff)
qed

theorem ob_candle_key_misparsed_witness:
  "\<exists>b. fst (parse_stream_entry (''candles:ob:'' @ ''kucoin'' @ '':'' @ ''BTC-USDT'')
     [(''ts'', ''60000''), (''open'', ''1''), (''high'', ''2''), (''low'', ''1''), (''close'', ''2''),
      (''volume'', ''3''), (''quote_volume'', ''6''), (''trade_count'', ''4''),
      (''is_complete'', ''true'')]) = Some (EBarClose b) \<and> bc_exchange b = ''ob'' \<and> bc_symbol b = ''kucoin''"
proof -
  let ?k = "''candles:ob:'' @ ''kucoin'' @ '':'' @ ''BTC-USDT''"
  let ?e = "[(''ts'', ''60000''), (''open'', ''1''), (''high'', ''2''), (''low'', ''1''), (''close'', ''2''),
      (''volume'', ''3''), (''quote_volume'', ''6''), (''trade_count'', ''4''),
      (''is_complete'', ''true'')] :: entry"
  have "fst (parse_stream_entry ?k ?e) \<noteq> None"
    by (simp add: parse_stream_entry_def starts_with_def parse_bar_close_def bar_key_def part_def
        bar_fields_def fld_def fld_int_def fld_float_def text_defs)
  then obtain ev w where e: "parse_stream_entry ?k ?e = (Some ev, w)"
    by (cases "parse_stream_entry ?k ?e") auto
  have c: "CHR '':'' \<notin> set ''kucoin''" "CHR '':'' \<notin> set ''BTC-USDT''" by simp_all
  show ?thesis using ob_candle_key_misparsed [OF c e] e by auto
qed

end
