(* ===== verification/Metrics.thy ===== *)
theory Metrics
  imports Float64
begin

text \<open>
  The metrics module (\<open>bot_service/metrics/prometheus.py\<close>): metric objects created on first use in
  one private registry, and the bookkeeping of the label combinations of the per-strategy gauges,
  which \<open>reset_strategy_gauges\<close> needs. The client library itself is not modelled: the module's
  calls on it are kept as a trace, in order, and a gauge's value is the last one set
  on its labels. A set of labels is kept as a list; nothing depends on its order.
\<close>

section \<open>State and the calls on the client library\<close>

datatype lib_call =
    NewRegistry
  | NewMetric string "string list"
  | Inc string "string list"
  | SetGauge string "string list" f64
  | Observe string "string list" f64

record metrics =
  registry_made :: bool
  made :: "string list"
  pos_pnl_symbols :: "(string, string list) dict"
  gauge_strategies :: "string list"
  lib_calls :: "lib_call list"

definition metrics0 :: metrics where
  "metrics0 = \<lparr>registry_made = False, made = [], pos_pnl_symbols = [], gauge_strategies = [],
               lib_calls = []\<rparr>"

definition call :: "lib_call \<Rightarrow> metrics \<Rightarrow> metrics" where
  "call c m = m\<lparr>lib_calls := lib_calls m @ [c]\<rparr>"

definition add_set :: "'a \<Rightarrow> 'a list \<Rightarrow> 'a list" where
  "add_set x xs = (if x \<in> set xs then xs else xs @ [x])"

definition get_registry :: "metrics \<Rightarrow> metrics" where
  "get_registry m = (if registry_made m then m else call NewRegistry (m\<lparr>registry_made := True\<rparr>))"

definition ensure :: "string \<Rightarrow> string list \<Rightarrow> metrics \<Rightarrow> metrics" where
  "ensure name labelnames m =
     (let m1 = get_registry m in
      if name \<in> set (made m1) then m1
      else call (NewMetric name labelnames) (m1\<lparr>made := made m1 @ [name]\<rparr>))"

section \<open>The helpers\<close>

definition inc_queue_drop :: "string \<Rightarrow> metrics \<Rightarrow> metrics" where
  "inc_queue_drop s m =
     call (Inc ''bot_queue_drop_total'' [s]) (ensure ''bot_queue_drop_total'' [''strategy''] m)"

definition inc_barrier_timeout :: "string \<Rightarrow> metrics \<Rightarrow> metrics" where
  "inc_barrier_timeout tf m =
     call (Inc ''bot_barrier_timeout_total'' [tf]) (ensure ''bot_barrier_timeout_total'' [''tf''] m)"

definition inc_barrier_late_event :: "string \<Rightarrow> string \<Rightarrow> metrics \<Rightarrow> metrics" where
  "inc_barrier_late_event s y m =
     call (Inc ''bot_barrier_late_event_total'' [s, y])
       (ensure ''bot_barrier_late_event_total'' [''strategy'', ''symbol''] m)"

definition inc_nan_guard :: "string \<Rightarrow> string \<Rightarrow> metrics \<Rightarrow> metrics" where
  "inc_nan_guard s y m =
     call (Inc ''bot_nan_guard_total'' [s, y])
       (ensure ''bot_nan_guard_total'' [''strategy'', ''symbol''] m)"

definition set_coldstart_gap_fraction ::
  "string \<Rightarrow> string \<Rightarrow> string \<Rightarrow> f64 \<Rightarrow> metrics \<Rightarrow> metrics" where
  "set_coldstart_gap_fraction s y tf v m =
     call (SetGauge ''bot_coldstart_gap_fraction'' [s, y, tf] v)
       (ensure ''bot_coldstart_gap_fraction'' [''strategy'', ''symbol'', ''tf''] m)"

definition set_ws_fallback_active :: "string \<Rightarrow> bool \<Rightarrow> metrics \<Rightarrow> metrics" where
  "set_ws_fallback_active ex active m =
     call (SetGauge ''bot_ws_fallback_active'' [ex] (if active then Fin 1 else Fin 0))
       (ensure ''bot_ws_fallback_active'' [''exchange''] m)"

definition inc_fill_dedup :: "string \<Rightarrow> metrics \<Rightarrow> metrics" where
  "inc_fill_dedup ex m =
     call (Inc ''bot_fill_dedup_total'' [ex]) (ensure ''bot_fill_dedup_total'' [''exchange''] m)"

definition inc_order_queue_dedup :: "string \<Rightarrow> string \<Rightarrow> metrics \<Rightarrow> metrics" where
  "inc_order_queue_dedup s y m =
     call (Inc ''bot_order_queue_dedup_total'' [s, y])
       (ensure ''bot_order_queue_dedup_total'' [''strategy'', ''symbol''] m)"

definition inc_risk_gate_block :: "string \<Rightarrow> string \<Rightarrow> metrics \<Rightarrow> metrics" where
  "inc_risk_gate_block s y m =
     call (Inc ''bot_risk_gate_block_total'' [s, y])
       (ensure ''bot_risk_gate_block_total'' [''strategy'', ''symbol''] m)"

definition inc_orphaned_order :: "string \<Rightarrow> metrics \<Rightarrow> metrics" where
  "inc_orphaned_order ex m =
     call (Inc ''bot_orphaned_order_total'' [ex])
       (ensure ''bot_orphaned_order_total'' [''exchange''] m)"

definition inc_strategy_restart :: "string \<Rightarrow> metrics \<Rightarrow> metrics" where
  "inc_strategy_restart s m =
     call (Inc ''bot_strategy_restart_total'' [s])
       (ensure ''bot_strategy_restart_total'' [''strategy''] m)"

definition set_strategy_backoff_seconds :: "string \<Rightarrow> f64 \<Rightarrow> metrics \<Rightarrow> metrics" where
  "set_strategy_backoff_seconds s v m =
     call (SetGauge ''bot_strategy_backoff_seconds'' [s] v)
       (ensure ''bot_strategy_backoff_seconds'' [''strategy''] m)"

definition inc_heartbeat_timeout :: "string \<Rightarrow> metrics \<Rightarrow> metrics" where
  "inc_heartbeat_timeout s m =
     call (Inc ''bot_heartbeat_timeout_total'' [s])
       (ensure ''bot_heartbeat_timeout_total'' [''strategy''] m)"

definition inc_strategy_load_failure :: "string \<Rightarrow> string \<Rightarrow> metrics \<Rightarrow> metrics" where
  "inc_strategy_load_failure filename reason m =
     call (Inc ''bot_strategy_load_failure_total'' [filename, reason])
       (ensure ''bot_strategy_load_failure_total'' [''filename'', ''reason''] m)"

definition track_symbol :: "string \<Rightarrow> string \<Rightarrow> metrics \<Rightarrow> metrics" where
  "track_symbol s y m =
     m\<lparr>pos_pnl_symbols := dset s (add_set y (dget (pos_pnl_symbols m) s [])) (pos_pnl_symbols m)\<rparr>"

definition track_strategy :: "string \<Rightarrow> metrics \<Rightarrow> metrics" where
  "track_strategy s m = m\<lparr>gauge_strategies := add_set s (gauge_strategies m)\<rparr>"

definition set_position_size :: "string \<Rightarrow> string \<Rightarrow> f64 \<Rightarrow> metrics \<Rightarrow> metrics" where
  "set_position_size s y v m =
     call (SetGauge ''bot_position_size'' [s, y] v)
       (track_symbol s y (ensure ''bot_position_size'' [''strategy'', ''symbol''] m))"

definition set_unrealized_pnl :: "string \<Rightarrow> string \<Rightarrow> f64 \<Rightarrow> metrics \<Rightarrow> metrics" where
  "set_unrealized_pnl s y v m =
     call (SetGauge ''bot_unrealized_pnl'' [s, y] v)
       (track_symbol s y (ensure ''bot_unrealized_pnl'' [''strategy'', ''symbol''] m))"

definition set_drawdown :: "string \<Rightarrow> f64 \<Rightarrow> metrics \<Rightarrow> metrics" where
  "set_drawdown s v m =
     call (SetGauge ''bot_drawdown'' [s] v)
       (track_strategy s (ensure ''bot_drawdown'' [''strategy''] m))"

definition set_consumer_lag :: "string \<Rightarrow> f64 \<Rightarrow> metrics \<Rightarrow> metrics" where
  "set_consumer_lag s v m =
     call (SetGauge ''bot_consumer_lag'' [s] v)
       (track_strategy s (ensure ''bot_consumer_lag'' [''strategy''] m))"

definition inc_order_placed :: "string \<Rightarrow> string \<Rightarrow> string \<Rightarrow> string \<Rightarrow> metrics \<Rightarrow> metrics" where
  "inc_order_placed s ex y sd m =
     call (Inc ''bot_order_placed_total'' [s, ex, y, sd])
       (ensure ''bot_order_placed_total'' [''strategy'', ''exchange'', ''symbol'', ''side''] m)"

definition inc_order_filled :: "string \<Rightarrow> string \<Rightarrow> string \<Rightarrow> string \<Rightarrow> metrics \<Rightarrow> metrics" where
  "inc_order_filled s ex y sd m =
     call (Inc ''bot_order_filled_total'' [s, ex, y, sd])
       (ensure ''bot_order_filled_total'' [''strategy'', ''exchange'', ''symbol'', ''side''] m)"

definition inc_order_rejected :: "string \<Rightarrow> string \<Rightarrow> string \<Rightarrow> metrics \<Rightarrow> metrics" where
  "inc_order_rejected s ex y m =
     call (Inc ''bot_order_rejected_total'' [s, ex, y])
       (ensure ''bot_order_rejected_total'' [''strategy'', ''exchange'', ''symbol''] m)"

definition observe_order_execution_latency_ms :: "string \<Rightarrow> string \<Rightarrow> f64 \<Rightarrow> metrics \<Rightarrow> metrics" where
  "observe_order_execution_latency_ms s ex v m =
     call (Observe ''bot_order_execution_latency_ms'' [s, ex] v)
       (ensure ''bot_order_execution_latency_ms'' [''strategy'', ''exchange''] m)"

definition reset_pair :: "string \<Rightarrow> string list \<Rightarrow> string \<Rightarrow> metrics \<Rightarrow> metrics" where
  "reset_pair s ys name m =
     (if name \<in> set (made m) then fold (\<lambda>y. call (SetGauge name [s, y] (Fin 0))) ys m else m)"

definition reset_single :: "string \<Rightarrow> string \<Rightarrow> metrics \<Rightarrow> metrics" where
  "reset_single s name m = (if name \<in> set (made m) then call (SetGauge name [s] (Fin 0)) m else m)"

definition reset_strategy_gauges :: "string \<Rightarrow> metrics \<Rightarrow> metrics" where
  "reset_strategy_gauges s m =
     (let symbols = dget (pos_pnl_symbols m) s [];
          m1 = fold (reset_pair s symbols) [''bot_position_size'', ''bot_unrealized_pnl''] m
      in if s \<in> set (gauge_strategies m)
         then fold (reset_single s) [''bot_drawdown'', ''bot_consumer_lag''] m1 else m1)"

section \<open>The interface the other components call\<close>

datatype mcall =
    IncQueueDrop string | IncBarrierTimeout string | IncBarrierLate string string
  | IncNanGuard string string | SetColdstartGap string string string f64
  | SetWsFallback string bool | IncFillDedup string | IncOrderQueueDedup string string
  | IncRiskGateBlock string string | IncOrphanedOrder string | IncStrategyRestart string
  | SetStrategyBackoff string f64 | ResetStrategyGauges string | IncHeartbeatTimeout string
  | IncStrategyLoadFailure string string | SetPositionSize string string f64
  | SetUnrealizedPnl string string f64 | SetDrawdown string f64 | SetConsumerLag string f64
  | IncOrderPlaced string string string string | IncOrderFilled string string string string
  | IncOrderRejected string string string | ObserveLatency string string f64

fun api :: "mcall \<Rightarrow> metrics \<Rightarrow> metrics" where
  "api (IncQueueDrop s) = inc_queue_drop s"
| "api (IncBarrierTimeout tf) = inc_barrier_timeout tf"
| "api (IncBarrierLate s y) = inc_barrier_late_event s y"
| "api (IncNanGuard s y) = inc_nan_guard s y"
| "api (SetColdstartGap s y tf v) = set_coldstart_gap_fraction s y tf v"
| "api (SetWsFallback ex b) = set_ws_fallback_active ex b"
| "api (IncFillDedup ex) = inc_fill_dedup ex"
| "api (IncOrderQueueDedup s y) = inc_order_queue_dedup s y"
| "api (IncRiskGateBlock s y) = inc_risk_gate_block s y"
| "api (IncOrphanedOrder ex) = inc_orphaned_order ex"
| "api (IncStrategyRestart s) = inc_strategy_restart s"
| "api (SetStrategyBackoff s v) = set_strategy_backoff_seconds s v"
| "api (ResetStrategyGauges s) = reset_strategy_gauges s"
| "api (IncHeartbeatTimeout s) = inc_heartbeat_timeout s"
| "api (IncStrategyLoadFailure f r) = inc_strategy_load_failure f r"
| "api (SetPositionSize s y v) = set_position_size s y v"
| "api (SetUnrealizedPnl s y v) = set_unrealized_pnl s y v"
| "api (SetDrawdown s v) = set_drawdown s v"
| "api (SetConsumerLag s v) = set_consumer_lag s v"
| "api (IncOrderPlaced s ex y sd) = inc_order_placed s ex y sd"
| "api (IncOrderFilled s ex y sd) = inc_order_filled s ex y sd"
| "api (IncOrderRejected s ex y) = inc_order_rejected s ex y"
| "api (ObserveLatency s ex v) = observe_order_execution_latency_ms s ex v"

lemmas metric_defs = inc_queue_drop_def inc_barrier_timeout_def inc_barrier_late_event_def
  inc_nan_guard_def set_coldstart_gap_fraction_def set_ws_fallback_active_def inc_fill_dedup_def
  inc_order_queue_dedup_def inc_risk_gate_block_def inc_orphaned_order_def
  inc_strategy_restart_def set_strategy_backoff_seconds_def inc_heartbeat_timeout_def
  inc_strategy_load_failure_def set_position_size_def set_unrealized_pnl_def set_drawdown_def
  set_consumer_lag_def inc_order_placed_def inc_order_filled_def inc_order_rejected_def
  observe_order_execution_latency_ms_def

section \<open>The rules of the client library, replayed over the trace\<close>

text \<open>
  The documented rules the trace must keep: one registry is made and comes first, a name is
  registered once, and a series is reached through a registered metric with as many label values as
  the metric has label names.
\<close>

definition arities :: "(string, nat) dict" where
  "arities =
    [(''bot_queue_drop_total'', 1), (''bot_barrier_timeout_total'', 1),
     (''bot_barrier_late_event_total'', 2), (''bot_nan_guard_total'', 2),
     (''bot_coldstart_gap_fraction'', 3), (''bot_ws_fallback_active'', 1),
     (''bot_fill_dedup_total'', 1), (''bot_order_queue_dedup_total'', 2),
     (''bot_risk_gate_block_total'', 2), (''bot_orphaned_order_total'', 1),
     (''bot_strategy_restart_total'', 1), (''bot_strategy_backoff_seconds'', 1),
     (''bot_heartbeat_timeout_total'', 1), (''bot_strategy_load_failure_total'', 2),
     (''bot_position_size'', 2), (''bot_unrealized_pnl'', 2), (''bot_drawdown'', 1),
     (''bot_consumer_lag'', 1), (''bot_order_placed_total'', 4), (''bot_order_filled_total'', 4),
     (''bot_order_rejected_total'', 3), (''bot_order_execution_latency_ms'', 2)]"

fun lib_step :: "lib_call \<Rightarrow> (bool \<times> (string, nat) dict) option \<Rightarrow> (bool \<times> (string, nat) dict) option" where
  "lib_step _ None = None"
| "lib_step NewRegistry (Some (r, a)) = (if r then None else Some (True, a))"
| "lib_step (NewMetric n ls) (Some (r, a)) =
     (if r \<and> map_of a n = None then Some (r, (n, length ls) # a) else None)"
| "lib_step (Inc n ls) (Some (r, a)) = (if map_of a n = Some (length ls) then Some (r, a) else None)"
| "lib_step (SetGauge n ls v) (Some (r, a)) =
     (if map_of a n = Some (length ls) then Some (r, a) else None)"
| "lib_step (Observe n ls v) (Some (r, a)) =
     (if map_of a n = Some (length ls) then Some (r, a) else None)"

definition lib_run :: "lib_call list \<Rightarrow> (bool \<times> (string, nat) dict) option" where
  "lib_run cs = fold lib_step cs (Some (False, []))"

definition last_set :: "string \<Rightarrow> string list \<Rightarrow> lib_call list \<Rightarrow> f64 option" where
  "last_set n l cs =
     fold (\<lambda>c acc. case c of SetGauge n' l' v \<Rightarrow> if n' = n \<and> l' = l then Some v else acc | _ \<Rightarrow> acc) cs None"

lemma lib_run_snoc [simp]: "lib_run (cs @ [c]) = lib_step c (lib_run cs)"
  by (simp add: lib_run_def)

lemma lib_run_Nil [simp]: "lib_run [] = Some (False, [])"
  by (simp add: lib_run_def)

lemma last_set_Nil [simp]: "last_set n l [] = None"
  by (simp add: last_set_def)

lemma last_set_snoc [simp]:
  "last_set n l (cs @ [c]) =
     (case c of SetGauge n' l' v \<Rightarrow> if n' = n \<and> l' = l then Some v else last_set n l cs
      | _ \<Rightarrow> last_set n l cs)"
  by (cases c) (simp_all add: last_set_def)

section \<open>The module's invariant\<close>

definition pair_gauges :: "string list" where
  "pair_gauges = [''bot_position_size'', ''bot_unrealized_pnl'']"

definition single_gauges :: "string list" where
  "single_gauges = [''bot_drawdown'', ''bot_consumer_lag'']"

definition tracked :: "metrics \<Rightarrow> string \<Rightarrow> string list \<Rightarrow> bool" where
  "tracked m n l \<longleftrightarrow>
     (n \<in> set pair_gauges \<longrightarrow> (\<exists>s y. l = [s, y] \<and> y \<in> set (dget (pos_pnl_symbols m) s []))) \<and>
     (n \<in> set single_gauges \<longrightarrow> (\<exists>s. l = [s] \<and> s \<in> set (gauge_strategies m)))"

definition metrics_inv :: "metrics \<Rightarrow> bool" where
  "metrics_inv m \<longleftrightarrow>
     (\<exists>a. lib_run (lib_calls m) = Some (registry_made m, a) \<and>
          (\<forall>n. map_of a n = (if n \<in> set (made m) then map_of arities n else None)) \<and>
          set (made m) \<subseteq> set (dkeys arities)) \<and>
     (\<forall>n l. last_set n l (lib_calls m) \<noteq> None \<longrightarrow> n \<in> set (made m) \<and> tracked m n l)"

lemma metrics_inv0: "metrics_inv metrics0"
  by (simp add: metrics_inv_def metrics0_def)

lemma metrics_inv_registry: "metrics_inv m \<Longrightarrow> metrics_inv (get_registry m)"
  by (auto simp: metrics_inv_def get_registry_def call_def tracked_def)

lemma made_get_registry [simp]: "made (get_registry m) = made m" "registry_made (get_registry m)"
  by (simp_all add: get_registry_def call_def)

lemma map_of_dkeys: "map_of d k = Some v \<Longrightarrow> k \<in> set (dkeys d)"
  by (auto simp: set_dkeys)

lemma metrics_inv_ensure:
  assumes "metrics_inv m" "map_of arities n = Some (length ls)"
  shows "metrics_inv (ensure n ls m)" and "n \<in> set (made (ensure n ls m))"
proof -
  show "n \<in> set (made (ensure n ls m))" by (simp add: ensure_def call_def Let_def)
  have i: "metrics_inv (get_registry m)" by (rule metrics_inv_registry [OF assms(1)])
  show "metrics_inv (ensure n ls m)"
  proof (cases "n \<in> set (made m)")
    case True
    then show ?thesis using i by (simp add: ensure_def Let_def)
  next
    case False
    from i obtain a where a: "lib_run (lib_calls (get_registry m)) = Some (True, a)"
      "\<forall>n. map_of a n = (if n \<in> set (made m) then map_of arities n else None)"
      "set (made m) \<subseteq> set (dkeys arities)" by (auto simp: metrics_inv_def)
    moreover have "\<forall>n l. last_set n l (lib_calls (get_registry m)) \<noteq> None \<longrightarrow>
        n \<in> set (made m) \<and> tracked (get_registry m) n l"
      using i by (auto simp: metrics_inv_def)
    ultimately show ?thesis using False assms(2) map_of_dkeys [OF assms(2)]
      by (auto simp: ensure_def Let_def call_def metrics_inv_def tracked_def)
  qed
qed

lemma metrics_inv_inc:
  "metrics_inv m \<Longrightarrow> n \<in> set (made m) \<Longrightarrow> map_of arities n = Some (length l) \<Longrightarrow>
     metrics_inv (call (Inc n l) m)"
  "metrics_inv m \<Longrightarrow> n \<in> set (made m) \<Longrightarrow> map_of arities n = Some (length l) \<Longrightarrow>
     metrics_inv (call (Observe n l v) m)"
  by (auto simp: metrics_inv_def call_def tracked_def)

lemma metrics_inv_set:
  "metrics_inv m \<Longrightarrow> n \<in> set (made m) \<Longrightarrow> map_of arities n = Some (length l) \<Longrightarrow> tracked m n l \<Longrightarrow>
     metrics_inv (call (SetGauge n l v) m)"
  by (auto simp: metrics_inv_def call_def tracked_def split: if_splits)

lemma set_add_set [simp]: "set (add_set x xs) = insert x (set xs)"
  by (auto simp: add_set_def)

lemma tracked_mono:
  "tracked m n l \<Longrightarrow> tracked (track_symbol s y m) n l"
  "tracked m n l \<Longrightarrow> tracked (track_strategy s m) n l"
  by (auto simp: tracked_def track_symbol_def track_strategy_def dget_dset)

lemma metrics_inv_track:
  "metrics_inv m \<Longrightarrow> metrics_inv (track_symbol s y m)"
  "metrics_inv m \<Longrightarrow> metrics_inv (track_strategy s m)"
  using tracked_mono unfolding metrics_inv_def
  by (auto simp: track_symbol_def track_strategy_def)

lemma made_track [simp]:
  "made (track_symbol s y m) = made m" "made (track_strategy s m) = made m"
  by (simp_all add: track_symbol_def track_strategy_def)

lemma tracked_new:
  "n \<in> set pair_gauges \<Longrightarrow> tracked (track_symbol s y m) n [s, y]"
  "n \<in> set single_gauges \<Longrightarrow> tracked (track_strategy s m) n [s]"
  "n \<notin> set pair_gauges \<Longrightarrow> n \<notin> set single_gauges \<Longrightarrow> tracked m n l"
  by (auto simp: tracked_def track_symbol_def track_strategy_def dget_dset pair_gauges_def
      single_gauges_def)

lemma metrics_inv_reset: "metrics_inv m \<Longrightarrow> metrics_inv (reset_strategy_gauges s m)"
proof -
  assume i: "metrics_inv m"
  let ?ys = "dget (pos_pnl_symbols m) s []"
  have keep: "P m1 \<Longrightarrow> (\<And>y m1. P m1 \<Longrightarrow> y \<in> set ?ys \<Longrightarrow> P (call (SetGauge n [s, y] (Fin 0)) m1)) \<Longrightarrow>
      P (reset_pair s ?ys n m1)" for P n m1
    by (auto simp: reset_pair_def intro!: fold_invariant [where P = P])
  let ?P = "\<lambda>m1. metrics_inv m1 \<and> pos_pnl_symbols m1 = pos_pnl_symbols m \<and>
    gauge_strategies m1 = gauge_strategies m \<and> made m1 = made m"
  have step: "?P (reset_pair s ?ys n m1)" if "?P m1" "n \<in> set pair_gauges" for n m1
  proof (cases "n \<in> set (made m)")
    case True
    have "map_of arities n = Some 2" using that(2) by (auto simp: pair_gauges_def arities_def)
    moreover have "n \<notin> set single_gauges"
      using that(2) by (auto simp: pair_gauges_def single_gauges_def)
    ultimately have "?P (call (SetGauge n [s, y] (Fin 0)) m2)" if "?P m2" "y \<in> set ?ys" for y m2
      using that True metrics_inv_set [of m2 n "[s, y]" "Fin 0"] by (simp add: call_def tracked_def)
    with that(1) show ?thesis by (intro keep [where P = ?P]) auto
  next
    case False
    then show ?thesis using that by (simp add: reset_pair_def)
  qed
  have p: "?P (fold (reset_pair s ?ys) pair_gauges m)"
    by (rule fold_invariant [where P = ?P]) (use i step in auto)
  have single: "?P (reset_single s n m1)"
    if "?P m1" "n \<in> set single_gauges" "s \<in> set (gauge_strategies m)" for n m1
  proof -
    have "map_of arities n = Some 1" using that(2) by (auto simp: single_gauges_def arities_def)
    moreover have "n \<notin> set pair_gauges"
      using that(2) by (auto simp: pair_gauges_def single_gauges_def)
    ultimately show ?thesis
      using that by (auto simp: reset_single_def tracked_def call_def
          intro!: metrics_inv_set [unfolded call_def])
  qed
  have "s \<in> set (gauge_strategies m) \<Longrightarrow>
      ?P (fold (reset_single s) single_gauges (fold (reset_pair s ?ys) pair_gauges m))"
    by (rule fold_invariant [where P = ?P]) (use p single in auto)
  then show ?thesis
    using p by (simp add: reset_strategy_gauges_def Let_def pair_gauges_def single_gauges_def)
qed

lemma metrics_inv_calls:
  assumes "metrics_inv m" "map_of arities n = Some (length ls)" "length l = length ls"
  shows "metrics_inv (call (Inc n l) (ensure n ls m))" "metrics_inv (call (Observe n l v) (ensure n ls m))"
  using assms by (auto intro!: metrics_inv_inc metrics_inv_ensure)

lemma metrics_inv_sets:
  assumes "metrics_inv m" "map_of arities n = Some (length ls)"
  shows "length l = length ls \<Longrightarrow> n \<notin> set pair_gauges \<Longrightarrow> n \<notin> set single_gauges \<Longrightarrow>
      metrics_inv (call (SetGauge n l v) (ensure n ls m))"
    "length ls = 2 \<Longrightarrow> n \<in> set pair_gauges \<Longrightarrow>
      metrics_inv (call (SetGauge n [s, y] v) (track_symbol s y (ensure n ls m)))"
    "length ls = 1 \<Longrightarrow> n \<in> set single_gauges \<Longrightarrow>
      metrics_inv (call (SetGauge n [s] v) (track_strategy s (ensure n ls m)))"
proof -
  note e = metrics_inv_ensure [OF assms]
  show "metrics_inv (call (SetGauge n l v) (ensure n ls m))"
    if "length l = length ls" "n \<notin> set pair_gauges" "n \<notin> set single_gauges"
    using that e assms(2) tracked_new(3) by (intro metrics_inv_set) auto
  show "metrics_inv (call (SetGauge n [s, y] v) (track_symbol s y (ensure n ls m)))"
    if "length ls = 2" "n \<in> set pair_gauges"
    using that e assms(2) tracked_new(1) by (intro metrics_inv_set metrics_inv_track) auto
  show "metrics_inv (call (SetGauge n [s] v) (track_strategy s (ensure n ls m)))"
    if "length ls = 1" "n \<in> set single_gauges"
    using that e assms(2) tracked_new(2) by (intro metrics_inv_set metrics_inv_track) auto
qed

lemma metrics_inv_api: "metrics_inv m \<Longrightarrow> metrics_inv (api c m)"
proof -
  assume m: "metrics_inv m"
  note calls = metrics_inv_calls [OF m] metrics_inv_sets [OF m]
  show ?thesis
    by (cases c; simp only: api.simps metric_defs)
       (rule calls metrics_inv_reset; simp add: m arities_def pair_gauges_def single_gauges_def)+
qed

definition run_api :: "mcall list \<Rightarrow> metrics" where
  "run_api cs = fold api cs metrics0"

lemma metrics_inv_run: "metrics_inv (run_api cs)"
  unfolding run_api_def by (rule fold_invariant) (auto simp: metrics_inv0 metrics_inv_api)

section \<open>Properties\<close>

text \<open>
  The metrics module uses the client library by its rules: whatever calls the service makes, in
  whatever order, one registry is made before any metric, no metric name is registered twice (the
  library raises on a duplicate), and every series is reached through a registered metric with the
  number of labels it was registered with.
\<close>

theorem metrics_library_rules: "lib_run (lib_calls (fold api cs metrics0)) \<noteq> None"
  using metrics_inv_run [of cs] by (auto simp: metrics_inv_def run_api_def)

lemma last_set_fold_pair:
  "last_set n l (lib_calls (fold (\<lambda>y. call (SetGauge n' [s, y] (Fin 0))) ys m)) =
     (if n = n' \<and> (\<exists>y\<in>set ys. l = [s, y]) then Some (Fin 0) else last_set n l (lib_calls m))"
  by (induction ys arbitrary: m) (auto simp: call_def)

lemma last_set_reset_pair:
  "last_set n l (lib_calls (reset_pair s ys n' m)) =
     (if n = n' \<and> n' \<in> set (made m) \<and> (\<exists>y\<in>set ys. l = [s, y]) then Some (Fin 0)
      else last_set n l (lib_calls m))"
  by (auto simp: reset_pair_def last_set_fold_pair)

lemma last_set_reset_single:
  "last_set n l (lib_calls (reset_single s n' m)) =
     (if n = n' \<and> n' \<in> set (made m) \<and> l = [s] then Some (Fin 0) else last_set n l (lib_calls m))"
  by (auto simp: reset_single_def call_def)

lemma made_fold_pair: "made (fold (\<lambda>y. call (SetGauge n [s, y] (Fin 0))) ys m) = made m"
  by (rule fold_unchanged) (simp add: call_def)

lemma made_reset [simp]:
  "made (reset_pair s ys n m) = made m" "made (reset_single s n m) = made m"
  by (simp_all add: reset_pair_def reset_single_def made_fold_pair) (simp_all add: call_def)

lemma gauge_strategies_reset_pair [simp]:
  "gauge_strategies (reset_pair s ys n m) = gauge_strategies m"
  by (auto simp: reset_pair_def intro!: fold_unchanged) (simp add: call_def)

lemma last_set_reset:
  "last_set n l (lib_calls (reset_strategy_gauges s m)) =
     (if n \<in> set (made m) \<and>
         (n \<in> set pair_gauges \<and> (\<exists>y\<in>set (dget (pos_pnl_symbols m) s []). l = [s, y]) \<or>
          n \<in> set single_gauges \<and> l = [s] \<and> s \<in> set (gauge_strategies m))
      then Some (Fin 0) else last_set n l (lib_calls m))"
  by (auto simp: reset_strategy_gauges_def Let_def last_set_reset_pair last_set_reset_single
      pair_gauges_def single_gauges_def)

text \<open>
  \<open>reset_strategy_gauges\<close> clears exactly the crashed strategy: after any history of calls, each
  series of the four per-strategy gauges that carries the strategy's label and was ever set reads
  0, and every other series keeps its value.
\<close>

theorem reset_strategy_gauges_exact:
  fixes cs s n l
  defines "m \<equiv> fold api cs metrics0"
  defines "mine \<equiv> n \<in> set [''bot_position_size'', ''bot_unrealized_pnl'', ''bot_drawdown'',
                           ''bot_consumer_lag''] \<and> hd l = s"
  shows "(mine \<and> last_set n l (lib_calls m) \<noteq> None \<longrightarrow>
            last_set n l (lib_calls (reset_strategy_gauges s m)) = Some (Fin 0)) \<and>
         (\<not> mine \<longrightarrow>
            last_set n l (lib_calls (reset_strategy_gauges s m)) = last_set n l (lib_calls m))"
proof -
  have "metrics_inv m" unfolding m_def using metrics_inv_run [of cs] by (simp add: run_api_def)
  then have t: "last_set n l (lib_calls m) \<noteq> None \<Longrightarrow> n \<in> set (made m) \<and> tracked m n l"
    by (simp add: metrics_inv_def)
  have mine: "mine \<longleftrightarrow> (n \<in> set pair_gauges \<or> n \<in> set single_gauges) \<and> hd l = s"
    by (auto simp: mine_def pair_gauges_def single_gauges_def)
  show ?thesis
  proof (intro conjI impI)
    assume h: "mine \<and> last_set n l (lib_calls m) \<noteq> None"
    with t mine show "last_set n l (lib_calls (reset_strategy_gauges s m)) = Some (Fin 0)"
      unfolding last_set_reset tracked_def by auto
  next
    assume "\<not> mine"
    with mine show "last_set n l (lib_calls (reset_strategy_gauges s m)) = last_set n l (lib_calls m)"
      unfolding last_set_reset by auto
  qed
qed

theorem reset_strategy_gauges_exact_witness:
  "last_set ''bot_position_size'' [''ma'', ''BTCUSDT'']
     (lib_calls (reset_strategy_gauges ''ma''
        (fold api [SetPositionSize ''ma'' ''BTCUSDT'' (Fin 3), SetDrawdown ''ofi'' (Fin (1/2))] metrics0)))
     = Some (Fin 0) \<and>
   last_set ''bot_drawdown'' [''ofi'']
     (lib_calls (reset_strategy_gauges ''ma''
        (fold api [SetPositionSize ''ma'' ''BTCUSDT'' (Fin 3), SetDrawdown ''ofi'' (Fin (1/2))] metrics0)))
     = Some (Fin (1/2))"
proof -
  let ?cs = "[SetPositionSize ''ma'' ''BTCUSDT'' (Fin 3), SetDrawdown ''ofi'' (Fin (1/2))]"
  have a: "last_set ''bot_position_size'' [''ma'', ''BTCUSDT''] (lib_calls (fold api ?cs metrics0)) \<noteq> None"
    "last_set ''bot_drawdown'' [''ofi''] (lib_calls (fold api ?cs metrics0)) = Some (Fin (1/2))"
    by (simp_all add: metric_defs ensure_def get_registry_def call_def Let_def metrics0_def
        track_symbol_def track_strategy_def last_set_def)
  show ?thesis
    using a reset_strategy_gauges_exact [of "''bot_position_size''" "[''ma'', ''BTCUSDT'']" "''ma''" ?cs]
      reset_strategy_gauges_exact [of "''bot_drawdown''" "[''ofi'']" "''ma''" ?cs]
    by simp
qed

end
