(* ===== verification/Barrier_M.thy ===== *)
theory Barrier_M
  imports Event_Types Metrics
begin

text \<open>
  The multi-symbol barrier (\<open>bot_service/barrier.py\<close>): per timeframe it collects one closed bar per
  symbol and bucket and emits a \<open>MultiBarClose\<close> when all symbols have arrived, or, when the first arrival
  is older than the timeout, a partial one followed by a gap marker per missing symbol. The frozen
  set of symbols is a list without duplicates; the metrics calls of a feed are part of its result.
\<close>

section \<open>State\<close>

definition tf_ms_table :: "(string, int) dict" where
  "tf_ms_table =
    [(''1s'', 1000), (''1m'', 60000), (''5m'', 300000), (''15m'', 900000), (''1h'', 3600000),
     (''4h'', 14400000), (''1d'', 86400000), (''1w'', 604800000)]"

record barrier =
  br_symbols :: "string list"
  br_tf :: string
  br_tf_ms :: int
  br_timeout_ms :: int
  br_strategy :: string
  br_pending :: "(int, (string, bar_close) dict) dict"
  br_first_arrival :: "(int, int) dict"
  br_fired :: "int set"

datatype barrier_event = BMulti multi_bar_close | BGap gap_marker

section \<open>Operations\<close>

definition barrier_init :: "string list \<Rightarrow> string \<Rightarrow> int \<Rightarrow> string \<Rightarrow> barrier res" where
  "barrier_init symbols tf timeout_ms strategy =
     (case map_of tf_ms_table tf of
        None \<Rightarrow> Inl ValueError
      | Some ms \<Rightarrow>
          if symbols = [] then Inl ValueError
          else Inr \<lparr>br_symbols = symbols, br_tf = tf, br_tf_ms = ms, br_timeout_ms = timeout_ms,
                    br_strategy = strategy, br_pending = [], br_first_arrival = [], br_fired = {}\<rparr>)"

definition barrier_gap :: "string \<Rightarrow> int \<Rightarrow> gap_marker" where
  "barrier_gap y ts =
     \<lparr>gm_exchange = [], gm_symbol = y, gm_gap_cause = ''barrier_timeout'', gm_ts = ts\<rparr>"

definition fire_bucket :: "int \<Rightarrow> bool \<Rightarrow> barrier \<Rightarrow> barrier \<times> barrier_event list" where
  "fire_bucket bucket_ts timed_out b =
     (let closes = dget (br_pending b) bucket_ts [];
          cutoff = bucket_ts - 2 * br_timeout_ms b;
          b' = b\<lparr>br_pending := dpop bucket_ts (br_pending b),
                br_first_arrival := dpop bucket_ts (br_first_arrival b),
                br_fired := insert bucket_ts {ts \<in> br_fired b. ts \<ge> cutoff}\<rparr>;
          out = BMulti \<lparr>mb_tf = br_tf b, mb_ts = bucket_ts, mb_closes = closes\<rparr>
      in (b', out #
            (if timed_out
             then map (\<lambda>y. BGap (barrier_gap y bucket_ts))
                    (sort (filter (\<lambda>y. y \<notin> set (dkeys closes)) (br_symbols b)))
             else [])))"

definition expired_buckets :: "int \<Rightarrow> barrier \<Rightarrow> int list" where
  "expired_buckets now_ms b =
     sort (map fst (filter (\<lambda>(ts, first_ms). now_ms - first_ms \<ge> br_timeout_ms b) (br_first_arrival b)))"

definition flush_step ::
  "int \<Rightarrow> barrier \<times> barrier_event list \<times> mcall list \<Rightarrow> barrier \<times> barrier_event list \<times> mcall list" where
  "flush_step ts s =
     (case s of (b, results, mc) \<Rightarrow>
        case fire_bucket ts True b of (b', out) \<Rightarrow>
          (b', results @ out, mc @ [IncBarrierTimeout (br_tf b)]))"

definition flush_expired :: "int \<Rightarrow> barrier \<Rightarrow> barrier \<times> barrier_event list \<times> mcall list" where
  "flush_expired now_ms b = fold flush_step (expired_buckets now_ms b) (b, [], [])"

definition bucket_of :: "barrier \<Rightarrow> bar_close \<Rightarrow> int" where
  "bucket_of b bar = bc_ts bar div br_tf_ms b * br_tf_ms b"

definition accept_bar :: "bar_close \<Rightarrow> int \<Rightarrow> barrier \<Rightarrow> barrier" where
  "accept_bar bar now_ms b =
     (let t = bucket_of b bar;
          b1 = (if t \<in> set (dkeys (br_pending b)) then b
                else b\<lparr>br_pending := dset t [] (br_pending b),
                       br_first_arrival := dset t now_ms (br_first_arrival b)\<rparr>)
      in b1\<lparr>br_pending := dset t (dset (bc_symbol bar) bar (dget (br_pending b1) t [])) (br_pending b1)\<rparr>)"

definition bucket_complete :: "int \<Rightarrow> barrier \<Rightarrow> bool" where
  "bucket_complete t b \<longleftrightarrow> set (br_symbols b) \<subseteq> set (dkeys (dget (br_pending b) t []))"

definition barrier_feed ::
  "bar_close \<Rightarrow> int \<Rightarrow> barrier \<Rightarrow> barrier \<times> barrier_event list \<times> mcall list" where
  "barrier_feed bar now_ms b =
     (case flush_expired now_ms b of (b1, results, mc) \<Rightarrow>
        let t = bucket_of b1 bar in
        if t \<in> br_fired b1 then
          (b1, results, mc @ [IncBarrierLate (br_strategy b1) (bc_symbol bar)])
        else
          let b2 = accept_bar bar now_ms b1 in
          if bucket_complete t b2 then
            case fire_bucket t False b2 of (b3, out) \<Rightarrow> (b3, results @ out, mc)
          else (b2, results, mc))"

text \<open>A history of feeds: the bars in arrival order with the clock at each arrival.\<close>

fun feeds :: "(bar_close \<times> int) list \<Rightarrow> barrier \<Rightarrow> barrier \<times> barrier_event list" where
  "feeds [] b = (b, [])"
| "feeds ((bar, now) # hs) b =
     (case barrier_feed bar now b of (b1, out, mc) \<Rightarrow>
        case feeds hs b1 of (b2, out') \<Rightarrow> (b2, out @ out'))"

section \<open>The invariant\<close>

definition bucket_ok :: "barrier \<Rightarrow> int \<Rightarrow> (string, bar_close) dict \<Rightarrow> bool" where
  "bucket_ok b t closes \<longleftrightarrow>
     t mod br_tf_ms b = 0 \<and>
     (\<forall>y bar. map_of closes y = Some bar \<longrightarrow> bc_symbol bar = y \<and> bucket_of b bar = t)"

definition barrier_ok :: "barrier \<Rightarrow> bool" where
  "barrier_ok b \<longleftrightarrow>
     map_of tf_ms_table (br_tf b) = Some (br_tf_ms b) \<and> br_symbols b \<noteq> [] \<and>
     dinv (br_pending b) \<and> dinv (br_first_arrival b) \<and>
     set (dkeys (br_first_arrival b)) = set (dkeys (br_pending b)) \<and>
     br_fired b \<inter> set (dkeys (br_pending b)) = {} \<and>
     (\<forall>t\<in>br_fired b. t mod br_tf_ms b = 0) \<and> finite (br_fired b) \<and>
     (\<forall>t closes. map_of (br_pending b) t = Some closes \<longrightarrow> bucket_ok b t closes \<and>
        \<not> set (br_symbols b) \<subseteq> set (dkeys closes))"

lemma tf_ms_pos: "map_of tf_ms_table tf = Some ms \<Longrightarrow> 1000 \<le> ms"
  by (auto simp: tf_ms_table_def split: if_splits)

lemma fire_bucket_fields [simp]:
  "br_symbols (fst (fire_bucket t d b)) = br_symbols b" "br_tf (fst (fire_bucket t d b)) = br_tf b"
  "br_tf_ms (fst (fire_bucket t d b)) = br_tf_ms b"
  "br_timeout_ms (fst (fire_bucket t d b)) = br_timeout_ms b"
  "br_strategy (fst (fire_bucket t d b)) = br_strategy b"
  "br_pending (fst (fire_bucket t d b)) = dpop t (br_pending b)"
  "br_first_arrival (fst (fire_bucket t d b)) = dpop t (br_first_arrival b)"
  "br_fired (fst (fire_bucket t d b)) = insert t {s \<in> br_fired b. t - 2 * br_timeout_ms b \<le> s}"
  by (simp_all add: fire_bucket_def Let_def)

definition emission :: "barrier \<Rightarrow> bool \<Rightarrow> int \<Rightarrow> barrier_event list" where
  "emission b timed_out t = snd (fire_bucket t timed_out b)"

lemma bucket_of_fire [simp]: "bucket_of (fst (fire_bucket t d b)) bar = bucket_of b bar"
  by (simp add: bucket_of_def)

lemma bucket_ok_cong: "br_tf_ms b' = br_tf_ms b \<Longrightarrow> bucket_ok b' t cl = bucket_ok b t cl"
  by (simp add: bucket_ok_def bucket_of_def)

text \<open>Firing keeps the invariant; the bucket fired may be complete, the others are not.\<close>

definition barrier_ok_but :: "int \<Rightarrow> barrier \<Rightarrow> bool" where
  "barrier_ok_but u b \<longleftrightarrow>
     map_of tf_ms_table (br_tf b) = Some (br_tf_ms b) \<and> br_symbols b \<noteq> [] \<and>
     dinv (br_pending b) \<and> dinv (br_first_arrival b) \<and>
     set (dkeys (br_first_arrival b)) = set (dkeys (br_pending b)) \<and>
     br_fired b \<inter> set (dkeys (br_pending b)) = {} \<and> u mod br_tf_ms b = 0 \<and>
     (\<forall>t\<in>br_fired b. t mod br_tf_ms b = 0) \<and> finite (br_fired b) \<and>
     (\<forall>t closes. map_of (br_pending b) t = Some closes \<longrightarrow> bucket_ok b t closes \<and>
        (t \<noteq> u \<longrightarrow> \<not> set (br_symbols b) \<subseteq> set (dkeys closes)))"

lemma barrier_ok_imp_but: "barrier_ok b \<Longrightarrow> u mod br_tf_ms b = 0 \<Longrightarrow> barrier_ok_but u b"
  unfolding barrier_ok_def barrier_ok_but_def by blast

lemma fire_bucket_ok:
  assumes "barrier_ok_but t b"
  shows "barrier_ok (fst (fire_bucket t d b))"
proof -
  have "bucket_ok (fst (fire_bucket t d b)) u cl = bucket_ok b u cl" for u cl
    by (rule bucket_ok_cong) simp
  with assms show ?thesis unfolding barrier_ok_def barrier_ok_but_def
    by (auto split: if_splits)
qed

lemma fire_pending_ok:
  "barrier_ok b \<Longrightarrow> t \<in> set (dkeys (br_first_arrival b)) \<Longrightarrow> barrier_ok (fst (fire_bucket t d b))"
  by (rule fire_bucket_ok, rule barrier_ok_imp_but)
     (auto simp: barrier_ok_def set_dkeys bucket_ok_def)

section \<open>Flushing in closed form\<close>

lemma emission_other:
  "u \<noteq> t \<Longrightarrow> emission (fst (fire_bucket u d b)) d' t = emission b d' t"
  unfolding emission_def by (simp add: fire_bucket_def Let_def dget_dpop)

lemma fold_flush:
  assumes "distinct ts"
  shows "fold flush_step ts (b, out, mc) =
     (fold (\<lambda>t b. fst (fire_bucket t True b)) ts b,
      out @ concat (map (emission b True) ts),
      mc @ replicate (length ts) (IncBarrierTimeout (br_tf b)))"
  using assms
proof (induction ts arbitrary: b out mc)
  case (Cons t ts)
  have e: "map (emission (fst (fire_bucket t True b)) True) ts = map (emission b True) ts"
    using Cons.prems by (auto intro!: emission_other)
  have "flush_step t (b, out, mc) =
      (fst (fire_bucket t True b), out @ emission b True t, mc @ [IncBarrierTimeout (br_tf b)])"
    by (simp add: flush_step_def emission_def split: prod.split)
  moreover have "distinct ts" using Cons.prems by simp
  ultimately show ?case
    by (simp add: Cons.IH e)
qed simp

lemma distinct_expired: "barrier_ok b \<Longrightarrow> distinct (expired_buckets now b)"
proof -
  assume "barrier_ok b"
  then have "distinct (map fst (br_first_arrival b))" by (simp add: barrier_ok_def dinv_def)
  then show ?thesis by (simp add: expired_buckets_def distinct_map_filter)
qed

definition flushed :: "int \<Rightarrow> barrier \<Rightarrow> barrier" where
  "flushed now b = fold (\<lambda>t b. fst (fire_bucket t True b)) (expired_buckets now b) b"

lemma flush_expired_eq:
  "barrier_ok b \<Longrightarrow> flush_expired now b =
     (flushed now b, concat (map (emission b True) (expired_buckets now b)),
      replicate (length (expired_buckets now b)) (IncBarrierTimeout (br_tf b)))"
  by (simp add: flush_expired_def flushed_def fold_flush distinct_expired)

lemma set_expired:
  "barrier_ok b \<Longrightarrow> set (expired_buckets now b) =
     {t. \<exists>first. map_of (br_first_arrival b) t = Some first \<and> now - first \<ge> br_timeout_ms b}"
  by (auto simp: expired_buckets_def barrier_ok_def dinv_def image_iff)

lemma fold_fire:
  "distinct ts \<Longrightarrow> set ts \<subseteq> set (dkeys (br_first_arrival b)) \<Longrightarrow> barrier_ok b \<Longrightarrow>
   barrier_ok (fold (\<lambda>t b. fst (fire_bucket t d b)) ts b) \<and>
   br_symbols (fold (\<lambda>t b. fst (fire_bucket t d b)) ts b) = br_symbols b \<and>
   br_tf (fold (\<lambda>t b. fst (fire_bucket t d b)) ts b) = br_tf b \<and>
   br_tf_ms (fold (\<lambda>t b. fst (fire_bucket t d b)) ts b) = br_tf_ms b \<and>
   br_timeout_ms (fold (\<lambda>t b. fst (fire_bucket t d b)) ts b) = br_timeout_ms b \<and>
   br_strategy (fold (\<lambda>t b. fst (fire_bucket t d b)) ts b) = br_strategy b \<and>
   br_pending (fold (\<lambda>t b. fst (fire_bucket t d b)) ts b) = fold dpop ts (br_pending b) \<and>
   br_first_arrival (fold (\<lambda>t b. fst (fire_bucket t d b)) ts b) = fold dpop ts (br_first_arrival b)"
proof (induction ts arbitrary: b)
  case (Cons t ts)
  have "barrier_ok (fst (fire_bucket t d b))"
    using Cons.prems by (intro fire_pending_ok) auto
  moreover have "set ts \<subseteq> set (dkeys (br_first_arrival (fst (fire_bucket t d b))))"
    using Cons.prems by auto
  ultimately show ?case using Cons.IH [of "fst (fire_bucket t d b)"] Cons.prems by simp
qed simp

lemma expired_keys:
  "barrier_ok b \<Longrightarrow> set (expired_buckets now b) \<subseteq> set (dkeys (br_first_arrival b))"
  by (auto simp: set_expired set_dkeys)

lemma flushed_facts:
  "barrier_ok b \<Longrightarrow>
   barrier_ok (flushed now b) \<and> br_symbols (flushed now b) = br_symbols b \<and>
   br_tf (flushed now b) = br_tf b \<and> br_tf_ms (flushed now b) = br_tf_ms b \<and>
   br_timeout_ms (flushed now b) = br_timeout_ms b \<and>
   br_strategy (flushed now b) = br_strategy b \<and>
   br_pending (flushed now b) = fold dpop (expired_buckets now b) (br_pending b) \<and>
   br_first_arrival (flushed now b) = fold dpop (expired_buckets now b) (br_first_arrival b)"
  unfolding flushed_def by (rule fold_fire [OF distinct_expired expired_keys])

lemma flushed_ok: "barrier_ok b \<Longrightarrow> barrier_ok (flushed now b)"
  using flushed_facts by blast

lemma flushed_fields [simp]:
  assumes "barrier_ok b"
  shows "br_symbols (flushed now b) = br_symbols b" "br_tf (flushed now b) = br_tf b"
    "br_tf_ms (flushed now b) = br_tf_ms b" "br_timeout_ms (flushed now b) = br_timeout_ms b"
    "br_strategy (flushed now b) = br_strategy b"
  using flushed_facts [OF assms] by simp_all

lemma map_of_fold_dpop:
  "map_of (fold dpop ks d) k = (if k \<in> set ks then None else map_of d k)"
  by (rule pydict.lookup_fold_delete)

lemma flushed_pending:
  "barrier_ok b \<Longrightarrow> map_of (br_pending (flushed now b)) t =
     (if t \<in> set (expired_buckets now b) then None else map_of (br_pending b) t)"
  "barrier_ok b \<Longrightarrow> map_of (br_first_arrival (flushed now b)) t =
     (if t \<in> set (expired_buckets now b) then None else map_of (br_first_arrival b) t)"
  by (simp_all add: flushed_facts map_of_fold_dpop)

section \<open>Accepting a bar\<close>

lemma accept_bar_fields [simp]:
  "br_symbols (accept_bar bar now b) = br_symbols b" "br_tf (accept_bar bar now b) = br_tf b"
  "br_tf_ms (accept_bar bar now b) = br_tf_ms b"
  "br_timeout_ms (accept_bar bar now b) = br_timeout_ms b"
  "br_strategy (accept_bar bar now b) = br_strategy b" "br_fired (accept_bar bar now b) = br_fired b"
  by (simp_all add: accept_bar_def Let_def)

lemma accept_bar_pending:
  "map_of (br_pending (accept_bar bar now b)) t =
     (if t = bucket_of b bar
      then Some (dset (bc_symbol bar) bar (dget (br_pending b) t []))
      else map_of (br_pending b) t)"
  by (auto simp: accept_bar_def Let_def dget_def set_dkeys dom_def)

lemma accept_bar_first:
  "set (dkeys (br_first_arrival b)) = set (dkeys (br_pending b)) \<Longrightarrow>
   map_of (br_first_arrival (accept_bar bar now b)) t =
     (if t = bucket_of b bar \<and> map_of (br_pending b) t = None then Some now
      else map_of (br_first_arrival b) t)"
  by (auto simp: accept_bar_def Let_def set_dkeys dom_def)

lemma dinv_accept:
  "dinv (br_pending b) \<Longrightarrow> dinv (br_pending (accept_bar bar now b))"
  "dinv (br_first_arrival b) \<Longrightarrow> dinv (br_first_arrival (accept_bar bar now b))"
  by (simp_all add: accept_bar_def Let_def)

lemma keys_accept:
  "set (dkeys (br_pending (accept_bar bar now b))) = insert (bucket_of b bar) (set (dkeys (br_pending b)))"
  "set (dkeys (br_first_arrival b)) = set (dkeys (br_pending b)) \<Longrightarrow>
   set (dkeys (br_first_arrival (accept_bar bar now b))) =
     insert (bucket_of b bar) (set (dkeys (br_pending b)))"
  by (auto simp: accept_bar_def Let_def)

lemma bucket_mod: "bucket_of b bar mod br_tf_ms b = 0"
  by (simp add: bucket_of_def)

lemma bucket_ok_dset:
  assumes "bucket_ok b u cl" "bucket_of b bar = u"
  shows "bucket_ok b u (dset (bc_symbol bar) bar cl)"
  using assms unfolding bucket_ok_def map_of_dset fun_upd_apply by (metis option.inject)

lemma accept_bar_ok:
  assumes "barrier_ok b" "bucket_of b bar \<notin> br_fired b"
  shows "barrier_ok_but (bucket_of b bar) (accept_bar bar now b)"
proof -
  let ?b = "accept_bar bar now b" and ?u = "bucket_of b bar"
  note ok = assms(1) [unfolded barrier_ok_def]
  have c: "bucket_ok ?b t cl = bucket_ok b t cl" for t cl by (rule bucket_ok_cong) simp
  have "bucket_ok b t cl \<and> (t \<noteq> ?u \<longrightarrow> \<not> set (br_symbols b) \<subseteq> set (dkeys cl))"
    if "map_of (br_pending ?b) t = Some cl" for t cl
  proof (cases "t = ?u")
    case False
    with that ok show ?thesis by (simp add: accept_bar_pending)
  next
    case True
    have "bucket_ok b ?u (dget (br_pending b) ?u [])"
      using ok by (cases "map_of (br_pending b) ?u") (simp_all add: dget_def bucket_ok_def bucket_mod)
    then have "bucket_ok b ?u (dset (bc_symbol bar) bar (dget (br_pending b) ?u []))"
      by (rule bucket_ok_dset) simp
    moreover from True that have "cl = dset (bc_symbol bar) bar (dget (br_pending b) ?u [])"
      by (simp add: accept_bar_pending)
    ultimately show ?thesis using True by simp
  qed
  with ok assms(2) show ?thesis
    unfolding barrier_ok_but_def by (auto simp: c dinv_accept keys_accept bucket_mod)
qed

lemma accept_incomplete_ok:
  assumes "barrier_ok_but u b" "\<not> bucket_complete u b" "map_of (br_pending b) u \<noteq> None"
  shows "barrier_ok b"
proof -
  note but = assms(1) [unfolded barrier_ok_but_def]
  have "bucket_ok b t cl \<and> \<not> set (br_symbols b) \<subseteq> set (dkeys cl)"
    if "map_of (br_pending b) t = Some cl" for t cl
    using that but assms(2) by (cases "t = u") (auto simp: bucket_complete_def dget_def)
  with but show ?thesis unfolding barrier_ok_def by blast
qed

section \<open>A feed in closed form\<close>

definition feed_case :: "bar_close \<Rightarrow> int \<Rightarrow> barrier \<Rightarrow> barrier \<times> barrier_event list \<times> mcall list" where
  "feed_case bar now b1 =
     (let t = bucket_of b1 bar; b2 = accept_bar bar now b1 in
      if t \<in> br_fired b1 then (b1, [], [IncBarrierLate (br_strategy b1) (bc_symbol bar)])
      else if bucket_complete t b2 then (fst (fire_bucket t False b2), emission b2 False t, [])
      else (b2, [], []))"

lemma barrier_feed_eq:
  assumes "barrier_ok b"
  shows "barrier_feed bar now b =
     (case feed_case bar now (flushed now b) of (b', out, mc) \<Rightarrow>
        (b', concat (map (emission b True) (expired_buckets now b)) @ out,
         replicate (length (expired_buckets now b)) (IncBarrierTimeout (br_tf b)) @ mc))"
  unfolding barrier_feed_def flush_expired_eq [OF assms] feed_case_def Let_def
  by (simp add: emission_def split: prod.splits)

lemma feed_case_ok: "barrier_ok b1 \<Longrightarrow> barrier_ok (fst (feed_case bar now b1))"
  unfolding feed_case_def Let_def
  by (auto intro!: fire_bucket_ok accept_bar_ok accept_incomplete_ok [OF accept_bar_ok]
      simp: accept_bar_pending)

lemma barrier_feed_ok: "barrier_ok b \<Longrightarrow> barrier_ok (fst (barrier_feed bar now b))"
  using feed_case_ok [OF flushed_ok] by (simp add: barrier_feed_eq split: prod.splits) (metis fst_conv)

lemma barrier_init_ok: "barrier_init ys tf timeout st = Inr b \<Longrightarrow> barrier_ok b"
  by (auto simp: barrier_init_def barrier_ok_def split: option.splits if_splits)

lemma feeds_ok: "barrier_ok b \<Longrightarrow> barrier_ok (fst (feeds hs b))"
proof (induction hs arbitrary: b)
  case (Cons h hs)
  then show ?case using barrier_feed_ok [of b "fst h" "snd h"]
    by (cases h) (simp split: prod.splits, metis fst_conv)
qed simp

lemma emission_eq:
  "emission b d t = BMulti \<lparr>mb_tf = br_tf b, mb_ts = t, mb_closes = dget (br_pending b) t []\<rparr> #
     (if d then map (\<lambda>y. BGap (barrier_gap y t))
        (sort (filter (\<lambda>y. y \<notin> set (dkeys (dget (br_pending b) t []))) (br_symbols b))) else [])"
  by (simp add: emission_def fire_bucket_def Let_def)

lemma feed_result:
  "barrier_ok b \<Longrightarrow> barrier_feed bar now b = (b', out, mc) \<Longrightarrow>
     b' = fst (feed_case bar now (flushed now b)) \<and>
     out = concat (map (emission b True) (expired_buckets now b)) @
           fst (snd (feed_case bar now (flushed now b))) \<and>
     mc = replicate (length (expired_buckets now b)) (IncBarrierTimeout (br_tf b)) @
          snd (snd (feed_case bar now (flushed now b)))"
  by (auto simp: barrier_feed_eq split: prod.splits)

lemma feed_case_out:
  "ev \<in> set (fst (snd (feed_case bar now b1))) \<longleftrightarrow>
     bucket_of b1 bar \<notin> br_fired b1 \<and> bucket_complete (bucket_of b1 bar) (accept_bar bar now b1) \<and>
     ev = BMulti \<lparr>mb_tf = br_tf b1, mb_ts = bucket_of b1 bar,
                 mb_closes = dset (bc_symbol bar) bar (dget (br_pending b1) (bucket_of b1 bar) [])\<rparr>"
  by (auto simp: feed_case_def Let_def emission_eq dget_def accept_bar_pending)

lemma bucket_of_flushed [simp]: "barrier_ok b \<Longrightarrow> bucket_of (flushed now b) bar = bucket_of b bar"
  by (simp add: bucket_of_def)

lemma expired_pending:
  "barrier_ok b \<Longrightarrow> t \<in> set (expired_buckets now b) \<Longrightarrow> \<exists>cl. map_of (br_pending b) t = Some cl"
  using expired_keys [of b now] by (auto simp: barrier_ok_def set_dkeys)

text \<open>A barrier that is fed with bars of its own symbols only.\<close>

definition own_bars :: "barrier \<Rightarrow> bool" where
  "own_bars b \<longleftrightarrow>
     (\<forall>t cl. map_of (br_pending b) t = Some cl \<longrightarrow>
        cl \<noteq> [] \<and> set (dkeys cl) \<subseteq> set (br_symbols b))"

lemma own_bars_flushed: "barrier_ok b \<Longrightarrow> own_bars b \<Longrightarrow> own_bars (flushed now b)"
  by (auto simp: own_bars_def flushed_pending split: if_splits)

lemma dset_nonempty [simp]: "dset k v d \<noteq> []"
  by (cases "(k, v, d)" rule: dset.cases) auto

lemma own_bars_accept:
  assumes "own_bars b" "bc_symbol bar \<in> set (br_symbols b)"
  shows "own_bars (accept_bar bar now b)"
proof -
  have "set (dkeys (dget (br_pending b) t [])) \<subseteq> set (br_symbols b)" for t
    using assms(1) by (cases "map_of (br_pending b) t") (auto simp: dget_def own_bars_def)
  with assms show ?thesis
    by (simp add: own_bars_def accept_bar_pending)
qed

lemma own_bars_fire: "own_bars b \<Longrightarrow> own_bars (fst (fire_bucket t d b))"
  by (auto simp: own_bars_def split: if_splits)

lemma own_bars_feed:
  assumes "barrier_ok b" "own_bars b" "bc_symbol bar \<in> set (br_symbols b)"
  shows "own_bars (fst (barrier_feed bar now b))"
proof -
  have "own_bars (fst (feed_case bar now (flushed now b)))"
    using own_bars_flushed [OF assms(1,2), of now] assms
    by (simp add: feed_case_def Let_def own_bars_accept own_bars_fire)
  then show ?thesis using feed_result [OF assms(1)] by (metis prod.collapse)
qed

lemma feed_case_fields [simp]:
  "br_symbols (fst (feed_case bar now b)) = br_symbols b"
  "br_timeout_ms (fst (feed_case bar now b)) = br_timeout_ms b"
  by (simp_all add: feed_case_def Let_def)

lemma feed_symbols: "barrier_ok b \<Longrightarrow> br_symbols (fst (barrier_feed bar now b)) = br_symbols b"
  using feed_result [of b bar now] by (cases "barrier_feed bar now b") simp

lemma own_bars_feeds:
  "barrier_ok b \<Longrightarrow> own_bars b \<Longrightarrow> \<forall>(bar, now)\<in>set hs. bc_symbol bar \<in> set (br_symbols b) \<Longrightarrow>
     own_bars (fst (feeds hs b)) \<and> br_symbols (fst (feeds hs b)) = br_symbols b"
proof (induction hs arbitrary: b)
  case (Cons h hs)
  obtain bar now where h: "h = (bar, now)" by (cases h)
  let ?b = "fst (barrier_feed bar now b)"
  have "own_bars (fst (feeds hs ?b)) \<and> br_symbols (fst (feeds hs ?b)) = br_symbols ?b"
    using Cons.prems h by (intro Cons.IH barrier_feed_ok own_bars_feed) (auto simp: feed_symbols)
  moreover have "fst (feeds (h # hs) b) = fst (feeds hs ?b)"
    by (simp add: h split: prod.splits)
  ultimately show ?case using Cons.prems by (simp add: feed_symbols)
qed simp

text \<open>With such bars a bucket that was flushed in a feed is not completed by it.\<close>

lemma flushed_not_completed:
  assumes "barrier_ok b" "own_bars b" "bc_symbol bar \<in> set (br_symbols b)"
    and "bucket_of b bar \<in> set (expired_buckets now b)"
  shows "\<not> bucket_complete (bucket_of b bar) (accept_bar bar now (flushed now b))"
proof
  let ?t = "bucket_of b bar"
  assume c: "bucket_complete ?t (accept_bar bar now (flushed now b))"
  have "map_of (br_pending (flushed now b)) ?t = None"
    using assms by (simp add: flushed_pending)
  with c have s: "set (br_symbols b) \<subseteq> {bc_symbol bar}"
    using assms(1) by (simp add: bucket_complete_def accept_bar_pending dget_def)
  obtain cl where cl: "map_of (br_pending b) ?t = Some cl"
    using expired_pending [OF assms(1,4)] by blast
  then have "set (dkeys cl) \<noteq> {}" "set (dkeys cl) \<subseteq> set (br_symbols b)"
    "\<not> set (br_symbols b) \<subseteq> set (dkeys cl)"
    using assms(1,2) by (auto simp: own_bars_def barrier_ok_def dkeys_def)
  moreover have "bc_symbol bar \<in> set (dkeys cl)"
    using calculation(1,2) s by (metis equals0I singletonD subset_iff)
  ultimately show False using s by auto
qed

lemma feed_out_iff:
  assumes "barrier_ok b" "barrier_feed bar now b = (b', out, mc)"
  shows "ev \<in> set out \<longleftrightarrow>
     (\<exists>t\<in>set (expired_buckets now b). ev \<in> set (emission b True t)) \<or>
     bucket_of b bar \<notin> br_fired (flushed now b) \<and>
     bucket_complete (bucket_of b bar) (accept_bar bar now (flushed now b)) \<and>
     ev = BMulti \<lparr>mb_tf = br_tf b, mb_ts = bucket_of b bar, mb_closes =
        dset (bc_symbol bar) bar (dget (br_pending (flushed now b)) (bucket_of b bar) [])\<rparr>"
  using feed_result [OF assms] assms(1) by (simp add: feed_case_out)

lemma pending_bucket_ok:
  "barrier_ok b \<Longrightarrow> map_of (dget (br_pending b) t []) y = Some bar' \<Longrightarrow>
     bc_symbol bar' = y \<and> bucket_of b bar' = t"
  by (cases "map_of (br_pending b) t") (auto simp: dget_def barrier_ok_def bucket_ok_def)

section \<open>Properties\<close>

text \<open>
  Whatever bars arrive, in whatever order and at whatever clock readings, the barrier keeps its
  bookkeeping sound: each bucket being collected has exactly one arrival time, holds only bars of its own
  interval filed under their own symbol, still lacks a symbol, and has not fired.
\<close>

theorem barrier_history_sound:
  assumes "barrier_init symbols tf timeout_ms strategy = Inr b0"
  shows "barrier_ok (fst (feeds hs b0))"
  by (rule feeds_ok, rule barrier_init_ok, rule assms)

theorem barrier_history_sound_witness:
  "\<forall>hs. barrier_ok (fst (feeds hs
     \<lparr>br_symbols = [''BTCUSDT'', ''ETHUSDT''], br_tf = ''1m'', br_tf_ms = 60000, br_timeout_ms = 5000,
      br_strategy = ''pairs'', br_pending = [], br_first_arrival = [], br_fired = {}\<rparr>))"
  by (rule allI, rule barrier_history_sound [of "[''BTCUSDT'', ''ETHUSDT'']" "''1m''" 5000 "''pairs''"])
     (simp add: barrier_init_def tf_ms_table_def)

text \<open>
  C12. Emissions are sound: when a barrier fed with bars of its own symbols emits a \<open>MultiBarClose\<close>, every
  bar in it lies in the emitted interval and is filed under its own symbol, and the gap markers of that
  interval name exactly the symbols the emission lacks, so that bars and markers together cover every symbol.
\<close>

theorem barrier_feed_emissions:
  assumes "barrier_init symbols tf timeout_ms strategy = Inr b0"
    and "\<forall>(bar', now')\<in>set ((bar, now) # hs). bc_symbol bar' \<in> set symbols"
    and "barrier_feed bar now (fst (feeds hs b0)) = (b', out, mc)"
    and "BMulti m \<in> set out"
  shows "(\<forall>y bar'. map_of (mb_closes m) y = Some bar' \<longrightarrow>
            bc_symbol bar' = y \<and> bucket_of (fst (feeds hs b0)) bar' = mb_ts m) \<and>
    {y. BGap (barrier_gap y (mb_ts m)) \<in> set out} = set symbols - set (dkeys (mb_closes m))"
proof -
  let ?b = "fst (feeds hs b0)"
  have b0: "barrier_ok b0" "own_bars b0" "br_symbols b0 = symbols"
    using barrier_init_ok [OF assms(1)] assms(1)
    by (auto simp: barrier_init_def own_bars_def split: option.splits if_splits)
  have ok: "barrier_ok ?b" by (rule feeds_ok [OF b0(1)])
  have own: "own_bars ?b" "br_symbols ?b = symbols"
    using own_bars_feeds [OF b0(1,2), of hs] b0(3) assms(2) by auto
  have my: "bc_symbol bar \<in> set (br_symbols ?b)" using assms(2) own(2) by simp
  note out = feed_out_iff [OF ok assms(3)]
  let ?t = "bucket_of ?b bar"
  have gap: "BGap (barrier_gap y t) \<in> set out \<longleftrightarrow> t \<in> set (expired_buckets now ?b) \<and>
      y \<in> set symbols - set (dkeys (dget (br_pending ?b) t []))" for y t
    unfolding out by (auto simp: emission_eq own(2) barrier_gap_def)
  from assms(4) out consider
      (old) "mb_ts m \<in> set (expired_buckets now ?b)" "mb_closes m = dget (br_pending ?b) (mb_ts m) []"
    | (new) "mb_ts m = ?t" "bucket_complete ?t (accept_bar bar now (flushed now ?b))"
        "mb_closes m = dset (bc_symbol bar) bar (dget (br_pending (flushed now ?b)) ?t [])"
    by (auto simp: emission_eq)
  then show ?thesis
  proof cases
    case old
    then show ?thesis using gap pending_bucket_ok [OF ok] by auto
  next
    case new
    have "?t \<notin> set (expired_buckets now ?b)"
      using flushed_not_completed [OF ok own(1) my] new(2) by blast
    moreover have "set symbols \<subseteq> set (dkeys (mb_closes m))"
      using new ok own(2) by (simp add: bucket_complete_def accept_bar_pending dget_def)
    moreover have "\<forall>y bar'. map_of (mb_closes m) y = Some bar' \<longrightarrow>
        bc_symbol bar' = y \<and> bucket_of ?b bar' = mb_ts m"
      unfolding new(1,3) map_of_dset fun_upd_apply
      using pending_bucket_ok [OF flushed_ok [OF ok]] ok by (metis bucket_of_flushed option.inject)
    ultimately show ?thesis using gap new(1) by auto
  qed
qed

definition multi_ts :: "barrier_event list \<Rightarrow> int list" where
  "multi_ts out = concat (map (\<lambda>ev. case ev of BMulti m \<Rightarrow> [mb_ts m] | BGap g \<Rightarrow> []) out)"

lemma multi_ts_append [simp]: "multi_ts (xs @ ys) = multi_ts xs @ multi_ts ys"
  by (simp add: multi_ts_def)

lemma multi_ts_Nil: "multi_ts [] = []"
  by (simp add: multi_ts_def)

lemma multi_ts_Cons:
  "multi_ts (ev # out) = (case ev of BMulti m \<Rightarrow> [mb_ts m] | BGap g \<Rightarrow> []) @ multi_ts out"
  by (simp add: multi_ts_def)

lemma multi_ts_gaps: "multi_ts (map (\<lambda>y. BGap (g y)) ys) = []"
  by (induction ys) (simp_all add: multi_ts_def)

lemma multi_ts_emission: "multi_ts (emission b d t) = [t]"
  by (simp add: emission_eq multi_ts_Cons multi_ts_gaps multi_ts_Nil)

lemma multi_ts_emissions: "multi_ts (concat (map (emission b d) ts)) = ts"
  by (induction ts) (simp_all add: multi_ts_emission, simp add: multi_ts_def)

lemma feed_case_calls:
  "filter (\<lambda>c. c = IncBarrierTimeout tf) (snd (snd (feed_case bar now b))) = []"
  by (simp add: feed_case_def Let_def)

lemma feed_case_first:
  assumes "barrier_ok b" "map_of (br_first_arrival (fst (feed_case bar now b))) t = Some first"
  shows "first = now \<or> map_of (br_first_arrival b) t = Some first"
proof -
  have k: "set (dkeys (br_first_arrival b)) = set (dkeys (br_pending b))"
    using assms(1) by (simp add: barrier_ok_def)
  show ?thesis using assms(2)
    by (auto simp: feed_case_def Let_def accept_bar_first [OF k] split: if_splits)
qed

text \<open>
  C13. No bucket outlives its timeout: after a feed at clock reading \<open>now\<close> (with a positive timeout)
  every bucket still pending had its first arrival less than the timeout ago, and every bucket that was due was
  emitted first thing in this feed, oldest interval first, with one timeout counted for each.
\<close>

theorem barrier_deadline:
  assumes "barrier_ok b" and "0 < br_timeout_ms b" and "barrier_feed bar now b = (b', out, mc)"
  shows "(\<forall>t first. map_of (br_first_arrival b') t = Some first \<longrightarrow> now - first < br_timeout_ms b) \<and>
    (\<exists>due. sorted due \<and> distinct due \<and>
       set due = {t. \<exists>first. map_of (br_first_arrival b) t = Some first \<and> br_timeout_ms b \<le> now - first} \<and>
       take (length due) (multi_ts out) = due \<and>
       length (filter (\<lambda>c. c = IncBarrierTimeout (br_tf b)) mc) = length due)"
proof (intro conjI allI impI exI [of _ "expired_buckets now b"])
  note r = feed_result [OF assms(1,3)]
  fix t first assume "map_of (br_first_arrival b') t = Some first"
  with r feed_case_first [OF flushed_ok [OF assms(1)]]
  have "first = now \<or> map_of (br_first_arrival (flushed now b)) t = Some first" by blast
  then show "now - first < br_timeout_ms b"
    using assms(1,2) by (auto simp: flushed_pending set_expired split: if_splits)
next
  note r = feed_result [OF assms(1,3)]
  show "take (length (expired_buckets now b)) (multi_ts out) = expired_buckets now b"
    using r by (simp add: multi_ts_emissions)
  show "length (filter (\<lambda>c. c = IncBarrierTimeout (br_tf b)) mc) = length (expired_buckets now b)"
    using r by (simp add: feed_case_calls)
qed (use assms(1) in \<open>simp_all add: set_expired distinct_expired, simp_all add: expired_buckets_def\<close>)

text \<open>
  C11. No bar is lost by a feed: a bar held before stays held or is emitted in its interval, unless the
  arriving bar supersedes it (same symbol, same interval); and the arriving bar is held, emitted, or counted
  as late because its interval has already fired.
\<close>

definition held :: "barrier \<Rightarrow> int \<Rightarrow> bar_close \<Rightarrow> bool" where
  "held b t bar \<longleftrightarrow> map_of (dget (br_pending b) t []) (bc_symbol bar) = Some bar"

definition emitted :: "barrier_event list \<Rightarrow> int \<Rightarrow> bar_close \<Rightarrow> bool" where
  "emitted out t bar \<longleftrightarrow>
     (\<exists>ev\<in>set out. case ev of BMulti m \<Rightarrow> mb_ts m = t \<and> map_of (mb_closes m) (bc_symbol bar) = Some bar
        | BGap g \<Rightarrow> False)"

lemma emitted_emission: "held b t bar \<Longrightarrow> emitted (emission b d t) t bar"
  by (simp add: held_def emitted_def emission_eq)

lemma emitted_append: "emitted (xs @ ys) t bar \<longleftrightarrow> emitted xs t bar \<or> emitted ys t bar"
  by (auto simp: emitted_def)

lemma emitted_concat: "x \<in> set xs \<Longrightarrow> emitted (f x) t bar \<Longrightarrow> emitted (concat (map f xs)) t bar"
  by (auto simp: emitted_def)

lemma held_flushed:
  "barrier_ok b \<Longrightarrow> held b t bar \<Longrightarrow> t \<notin> set (expired_buckets now b) \<Longrightarrow> held (flushed now b) t bar"
  by (simp add: held_def dget_def flushed_pending)

lemma held_accept:
  "held (accept_bar bar now b) (bucket_of b bar) bar"
  "held b t old \<Longrightarrow> t \<noteq> bucket_of b bar \<or> bc_symbol old \<noteq> bc_symbol bar \<Longrightarrow>
     held (accept_bar bar now b) t old"
  by (auto simp: held_def dget_def accept_bar_pending split: option.splits)

lemma held_fire: "held b t bar \<Longrightarrow> t \<noteq> u \<Longrightarrow> held (fst (fire_bucket u d b)) t bar"
  by (simp add: held_def dget_def)

lemma feed_case_conserves:
  assumes "held b t old" "\<not> (t = bucket_of b bar \<and> bc_symbol old = bc_symbol bar)"
  shows "held (fst (feed_case bar now b)) t old \<or> emitted (fst (snd (feed_case bar now b))) t old"
proof -
  have "held (accept_bar bar now b) t old" using assms by (intro held_accept(2)) auto
  then show ?thesis
    using assms(1) held_fire emitted_emission unfolding feed_case_def Let_def
    by (cases "t = bucket_of b bar") auto
qed

theorem barrier_feed_conserves:
  assumes "barrier_ok b" and "barrier_feed bar now b = (b', out, mc)"
  shows "(\<forall>t old. held b t old \<and> \<not> (t = bucket_of b bar \<and> bc_symbol old = bc_symbol bar) \<longrightarrow>
            held b' t old \<or> emitted out t old) \<and>
         (held b' (bucket_of b bar) bar \<or> emitted out (bucket_of b bar) bar \<or>
            IncBarrierLate (br_strategy b) (bc_symbol bar) \<in> set mc \<and> bucket_of b bar \<in> br_fired b')"
proof -
  note r = feed_result [OF assms]
  let ?f = "flushed now b"
  have "held b' t old \<or> emitted out t old"
    if "held b t old" "\<not> (t = bucket_of b bar \<and> bc_symbol old = bc_symbol bar)" for t old
  proof (cases "t \<in> set (expired_buckets now b)")
    case True
    then show ?thesis using r that(1) emitted_emission emitted_concat
      by (metis emitted_append)
  next
    case False
    have "held (fst (feed_case bar now ?f)) t old \<or> emitted (fst (snd (feed_case bar now ?f))) t old"
      by (rule feed_case_conserves) (use held_flushed that assms(1) False in auto)
    then show ?thesis unfolding r [THEN conjunct1] r [THEN conjunct2, THEN conjunct1] emitted_append
      by blast
  qed
  moreover have "held b' (bucket_of b bar) bar \<or> emitted out (bucket_of b bar) bar \<or>
      IncBarrierLate (br_strategy b) (bc_symbol bar) \<in> set mc \<and> bucket_of b bar \<in> br_fired b'"
    using r assms(1) held_accept(1) [of bar now ?f] emitted_emission [OF held_accept(1) [of bar now ?f]]
    by (simp add: feed_case_def Let_def emitted_append split: if_splits)
  ultimately show ?thesis by blast
qed

lemma single_symbol_feed:
  assumes "br_symbols b = [y]" "br_pending b = []" "br_first_arrival b = []" "bc_symbol bar = y"
    and "bucket_of b bar \<notin> br_fired b"
  shows "barrier_feed bar now b =
     (b\<lparr>br_fired := insert (bucket_of b bar)
           {ts \<in> br_fired b. bucket_of b bar - 2 * br_timeout_ms b \<le> ts}\<rparr>,
      [BMulti \<lparr>mb_tf = br_tf b, mb_ts = bucket_of b bar, mb_closes = [(y, bar)]\<rparr>], [])"
proof -
  have "flush_expired now b = (b, [], [])"
    using assms(3) by (simp add: flush_expired_def expired_buckets_def)
  moreover have "accept_bar bar now b =
      b\<lparr>br_pending := [(bucket_of b bar, [(y, bar)])], br_first_arrival := [(bucket_of b bar, now)]\<rparr>"
    using assms by (simp add: accept_bar_def Let_def dget_def)
  ultimately show ?thesis
    using assms by (simp add: barrier_feed_def bucket_complete_def dget_def fire_bucket_def Let_def)
qed

text \<open>
  The barrier forgets an interval as soon as a newer one fires, when twice the timeout is below
  the timeframe: a late bar of an interval that has already been emitted is then not recognised as
  late, and the interval is emitted a second time, against the comment in \<open>_fire_bucket\<close> that a
  pruned interval cannot receive a late event.
\<close>

theorem barrier_refires_old_bucket:
  assumes "barrier_init [y] tf timeout_ms strategy = Inr b0"
    and "0 \<le> timeout_ms" and "2 * timeout_ms < br_tf_ms b0"
    and "bc_symbol x1 = y" "bc_symbol x2 = y" "bc_symbol x3 = y"
    and "bucket_of b0 x1 < bucket_of b0 x2" and "bucket_of b0 x3 = bucket_of b0 x1"
  shows "snd (feeds [(x1, n1), (x2, n2), (x3, n3)] b0) =
    [BMulti \<lparr>mb_tf = tf, mb_ts = bucket_of b0 x1, mb_closes = [(y, x1)]\<rparr>,
     BMulti \<lparr>mb_tf = tf, mb_ts = bucket_of b0 x2, mb_closes = [(y, x2)]\<rparr>,
     BMulti \<lparr>mb_tf = tf, mb_ts = bucket_of b0 x1, mb_closes = [(y, x3)]\<rparr>]"
proof -
  let ?t = "bucket_of b0 x1" and ?u = "bucket_of b0 x2"
  have b0: "br_symbols b0 = [y]" "br_pending b0 = []" "br_first_arrival b0 = []" "br_fired b0 = {}"
    "br_tf b0 = tf" "br_timeout_ms b0 = timeout_ms" "0 < br_tf_ms b0"
    using assms(1) tf_ms_pos [of tf] by (auto simp: barrier_init_def split: option.splits)
  have gap: "?t < ?u - 2 * timeout_ms"
  proof -
    have "?t + br_tf_ms b0 \<le> ?u"
      using assms(7) b0(7) unfolding bucket_of_def
      by (metis add.commute mult.commute mult_le_cancel_left_pos mult_less_cancel_left_pos
          distrib_left mult.right_neutral zless_imp_add1_zle)
    then show ?thesis using assms(3) by linarith
  qed
  let ?b1 = "b0\<lparr>br_fired := {?t}\<rparr>"
  let ?b2 = "b0\<lparr>br_fired := {?u}\<rparr>"
  have bk: "bucket_of (b0\<lparr>br_fired := F\<rparr>) x = bucket_of b0 x" for F x
    by (simp add: bucket_of_def)
  have 1: "barrier_feed x1 n1 b0 = (?b1, [BMulti \<lparr>mb_tf = tf, mb_ts = ?t, mb_closes = [(y, x1)]\<rparr>], [])"
    using single_symbol_feed [of b0 y x1 n1] b0 assms(4) by simp
  have 2: "barrier_feed x2 n2 ?b1 = (?b2, [BMulti \<lparr>mb_tf = tf, mb_ts = ?u, mb_closes = [(y, x2)]\<rparr>], [])"
  proof -
    have e: "{ts. ts = ?t \<and> ?u - 2 * timeout_ms \<le> ts} = {}" using gap by auto
    show ?thesis
      using single_symbol_feed [of ?b1 y x2 n2] b0 assms(5,7) by (simp add: bk e)
  qed
  have "?u - 2 * timeout_ms > ?t" using gap .
  then have 3: "snd (feeds [(x3, n3)] ?b2) =
      [BMulti \<lparr>mb_tf = tf, mb_ts = ?t, mb_closes = [(y, x3)]\<rparr>]"
    using single_symbol_feed [of ?b2 y x3 n3] b0 assms(6,7,8) by (simp add: bk)
  show ?thesis using 3 by (simp add: 1 2 split: prod.splits)
qed

definition sample_bar :: "string \<Rightarrow> int \<Rightarrow> bar_close" where
  "sample_bar y ts =
     \<lparr>bc_exchange = ''bybit'', bc_symbol = y, bc_tf = ''1m'', bc_ts = ts, bc_open = Fin 1, bc_high = Fin 1,
      bc_low = Fin 1, bc_close = Fin 1, bc_volume = Fin 1, bc_quote_volume = Fin 1, bc_trade_count = 1,
      bc_is_complete = True\<rparr>"

definition sample_barrier :: "string list \<Rightarrow> barrier" where
  "sample_barrier ys =
     \<lparr>br_symbols = ys, br_tf = ''1m'', br_tf_ms = 60000, br_timeout_ms = 5000, br_strategy = ''pairs'',
      br_pending = [], br_first_arrival = [], br_fired = {}\<rparr>"

lemma sample_barrier_init: "ys \<noteq> [] \<Longrightarrow> barrier_init ys ''1m'' 5000 ''pairs'' = Inr (sample_barrier ys)"
  by (simp add: barrier_init_def tf_ms_table_def sample_barrier_def)

theorem barrier_refires_old_bucket_witness:
  "map mb_ts (concat (map (\<lambda>ev. case ev of BMulti m \<Rightarrow> [m] | BGap g \<Rightarrow> [])
     (snd (feeds [(sample_bar ''BTCUSDT'' 60000, 120000), (sample_bar ''BTCUSDT'' 120000, 180000),
                  (sample_bar ''BTCUSDT'' 60000, 181000)] (sample_barrier [''BTCUSDT'']))))) =
   [60000, 120000, 60000]"
  by (subst barrier_refires_old_bucket [where y = "''BTCUSDT''" and tf = "''1m''" and timeout_ms = 5000
        and strategy = "''pairs''"])
     (simp_all add: sample_barrier_init, simp_all add: sample_barrier_def sample_bar_def bucket_of_def)

theorem barrier_feed_emissions_witness:
  "snd (feeds [(sample_bar ''BTCUSDT'' 60000, 120000), (sample_bar ''BTCUSDT'' 120000, 180000)]
          (sample_barrier [''BTCUSDT'', ''ETHUSDT''])) =
     [BMulti \<lparr>mb_tf = ''1m'', mb_ts = 60000, mb_closes = [(''BTCUSDT'', sample_bar ''BTCUSDT'' 60000)]\<rparr>,
      BGap (barrier_gap ''ETHUSDT'' 60000)] \<and>
   {y. BGap (barrier_gap y 60000) \<in> set (snd (feeds [(sample_bar ''BTCUSDT'' 60000, 120000),
       (sample_bar ''BTCUSDT'' 120000, 180000)] (sample_barrier [''BTCUSDT'', ''ETHUSDT''])))} = {''ETHUSDT''}"
proof -
  let ?ys = "[''BTCUSDT'', ''ETHUSDT'']"
  let ?x1 = "sample_bar ''BTCUSDT'' 60000" and ?x2 = "sample_bar ''BTCUSDT'' 120000"
  let ?m = "\<lparr>mb_tf = ''1m'', mb_ts = 60000, mb_closes = [(''BTCUSDT'', ?x1)]\<rparr>"
  let ?b1 = "fst (feeds [(?x1, 120000)] (sample_barrier ?ys))"
  have f: "snd (feeds [(?x1, 120000)] (sample_barrier ?ys)) = []"
    "snd (feeds [(?x1, 120000), (?x2, 180000)] (sample_barrier ?ys)) =
       [BMulti ?m, BGap (barrier_gap ''ETHUSDT'' 60000)]"
    by code_simp+
  obtain b' out mc where e: "barrier_feed ?x2 180000 ?b1 = (b', out, mc)"
    by (cases "barrier_feed ?x2 180000 ?b1") auto
  have o: "out = [BMulti ?m, BGap (barrier_gap ''ETHUSDT'' 60000)]"
    using f e by (simp split: prod.splits)
  have "{y. BGap (barrier_gap y (mb_ts ?m)) \<in> set out} = set ?ys - set (dkeys (mb_closes ?m))"
    using barrier_feed_emissions [OF sample_barrier_init, of ?ys ?x2 180000 "[(?x1, 120000)]" b' out mc ?m]
      e o by (simp add: sample_bar_def)
  then show ?thesis unfolding f(2) o by auto
qed

lemma sample_ok: "ys \<noteq> [] \<Longrightarrow> barrier_ok (fst (feeds hs (sample_barrier ys)))"
  by (rule feeds_ok, rule barrier_init_ok, rule sample_barrier_init)

theorem barrier_deadline_witness:
  "list_all (\<lambda>(t, first). 180000 - first < 5000)
     (br_first_arrival (fst (feeds [(sample_bar ''BTCUSDT'' 60000, 120000), (sample_bar ''BTCUSDT'' 120000, 180000)]
        (sample_barrier [''BTCUSDT'', ''ETHUSDT'']))))"
proof -
  let ?x1 = "sample_bar ''BTCUSDT'' 60000" and ?x2 = "sample_bar ''BTCUSDT'' 120000"
  let ?b1 = "fst (feeds [(?x1, 120000)] (sample_barrier [''BTCUSDT'', ''ETHUSDT'']))"
  obtain b' out mc where e: "barrier_feed ?x2 180000 ?b1 = (b', out, mc)"
    by (cases "barrier_feed ?x2 180000 ?b1") auto
  have ok: "barrier_ok ?b1" by (rule sample_ok) simp
  have t: "br_timeout_ms ?b1 = 5000" by code_simp
  have b: "fst (feeds [(?x1, 120000), (?x2, 180000)] (sample_barrier [''BTCUSDT'', ''ETHUSDT''])) = b'"
    using e by (simp split: prod.splits)
  have "dinv (br_first_arrival b')"
    using barrier_feed_ok [OF ok, of ?x2 180000] e by (simp add: barrier_ok_def)
  then have "(t, first) \<in> set (br_first_arrival b') \<longrightarrow> map_of (br_first_arrival b') t = Some first" for t first
    by (simp add: dinv_def)
  then show ?thesis
    using barrier_deadline [OF ok _ e] t unfolding b list_all_iff by auto
qed

theorem barrier_feed_conserves_witness:
  "held (fst (feeds [(sample_bar ''BTCUSDT'' 60000, 120000), (sample_bar ''BTCUSDT'' 120000, 121000)]
       (sample_barrier [''BTCUSDT'', ''ETHUSDT'']))) 60000 (sample_bar ''BTCUSDT'' 60000)"
proof -
  let ?x1 = "sample_bar ''BTCUSDT'' 60000" and ?x2 = "sample_bar ''BTCUSDT'' 120000"
  let ?b1 = "fst (feeds [(?x1, 120000)] (sample_barrier [''BTCUSDT'', ''ETHUSDT'']))"
  obtain b' out mc where e: "barrier_feed ?x2 121000 ?b1 = (b', out, mc)"
    by (cases "barrier_feed ?x2 121000 ?b1") auto
  have ok: "barrier_ok ?b1" by (rule sample_ok) simp
  have h: "held ?b1 60000 ?x1" and k: "bucket_of ?b1 ?x2 = 120000" by code_simp+
  have o: "fst (snd (barrier_feed ?x2 121000 ?b1)) = []" by code_simp
  have "held b' 60000 ?x1 \<or> emitted out 60000 ?x1"
    using barrier_feed_conserves [OF ok e] h k by auto
  moreover have "\<not> emitted out 60000 ?x1" using o e by (simp add: emitted_def)
  ultimately show ?thesis using e by (simp split: prod.splits)
qed

end
