(* ===== verification/Json.thy ===== *)
theory Json
  imports Float64
begin

text \<open>
  JSON values as the services handle them after \<open>json.loads\<close>, with the Python operations applied to
  them (\<open>.get\<close>, indexing, iteration, \<open>float()\<close>, \<open>int()\<close>, \<open>str()\<close>, truth value) and the exception each raises,
  and \<open>json.dumps\<close> with its two separators as arguments. The text of a non-integral float is the
  argument \<open>fr\<close> (\<open>repr\<close> of a float).
\<close>

datatype json =
    JNull | JBool bool | JInt int | JFloat f64 | JStr string
  | JList "json list" | JObj "(string \<times> json) list"

definition jget :: "json \<Rightarrow> string \<Rightarrow> json \<Rightarrow> json res" where
  "jget j k dflt = (case j of JObj d \<Rightarrow> Inr (dget d k dflt) | _ \<Rightarrow> Inl OtherError)"

definition jitem :: "json \<Rightarrow> string \<Rightarrow> json res" where
  "jitem j k = (case j of JObj d \<Rightarrow> of_option KeyError (map_of d k) | _ \<Rightarrow> Inl TypeError)"

definition jiter :: "json \<Rightarrow> json list res" where
  "jiter j = (case j of JList xs \<Rightarrow> Inr xs | JObj d \<Rightarrow> Inr (map (\<lambda>(k, _). JStr k) d)
     | JStr s \<Rightarrow> Inr (map (\<lambda>c. JStr [c]) s) | _ \<Rightarrow> Inl TypeError)"

definition jtruthy :: "json \<Rightarrow> bool" where
  "jtruthy j = (case j of JNull \<Rightarrow> False | JBool b \<Rightarrow> b | JInt i \<Rightarrow> i \<noteq> 0 | JFloat x \<Rightarrow> truthy x
     | JStr s \<Rightarrow> s \<noteq> [] | JList xs \<Rightarrow> xs \<noteq> [] | JObj d \<Rightarrow> d \<noteq> [])"

definition int_of_f64 :: "f64 \<Rightarrow> int res" where
  "int_of_f64 x = (case x of
       Fin r \<Rightarrow> Inr (if 0 \<le> r then \<lfloor>r\<rfloor> else - \<lfloor>- r\<rfloor>)
     | NaN \<Rightarrow> Inl ValueError | _ \<Rightarrow> Inl OtherError)"

definition jfloat :: "json \<Rightarrow> f64 res" where
  "jfloat j = (case j of
       JBool b \<Rightarrow> Inr (if b then Fin 1 else Fin 0)
     | JInt i \<Rightarrow> (if is_fin (of_int_f64 i) then Inr (of_int_f64 i) else Inl OtherError)
     | JFloat x \<Rightarrow> Inr x
     | JStr s \<Rightarrow> of_option ValueError (py_float s)
     | _ \<Rightarrow> Inl TypeError)"

definition jint :: "json \<Rightarrow> int res" where
  "jint j = (case j of
       JBool b \<Rightarrow> Inr (if b then 1 else 0)
     | JInt i \<Rightarrow> Inr i
     | JFloat x \<Rightarrow> int_of_f64 x
     | JStr s \<Rightarrow> of_option ValueError (py_int s)
     | _ \<Rightarrow> Inl TypeError)"

definition jlower :: "json \<Rightarrow> string res" where
  "jlower j = (case j of JStr s \<Rightarrow> Inr (lower s) | _ \<Rightarrow> Inl OtherError)"

definition hex_digit :: "nat \<Rightarrow> char" where
  "hex_digit n = char_of (if n < 10 then 48 + n else 87 + n)"

definition json_char :: "char \<Rightarrow> string" where
  "json_char c =
     (let n = (of_char c :: nat) in
      if n = 34 then [char_of (92::nat), c] else if n = 92 then [c, c]
      else if n = 10 then [char_of (92::nat), CHR ''n'']
      else if n = 13 then [char_of (92::nat), CHR ''r'']
      else if n = 9 then [char_of (92::nat), CHR ''t'']
      else if n = 8 then [char_of (92::nat), CHR ''b'']
      else if n = 12 then [char_of (92::nat), CHR ''f'']
      else if n < 32 \<or> 126 < n
        then [char_of (92::nat), CHR ''u'', CHR ''0'', CHR ''0'', hex_digit (n div 16), hex_digit (n mod 16)]
      else [c])"

definition quote :: "string \<Rightarrow> string" where
  "quote s = [char_of (34::nat)] @ concat (map json_char s) @ [char_of (34::nat)]"

fun join :: "string \<Rightarrow> string list \<Rightarrow> string" where
  "join sep [] = []"
| "join sep [x] = x"
| "join sep (x # y # ys) = x @ sep @ join sep (y # ys)"

text \<open>\<open>json.dumps(j, separators=(isep, ksep))\<close>.\<close>

fun json_text :: "(f64 \<Rightarrow> string) \<Rightarrow> string \<Rightarrow> string \<Rightarrow> json \<Rightarrow> string" where
  "json_text fr isep ksep JNull = ''null''"
| "json_text fr isep ksep (JBool b) = (if b then ''true'' else ''false'')"
| "json_text fr isep ksep (JInt i) = int_str i"
| "json_text fr isep ksep (JFloat x) = fr x"
| "json_text fr isep ksep (JStr s) = quote s"
| "json_text fr isep ksep (JList xs) = ''['' @ join isep (map (json_text fr isep ksep) xs) @ '']''"
| "json_text fr isep ksep (JObj d) =
     ''{'' @ join isep (map (\<lambda>(k, v). quote k @ ksep @ json_text fr isep ksep v) d) @ ''}''"

definition json_dumps :: "(f64 \<Rightarrow> string) \<Rightarrow> json \<Rightarrow> string" where
  "json_dumps fr j = json_text fr '', '' '': '' j"

text \<open>\<open>str(j)\<close>: of the compound values the caller supplies the text, which no decision depends on.\<close>

definition jstr :: "(json \<Rightarrow> string) \<Rightarrow> json \<Rightarrow> string" where
  "jstr other j = (case j of JStr s \<Rightarrow> s | JInt i \<Rightarrow> int_str i | JNull \<Rightarrow> ''None''
     | JBool b \<Rightarrow> (if b then ''True'' else ''False'') | _ \<Rightarrow> other j)"

fun rmap :: "('a \<Rightarrow> 'b res) \<Rightarrow> 'a list \<Rightarrow> 'b list res" where
  "rmap f [] = Inr []"
| "rmap f (x # xs) = rbind (f x) (\<lambda>y. rbind (rmap f xs) (\<lambda>ys. Inr (y # ys)))"

lemma rmap_Inr_iff: "rmap f xs = Inr ys \<longleftrightarrow> list_all2 (\<lambda>x y. f x = Inr y) xs ys"
proof (induction xs arbitrary: ys)
  case Nil
  show ?case by (cases ys) auto
next
  case (Cons x xs)
  show ?case by (cases ys) (auto simp: rbind_Inr_iff Cons.IH)
qed

lemma jget_JObj [simp]: "jget (JObj d) k dflt = Inr (dget d k dflt)"
  by (simp add: jget_def)

lemma jitem_Inr_iff: "jitem j k = Inr v \<longleftrightarrow> (\<exists>d. j = JObj d \<and> map_of d k = Some v)"
  by (cases j) (auto simp: jitem_def)

end
