(* ===== verification/Exchange.thy ===== *)
theory Exchange
  imports Event_Types Metrics Json "HOL-Library.Sublist"
begin

text \<open>
  The exchange interface (\<open>bot_service/exchange/__init__.py\<close>): the value objects of an order, the
  redaction of credentials in error texts, and the contract of \<open>place_order\<close> that its callers
  rely on, as a locale that each client interprets.
\<close>

section \<open>Value objects\<close>

record order_request =
  or_strategy :: string
  or_exchange :: string
  or_symbol :: string
  or_side :: string
  or_order_type :: string
  or_order_role :: string
  or_size :: f64
  or_limit_price :: "f64 option"
  or_stop_price :: "f64 option"
  or_take_profit_price :: "f64 option"
  or_client_order_id :: string
  or_paper_trading :: bool

record placed_order =
  pl_order_id :: string
  pl_client_order_id :: string
  pl_status :: string
  pl_ts_exchange :: int

record open_order =
  oo_order_id :: string
  oo_symbol :: string
  oo_side :: string
  oo_order_type :: string
  oo_size :: f64
  oo_limit_price :: "f64 option"
  oo_status :: string
  oo_ts_placed :: int

section \<open>Redaction\<close>

record credentials =
  kucoin_api_key :: string
  kucoin_api_secret :: string
  kucoin_api_passphrase :: string
  bybit_api_key :: string
  bybit_api_secret :: string

text \<open>\<open>str.replace\<close>: leftmost, non-overlapping occurrences of a non-empty pattern.\<close>

function replace_all :: "string \<Rightarrow> string \<Rightarrow> string \<Rightarrow> string" where
  "replace_all s r t =
     (if s = [] \<or> t = [] then t
      else if starts_with s t then r @ replace_all s r (drop (length s) t)
      else hd t # replace_all s r (tl t))"
  by pat_completeness auto
termination by (relation "measure (\<lambda>(s, r, t). length t)") (auto simp: neq_Nil_conv)

declare replace_all.simps [simp del]

lemma replace_all_Nil [simp]: "replace_all s r [] = []"
  by (simp add: replace_all.simps [of s r "[]"])

lemma replace_all_Cons:
  "s \<noteq> [] \<Longrightarrow> replace_all s r (c # t) =
     (if starts_with s (c # t) then r @ replace_all s r (drop (length s) (c # t))
      else c # replace_all s r t)"
  by (simp add: replace_all.simps [of s r "c # t"])

definition redacted :: string where
  "redacted = ''[REDACTED]''"

definition secrets :: "credentials \<Rightarrow> string list" where
  "secrets c = [kucoin_api_key c, kucoin_api_secret c, kucoin_api_passphrase c, bybit_api_key c,
                bybit_api_secret c]"

definition scrub_for_error :: "credentials \<Rightarrow> string \<Rightarrow> string" where
  "scrub_for_error c text =
     fold (\<lambda>s result. if s \<noteq> [] \<and> sublist s result then replace_all s redacted result else result)
       (secrets c) text"

lemma starts_with_prefix: "starts_with p s \<longleftrightarrow> prefix p s"
  unfolding starts_with_def prefix_def by (metis append_eq_conv_conj)

text \<open>A word \<open>p\<close> is foreign to a marker when no occurrence of it can touch the marker's ends.\<close>

definition foreign :: "string \<Rightarrow> string \<Rightarrow> bool" where
  "foreign p r \<longleftrightarrow> r \<noteq> [] \<and> hd r \<notin> set p \<and> last r \<notin> set p \<and> p \<noteq> [] \<and> \<not> sublist p r"

lemma prefix_marker: "prefix p (r @ x) \<Longrightarrow> r \<noteq> [] \<Longrightarrow> hd r \<notin> set p \<Longrightarrow> p = []"
  by (cases p; cases r) auto

lemma sublist_marker:
  assumes "sublist p (r @ x)" "r \<noteq> []" "last r \<notin> set p" "\<not> sublist p r"
  shows "sublist p x"
  using assms
proof (induction r)
  case (Cons c r)
  from Cons.prems(1) consider "prefix p (c # r @ x)" | "sublist p (r @ x)"
    by (auto simp: sublist_Cons_right)
  then show ?case
  proof cases
    case 1
    then have "prefix p (c # r) \<or> (\<exists>z. p = (c # r) @ z \<and> prefix z x)"
      using prefix_append [of p "c # r" x] by simp
    moreover have "\<not> prefix p (c # r)" using Cons.prems(4) prefix_imp_sublist by blast
    ultimately have "set (c # r) \<subseteq> set p" by auto
    then show ?thesis using Cons.prems(3) last_in_set [of "c # r"] by blast
  next
    case 2
    then show ?thesis
      using Cons by (cases r) (auto simp: sublist_Cons_right)
  qed
qed simp

lemma prefix_replace:
  "prefix p (replace_all s r t) \<Longrightarrow> r \<noteq> [] \<Longrightarrow> hd r \<notin> set p \<Longrightarrow> prefix p t"
proof (induction s r t arbitrary: p rule: replace_all.induct)
  case (1 s r t)
  show ?case
  proof (cases "s = [] \<or> t = [] \<or> p = []")
    case True
    then show ?thesis using 1(3) by (auto simp: replace_all.simps [of s r t])
  next
    case False
    show ?thesis
    proof (cases "starts_with s t")
      case True
      then show ?thesis
        using False 1(3,4,5) prefix_marker by (auto simp: replace_all.simps [of s r t])
    next
      case n: False
      obtain c p' where p: "p = c # p'" using False by (cases p) auto
      have "c = hd t" "prefix p' (replace_all s r (tl t))"
        using False n 1(3) p by (auto simp: replace_all.simps [of s r t])
      then show ?thesis using 1(2) [of p'] False n 1(4,5) p by (cases t) auto
    qed
  qed
qed

lemma sublist_replace:
  "sublist p (replace_all s r t) \<Longrightarrow> foreign p r \<Longrightarrow> sublist p t"
proof (induction s r t rule: replace_all.induct)
  case (1 s r t)
  note f = 1(4) [unfolded foreign_def]
  show ?case
  proof (cases "s = [] \<or> t = []")
    case True
    then show ?thesis using 1(3) by (auto simp: replace_all.simps [of s r t])
  next
    case False
    show ?thesis
    proof (cases "starts_with s t")
      case True
      with False 1(3) have "sublist p (r @ replace_all s r (drop (length s) t))"
        by (simp add: replace_all.simps [of s r t])
      with f have "sublist p (replace_all s r (drop (length s) t))" using sublist_marker by blast
      then have "sublist p (drop (length s) t)" using 1(1) False True 1(4) by simp
      then show ?thesis by (metis append_take_drop_id sublist_appendI sublist_append_leftI sublist_order.order_trans suffix_drop suffix_imp_sublist)
    next
      case n: False
      obtain c t' where t: "t = c # t'" using False by (cases t) auto
      have "sublist p (c # replace_all s r t')"
        using 1(3) False n t by (simp add: replace_all_Cons)
      then consider "prefix p (c # replace_all s r t')" | "sublist p (replace_all s r t')"
        by (auto simp: sublist_Cons_right)
      then show ?thesis
      proof cases
        case 1
        then obtain p' where p: "p = c # p'" "prefix p' (replace_all s r t')"
          using f by (cases p) auto
        then have "prefix p' t'" using prefix_replace f by auto
        then show ?thesis using p t by (auto intro: prefix_imp_sublist)
      next
        case 2
        then have "sublist p t'" using 1(2) False n t 1(4) by simp
        then show ?thesis using t by (auto simp: sublist_Cons_right)
      qed
    qed
  qed
qed

lemma replace_all_removes: "foreign s r \<Longrightarrow> \<not> sublist s (replace_all s r t)"
proof (induction s r t rule: replace_all.induct)
  case (1 s r t)
  note f = 1(3) [unfolded foreign_def]
  show ?case
  proof (cases "t = []")
    case True
    then show ?thesis using f by simp
  next
    case False
    show ?thesis
    proof (cases "starts_with s t")
      case True
      then have e: "replace_all s r t = r @ replace_all s r (drop (length s) t)"
        using f False by (simp add: replace_all.simps [of s r t])
      show ?thesis unfolding e using sublist_marker [of s r] 1(1) False True 1(3) f by blast
    next
      case n: False
      obtain c t' where t: "t = c # t'" using False by (cases t) auto
      have e: "replace_all s r t = c # replace_all s r t'"
        using f n t by (simp add: replace_all_Cons)
      have "\<not> sublist s (replace_all s r t')" using 1(2) f False n t 1(3) by simp
      moreover have "\<not> prefix s (c # replace_all s r t')"
      proof
        assume "prefix s (c # replace_all s r t')"
        then obtain s' where s: "s = c # s'" "prefix s' (replace_all s r t')" using f by (cases s) auto
        then have "prefix s' t'" using prefix_replace f by auto
        then show False using n s t by (simp add: starts_with_prefix)
      qed
      ultimately show ?thesis unfolding e by (simp add: sublist_Cons_right)
    qed
  qed
qed

lemma scrub_fold:
  assumes "foreign p redacted" "\<not> sublist p t \<or> p \<in> set ss"
  shows "\<not> sublist p (fold (\<lambda>s result. if s \<noteq> [] \<and> sublist s result then replace_all s redacted result
      else result) ss t)"
  using assms(2)
proof (induction ss arbitrary: t)
  case (Cons s ss)
  let ?t = "if s \<noteq> [] \<and> sublist s t then replace_all s redacted t else t"
  have "\<not> sublist p ?t \<or> p \<in> set ss"
    using Cons.prems assms(1) replace_all_removes [of p redacted t] sublist_replace [of p s redacted t]
    by (auto simp: foreign_def)
  then show ?case using Cons.IH [of ?t] by simp
qed simp

text \<open>
  Redaction works: a credential without square brackets that is not itself a part of the marker text
  does not occur in any scrubbed error text, whatever the text and the other credentials are.
\<close>

theorem scrub_removes_credentials:
  assumes "s \<in> set (secrets c)" and "s \<noteq> []"
    and "CHR ''['' \<notin> set s" and "CHR '']'' \<notin> set s" and "\<not> sublist s ''REDACTED''"
  shows "\<not> sublist s (scrub_for_error c text)"
proof -
  have "\<not> sublist s (''[REDACTED]'')"
  proof
    assume a: "sublist s ''[REDACTED]''"
    obtain c s' where s': "s = c # s'" using assms(2) by (cases s) auto
    have "\<not> prefix s ''[REDACTED]''" using assms(3) s' by auto
    then have "sublist s (''REDACTED'' @ '']'')" using a by (simp add: sublist_Cons_right)
    then obtain u v where "''REDACTED'' @ '']'' = u @ s @ v" by (auto simp: sublist_def)
    moreover have "v \<noteq> []"
    proof
      assume "v = []"
      then have "last (u @ s @ v) \<in> set s" using assms(2) by simp
      then show False using calculation assms(4) by (metis last.simps last_appendR not_Cons_self2)
    qed
    ultimately have "''REDACTED'' = u @ s @ butlast v"
      by (metis append.assoc append_is_Nil_conv butlast_append butlast_snoc)
    then have "sublist s ''REDACTED''" by (auto simp: sublist_def)
    with assms(5) show False by blast
  qed
  then have "foreign s redacted" using assms by (simp add: foreign_def redacted_def)
  then show ?thesis unfolding scrub_for_error_def using scrub_fold assms(1) by blast
qed

theorem scrub_removes_credentials_witness:
  "\<not> sublist ''k3yS3cret''
     (scrub_for_error \<lparr>kucoin_api_key = [], kucoin_api_secret = ''other'', kucoin_api_passphrase = [],
        bybit_api_key = ''k3yS3cret'', bybit_api_secret = ''k3y''\<rparr>
      ''HTTP 401: apiKey k3yS3cret rejected'')"
  by (rule scrub_removes_credentials) (simp_all add: secrets_def sublist_Cons_right)

text \<open>
  The callers of \<open>place_order\<close> rely on two facts: an order that comes back is reported as
  placed, and it carries the client id of the request. \<open>'w\<close> is the client's world (HTTP exchanges,
  scheduled tasks).
\<close>

locale order_placer =
  fixes place :: "order_request \<Rightarrow> 'w \<Rightarrow> placed_order res \<times> 'w"
  assumes placed_status: "place req w = (Inr p, w') \<Longrightarrow> pl_status p = ''placed''"
    and placed_client_id: "place req w = (Inr p, w') \<Longrightarrow> pl_client_order_id p = or_client_order_id req"
begin

lemma never_rejected: "place req w = (Inr p, w') \<Longrightarrow> pl_status p \<noteq> ''rejected''"
  using placed_status by fastforce

definition client_ids_kept :: "order_request list \<Rightarrow> 'w \<Rightarrow> bool" where
  "client_ids_kept reqs w \<longleftrightarrow>
     (\<forall>req\<in>set reqs. \<forall>p. fst (place req w) = Inr p \<longrightarrow> pl_client_order_id p = or_client_order_id req)"

lemma client_ids_always_kept: "client_ids_kept reqs w"
  unfolding client_ids_kept_def using placed_client_id by (metis prod.collapse)

end

text \<open>An order and a fill that the examples of the clients use.\<close>

definition sample_order :: order_request where
  "sample_order = \<lparr>or_strategy = ''ma'', or_exchange = ''bybit'', or_symbol = ''BTCUSDT'', or_side = ''buy'',
     or_order_type = ''limit'', or_order_role = ''entry'', or_size = Fin (1/128), or_limit_price = Some (Fin 2),
     or_stop_price = None, or_take_profit_price = None, or_client_order_id = ''c1'',
     or_paper_trading = False\<rparr>"

definition sample_fill :: "string \<Rightarrow> f64 \<Rightarrow> int \<Rightarrow> order_filled" where
  "sample_fill oid sz ts =
     \<lparr>of_order_id = oid, of_exchange = ''bybit'', of_symbol = ''BTCUSDT'', of_side = ''buy'',
      of_fill_price = Fin 100, of_fill_size = sz, of_fee = Fin 0, of_ts_exchange = ts\<rparr>"

end
