(* ===== verification/Rest.thy ===== *)
theory Rest
  imports Exchange
begin

text \<open>
  The signed REST clients (\<open>exchange/bybit/rest.py\<close>, \<open>exchange/kucoin/rest.py\<close>): request signing,
  the retry loop, order placement, open orders and the paged fill history. HTTP answers, clock
  readings and random ids are streams of the world \<open>http\<close>; every request sent, every sleep and every
  error text logged is recorded there. The message authentication code, the text of a float
  and the text of a compound value are arguments (\<open>rest_env\<close>).
\<close>

section \<open>The client's world\<close>

datatype http_outcome =
    HttpError string          \<comment> \<open>httpx.HTTPError with its text\<close>
  | HttpRaise exn             \<comment> \<open>any other exception of the library\<close>
  | HttpResp int "json res"   \<comment> \<open>status code and the result of resp.json()\<close>

record http_req =
  rq_method :: string
  rq_url :: string
  rq_headers :: "(string, string) dict"
  rq_params :: "(string, string) dict option"
  rq_json :: "json option"

record http =
  ht_outcome :: "nat \<Rightarrow> http_outcome"
  ht_clock :: "nat \<Rightarrow> int"
  ht_uuid :: "nat \<Rightarrow> string"
  ht_ticks :: nat
  ht_ids :: nat
  ht_sent :: "http_req list"
  ht_slept :: "int list"
  ht_log :: "string list"

record rest_env =
  re_mac :: "string \<Rightarrow> string \<Rightarrow> string"     \<comment> \<open>HMAC-SHA256 in hex\<close>
  re_mac64 :: "string \<Rightarrow> string \<Rightarrow> string"   \<comment> \<open>HMAC-SHA256 in base64\<close>
  re_repr :: "f64 \<Rightarrow> string"
  re_other :: "json \<Rightarrow> string"
  re_creds :: credentials

definition clock_ms :: "http \<Rightarrow> int \<times> http" where
  "clock_ms w = (ht_clock w (ht_ticks w), w\<lparr>ht_ticks := Suc (ht_ticks w)\<rparr>)"

definition new_uuid :: "http \<Rightarrow> string \<times> http" where
  "new_uuid w = (ht_uuid w (ht_ids w), w\<lparr>ht_ids := Suc (ht_ids w)\<rparr>)"

definition sleep :: "int \<Rightarrow> http \<Rightarrow> http" where
  "sleep d w = (if d > 0 then w\<lparr>ht_slept := ht_slept w @ [d]\<rparr> else w)"

definition http_send :: "http_req \<Rightarrow> http \<Rightarrow> http_outcome \<times> http" where
  "http_send rq w = (ht_outcome w (length (ht_sent w)), w\<lparr>ht_sent := ht_sent w @ [rq]\<rparr>)"

definition http_warn :: "rest_env \<Rightarrow> string \<Rightarrow> http \<Rightarrow> http" where
  "http_warn env text w = w\<lparr>ht_log := ht_log w @ [scrub_for_error (re_creds env) (take 200 text)]\<rparr>"

definition hbind :: "'a res \<times> http \<Rightarrow> ('a \<Rightarrow> http \<Rightarrow> 'b res \<times> http) \<Rightarrow> 'b res \<times> http" where
  "hbind m f = (case m of (Inl e, w) \<Rightarrow> (Inl e, w) | (Inr x, w) \<Rightarrow> f x w)"

definition upper :: "string \<Rightarrow> string" where
  "upper s = map upper_char s"

definition query_string :: "(string, string) dict \<Rightarrow> string" where
  "query_string ps = join ''&'' (map (\<lambda>(k, v). k @ ''='' @ v) ps)"

definition retry_delays :: "int list" where
  "retry_delays = [1, 2, 4]"

section \<open>Bybit\<close>

definition sign_bybit :: "rest_env \<Rightarrow> string \<Rightarrow> string \<Rightarrow> string \<Rightarrow> string \<Rightarrow> string \<Rightarrow> string" where
  "sign_bybit env secret timestamp api_key recv_window payload =
     re_mac env secret (timestamp @ api_key @ recv_window @ payload)"

definition bybit_signed_headers :: "rest_env \<Rightarrow> string \<Rightarrow> string \<Rightarrow> string \<Rightarrow> (string, string) dict" where
  "bybit_signed_headers env timestamp recv_window payload =
     (let secret = bybit_api_secret (re_creds env); api_key = bybit_api_key (re_creds env) in
      [(''X-BAPI-API-KEY'', api_key), (''X-BAPI-TIMESTAMP'', timestamp),
       (''X-BAPI-RECV-WINDOW'', recv_window),
       (''X-BAPI-SIGN'', sign_bybit env secret timestamp api_key recv_window payload),
       (''Content-Type'', ''application/json'')])"

definition json_zero :: "json \<Rightarrow> bool" where
  "json_zero j = (case j of JInt i \<Rightarrow> i = 0 | JBool b \<Rightarrow> \<not> b | JFloat x \<Rightarrow> feq x (Fin 0) | _ \<Rightarrow> False)"

definition bybit_result :: "json \<Rightarrow> json res" where
  "bybit_result data =
     rbind (jget data ''retCode'' (JInt 0)) (\<lambda>ret_code.
       if \<not> json_zero ret_code then Inl ExchangeRESTError else jget data ''result'' JNull)"

fun bybit_attempts ::
  "rest_env \<Rightarrow> string \<Rightarrow> string \<Rightarrow> (string, string) dict option \<Rightarrow> json option \<Rightarrow> string \<Rightarrow>
   int list \<Rightarrow> http \<Rightarrow> json res \<times> http" where
  "bybit_attempts env meth url params body payload [] w = (Inl ExchangeRESTError, w)"
| "bybit_attempts env meth url params body payload (d # ds) w =
     (case clock_ms (sleep d w) of (t, w1) \<Rightarrow>
        let rq = \<lparr>rq_method = meth, rq_url = url,
                  rq_headers = bybit_signed_headers env (int_str t) ''5000'' payload,
                  rq_params = params, rq_json = body\<rparr> in
        case http_send rq w1 of (oc, w2) \<Rightarrow>
          (case oc of
             HttpError text \<Rightarrow>
               bybit_attempts env meth url params body payload ds (http_warn env text w2)
           | HttpRaise e \<Rightarrow> (Inl e, w2)
           | HttpResp status data \<Rightarrow>
               if status \<ge> 500 then bybit_attempts env meth url params body payload ds w2
               else if status \<ge> 400 then (Inl ExchangeRESTError, w2)
               else (rbind data bybit_result, w2)))"

definition get_params :: "string \<Rightarrow> (string, string) dict option \<Rightarrow> (string, string) dict option" where
  "get_params meth params =
     (case params of
        Some ps \<Rightarrow> if upper meth = ''GET'' \<and> ps \<noteq> [] then Some (sort ps) else None
      | None \<Rightarrow> None)"

definition or_else :: "'a option \<Rightarrow> 'a option \<Rightarrow> 'a option" where
  "or_else x y = (case x of None \<Rightarrow> y | Some v \<Rightarrow> Some v)"

definition signed_body :: "rest_env \<Rightarrow> json option \<Rightarrow> string" where
  "signed_body env body =
     (case body of Some j \<Rightarrow> if jtruthy j then json_dumps (re_repr env) j else [] | None \<Rightarrow> [])"

definition bybit_payload :: "rest_env \<Rightarrow> string \<Rightarrow> (string, string) dict option \<Rightarrow> json option \<Rightarrow> string" where
  "bybit_payload env meth params body =
     (case get_params meth params of Some sp \<Rightarrow> query_string sp | None \<Rightarrow> signed_body env body)"

definition bybit_request ::
  "rest_env \<Rightarrow> string \<Rightarrow> string \<Rightarrow> (string, string) dict option \<Rightarrow> json option \<Rightarrow> http \<Rightarrow> json res \<times> http" where
  "bybit_request env meth path params body w =
     bybit_attempts env meth (''https://api.bybit.com'' @ path) (or_else (get_params meth params) params)
       body (bybit_payload env meth params body) (0 # retry_delays) w"

definition or_uuid :: "string \<Rightarrow> http \<Rightarrow> string \<times> http" where
  "or_uuid cid w = (if cid \<noteq> [] then (cid, w) else new_uuid w)"

definition bybit_order_body :: "rest_env \<Rightarrow> order_request \<Rightarrow> string \<Rightarrow> json" where
  "bybit_order_body env req link =
     JObj ([(''category'', JStr ''spot''), (''symbol'', JStr (or_symbol req)),
            (''side'', JStr (capitalize (or_side req))),
            (''orderType'', JStr (capitalize (or_order_type req))),
            (''qty'', JStr (re_repr env (or_size req))), (''orderLinkId'', JStr link)] @
           (case or_limit_price req of Some p \<Rightarrow> [(''price'', JStr (re_repr env p))] | None \<Rightarrow> []))"

definition placed_of :: "rest_env \<Rightarrow> order_request \<Rightarrow> json \<Rightarrow> http \<Rightarrow> placed_order res \<times> http" where
  "placed_of env req data w =
     (case jitem data ''orderId'' of
        Inl e \<Rightarrow> (Inl e, w)
      | Inr oid \<Rightarrow> (case clock_ms w of (t, w') \<Rightarrow>
          (Inr \<lparr>pl_order_id = jstr (re_other env) oid, pl_client_order_id = or_client_order_id req,
               pl_status = ''placed'', pl_ts_exchange = t\<rparr>, w')))"

definition bybit_place_order :: "rest_env \<Rightarrow> order_request \<Rightarrow> http \<Rightarrow> placed_order res \<times> http" where
  "bybit_place_order env req w =
     (case or_uuid (or_client_order_id req) w of (link, w1) \<Rightarrow>
        hbind (bybit_request env ''POST'' ''/v5/order/create'' None (Some (bybit_order_body env req link)) w1)
          (placed_of env req))"

definition bybit_cancel_order :: "rest_env \<Rightarrow> string \<Rightarrow> string \<Rightarrow> http \<Rightarrow> unit res \<times> http" where
  "bybit_cancel_order env order_id sy w =
     hbind (bybit_request env ''POST'' ''/v5/order/cancel'' None
              (Some (JObj [(''category'', JStr ''spot''), (''symbol'', JStr sy), (''orderId'', JStr order_id)])) w)
       (\<lambda>_ w'. (Inr (), w'))"

definition or_empty :: "json \<Rightarrow> json" where
  "or_empty j = (if jtruthy j then j else JObj [])"

definition opt_price :: "json \<Rightarrow> f64 option res" where
  "opt_price item =
     rbind (jget item ''price'' JNull) (\<lambda>p.
       if jtruthy p then rbind (jitem item ''price'') (\<lambda>q. rbind (jfloat q) (\<lambda>x. Inr (Some x)))
       else Inr None)"

definition bybit_open_order :: "rest_env \<Rightarrow> string \<Rightarrow> json \<Rightarrow> open_order res" where
  "bybit_open_order env sy item =
     rbind (jitem item ''orderId'') (\<lambda>oid.
     rbind (jget item ''symbol'' (JStr sy)) (\<lambda>y.
     rbind (rbind (jget item ''side'' (JStr [])) jlower) (\<lambda>sd.
     rbind (rbind (jget item ''orderType'' (JStr [])) jlower) (\<lambda>ty.
     rbind (rbind (jget item ''qty'' (JInt 0)) jfloat) (\<lambda>q.
     rbind (opt_price item) (\<lambda>lp.
     rbind (rbind (jget item ''orderStatus'' (JStr ''open'')) jlower) (\<lambda>st.
     rbind (rbind (jget item ''createdTime'' (JInt 0)) jint) (\<lambda>ts.
       Inr \<lparr>oo_order_id = jstr (re_other env) oid, oo_symbol = jstr (re_other env) y, oo_side = sd,
            oo_order_type = ty, oo_size = q, oo_limit_price = lp, oo_status = st,
            oo_ts_placed = ts\<rparr>))))))))"

definition bybit_get_open_orders :: "rest_env \<Rightarrow> string \<Rightarrow> http \<Rightarrow> open_order list res \<times> http" where
  "bybit_get_open_orders env sy w =
     hbind (bybit_request env ''GET'' ''/v5/order/realtime''
              (Some [(''category'', ''spot''), (''symbol'', sy)]) None w)
       (\<lambda>data w'. (rbind (jget (or_empty data) ''list'' (JList [])) (\<lambda>l.
                    rbind (jiter l) (rmap (bybit_open_order env sy))), w'))"

definition fill_status :: "json \<Rightarrow> string list \<Rightarrow> bool" where
  "fill_status st oks \<longleftrightarrow> (case st of JStr s \<Rightarrow> s \<in> set oks | _ \<Rightarrow> False)"

text \<open>One item of a Bybit order list; None when its status is not one of \<open>oks\<close>.\<close>

definition bybit_fill :: "rest_env \<Rightarrow> string list \<Rightarrow> string \<Rightarrow> json \<Rightarrow> order_filled option res" where
  "bybit_fill env oks exchange item =
     rbind (jget item ''orderStatus'' JNull) (\<lambda>st.
     if \<not> fill_status st oks then Inr None else
     rbind (jget item ''orderId'' (JStr [])) (\<lambda>oid.
     rbind (jget item ''symbol'' (JStr [])) (\<lambda>y.
     rbind (jget item ''side'' (JStr [])) (\<lambda>sd.
     rbind (rbind (jget item ''avgPrice'' (JInt 0)) jfloat) (\<lambda>pr.
     rbind (rbind (jget item ''cumExecQty'' (JInt 0)) jfloat) (\<lambda>sz.
     rbind (rbind (jget item ''cumExecFee'' (JInt 0)) jfloat) (\<lambda>fee.
     rbind (rbind (jget item ''updatedTime'' (JInt 0)) jint) (\<lambda>ts.
       Inr (Some \<lparr>of_order_id = jstr (re_other env) oid, of_exchange = exchange,
                  of_symbol = jstr (re_other env) y, of_side = lower (jstr (re_other env) sd),
                  of_fill_price = pr, of_fill_size = sz, of_fee = fee, of_ts_exchange = ts\<rparr>)))))))))"

definition somes :: "'a option list \<Rightarrow> 'a list" where
  "somes xs = concat (map (\<lambda>x. case x of None \<Rightarrow> [] | Some y \<Rightarrow> [y]) xs)"

definition next_cursor :: "json \<Rightarrow> string option res" where
  "next_cursor result =
     rbind (jget result ''nextPageCursor'' JNull) (\<lambda>c.
       if \<not> jtruthy c then Inr None
       else case c of
           JStr s \<Rightarrow> Inr (if strip s \<noteq> [] then Some (strip s) else None)
         | _ \<Rightarrow> Inl OtherError)"

definition bybit_fills_params :: "string \<Rightarrow> int \<Rightarrow> string option \<Rightarrow> (string, string) dict" where
  "bybit_fills_params sy since_ms cursor =
     [(''category'', ''spot''), (''orderStatus'', ''Filled''), (''startTime'', int_str since_ms),
      (''limit'', ''50'')] @
     (if sy \<noteq> [] then [(''symbol'', sy)] else []) @
     (case cursor of Some c \<Rightarrow> [(''cursor'', c)] | None \<Rightarrow> [])"

definition bybit_page :: "rest_env \<Rightarrow> json \<Rightarrow> (order_filled list \<times> string option \<times> bool) res" where
  "bybit_page env result =
     rbind (jget result ''list'' (JList [])) (\<lambda>l.
     rbind (rbind (jiter l) (rmap (bybit_fill env [''Filled''] ''bybit''))) (\<lambda>fs.
     rbind (next_cursor result) (\<lambda>cursor.
     rbind (jget result ''list'' JNull) (\<lambda>l'.
       Inr (somes fs, cursor, cursor \<noteq> None \<and> jtruthy l')))))"

fun bybit_fill_pages ::
  "rest_env \<Rightarrow> string \<Rightarrow> int \<Rightarrow> nat \<Rightarrow> string option \<Rightarrow> order_filled list \<Rightarrow> http \<Rightarrow>
   order_filled list res \<times> http" where
  "bybit_fill_pages env sy since_ms 0 cursor fills w = (Inr fills, w)"
| "bybit_fill_pages env sy since_ms (Suc n) cursor fills w =
     hbind (bybit_request env ''GET'' ''/v5/order/history'' (Some (bybit_fills_params sy since_ms cursor)) None w)
       (\<lambda>result w'. case bybit_page env (or_empty result) of
            Inl e \<Rightarrow> (Inl e, w')
          | Inr (fs, cursor', again) \<Rightarrow>
              if again then bybit_fill_pages env sy since_ms n cursor' (fills @ fs) w'
              else (Inr (fills @ fs), w'))"

definition bybit_get_recent_fills :: "rest_env \<Rightarrow> string \<Rightarrow> int \<Rightarrow> http \<Rightarrow> order_filled list res \<times> http" where
  "bybit_get_recent_fills env sy since_ms w = bybit_fill_pages env sy since_ms 100 None [] w"

section \<open>KuCoin\<close>

definition sign_kucoin :: "rest_env \<Rightarrow> string \<Rightarrow> string \<Rightarrow> string \<Rightarrow> string \<Rightarrow> string \<Rightarrow> string" where
  "sign_kucoin env secret timestamp meth path body_str =
     re_mac64 env secret (timestamp @ upper meth @ path @ body_str)"

definition sign_passphrase :: "rest_env \<Rightarrow> string \<Rightarrow> string \<Rightarrow> string" where
  "sign_passphrase env secret passphrase = re_mac64 env secret passphrase"

definition kucoin_signed_headers ::
  "rest_env \<Rightarrow> string \<Rightarrow> string \<Rightarrow> string \<Rightarrow> http \<Rightarrow> (string, string) dict \<times> http" where
  "kucoin_signed_headers env meth path body_str w =
     (let c = re_creds env; secret = kucoin_api_secret c in
      case clock_ms w of (t, w') \<Rightarrow>
        ([(''KC-API-KEY'', kucoin_api_key c),
          (''KC-API-SIGN'', sign_kucoin env secret (int_str t) meth path body_str),
          (''KC-API-TIMESTAMP'', int_str t),
          (''KC-API-PASSPHRASE'', sign_passphrase env secret (kucoin_api_passphrase c)),
          (''KC-API-KEY-VERSION'', ''2''), (''Content-Type'', ''application/json'')], w'))"

definition kucoin_result :: "rest_env \<Rightarrow> json \<Rightarrow> json res" where
  "kucoin_result env data =
     rbind (jget data ''code'' (JStr ''200000'')) (\<lambda>code.
       if jstr (re_other env) code \<noteq> ''200000'' then Inl ExchangeRESTError
       else jget data ''data'' JNull)"

fun kucoin_attempts ::
  "rest_env \<Rightarrow> string \<Rightarrow> string \<Rightarrow> string \<Rightarrow> (string, string) dict option \<Rightarrow> json option \<Rightarrow> string \<Rightarrow>
   int list \<Rightarrow> http \<Rightarrow> json res \<times> http" where
  "kucoin_attempts env meth url sign_path params body body_str [] w = (Inl ExchangeRESTError, w)"
| "kucoin_attempts env meth url sign_path params body body_str (d # ds) w =
     (case kucoin_signed_headers env meth sign_path body_str (sleep d w) of (headers, w1) \<Rightarrow>
        let rq = \<lparr>rq_method = meth, rq_url = url, rq_headers = headers, rq_params = params,
                  rq_json = body\<rparr> in
        case http_send rq w1 of (oc, w2) \<Rightarrow>
          (case oc of
             HttpError text \<Rightarrow>
               kucoin_attempts env meth url sign_path params body body_str ds (http_warn env text w2)
           | HttpRaise e \<Rightarrow> (Inl e, w2)
           | HttpResp status data \<Rightarrow>
               if status \<ge> 500 then kucoin_attempts env meth url sign_path params body body_str ds w2
               else if status \<ge> 400 then (Inl ExchangeRESTError, w2)
               else (rbind data (kucoin_result env), w2)))"

definition kucoin_sign_path :: "string \<Rightarrow> string \<Rightarrow> (string, string) dict option \<Rightarrow> string" where
  "kucoin_sign_path meth path params =
     (case get_params meth params of Some sp \<Rightarrow> path @ ''?'' @ query_string sp | None \<Rightarrow> path)"

definition kucoin_request ::
  "rest_env \<Rightarrow> string \<Rightarrow> string \<Rightarrow> (string, string) dict option \<Rightarrow> json option \<Rightarrow> http \<Rightarrow> json res \<times> http" where
  "kucoin_request env meth path params body w =
     kucoin_attempts env meth (''https://api-futures.kucoin.com'' @ path) (kucoin_sign_path meth path params)
       (or_else (get_params meth params) params) body (signed_body env body) (0 # retry_delays) w"

definition kucoin_order_body :: "rest_env \<Rightarrow> order_request \<Rightarrow> string \<Rightarrow> json" where
  "kucoin_order_body env req oid =
     JObj ([(''clientOid'', JStr oid), (''side'', JStr (or_side req)), (''symbol'', JStr (or_symbol req)),
            (''type'', JStr (or_order_type req)), (''size'', JStr (re_repr env (or_size req)))] @
           (case or_limit_price req of Some p \<Rightarrow> [(''price'', JStr (re_repr env p))] | None \<Rightarrow> []) @
           (case or_stop_price req of
              Some p \<Rightarrow> [(''stop'', JStr (if or_side req = ''buy'' then ''up'' else ''down'')),
                        (''stopPrice'', JStr (re_repr env p)), (''stopPriceType'', JStr ''TP'')]
            | None \<Rightarrow> []))"

definition kucoin_place_order :: "rest_env \<Rightarrow> order_request \<Rightarrow> http \<Rightarrow> placed_order res \<times> http" where
  "kucoin_place_order env req w =
     (case or_uuid (or_client_order_id req) w of (oid, w1) \<Rightarrow>
        hbind (kucoin_request env ''POST'' ''/api/v1/orders'' None (Some (kucoin_order_body env req oid)) w1)
          (placed_of env req))"

definition unreserved :: "char \<Rightarrow> bool" where
  "unreserved c \<longleftrightarrow> (let n = (of_char c :: nat) in
     48 \<le> n \<and> n \<le> 57 \<or> 65 \<le> n \<and> n \<le> 90 \<or> 97 \<le> n \<and> n \<le> 122 \<or> n \<in> {45, 46, 95, 126})"

definition url_quote :: "string \<Rightarrow> string" where
  "url_quote s = concat (map (\<lambda>c. if unreserved c then [c]
     else let n = (of_char c :: nat) in
       [CHR ''%'', upper_char (hex_digit (n div 16)), upper_char (hex_digit (n mod 16))]) s)"

definition kucoin_cancel_order :: "rest_env \<Rightarrow> string \<Rightarrow> string \<Rightarrow> http \<Rightarrow> unit res \<times> http" where
  "kucoin_cancel_order env order_id sy w =
     hbind (kucoin_request env ''DELETE'' (''/api/v1/orders/'' @ url_quote order_id) None None w)
       (\<lambda>_ w'. (Inr (), w'))"

definition kucoin_open_order :: "rest_env \<Rightarrow> string \<Rightarrow> json \<Rightarrow> open_order res" where
  "kucoin_open_order env sy item =
     rbind (jitem item ''id'') (\<lambda>oid.
     rbind (jget item ''symbol'' (JStr sy)) (\<lambda>y.
     rbind (jget item ''side'' (JStr [])) (\<lambda>sd.
     rbind (jget item ''type'' (JStr [])) (\<lambda>ty.
     rbind (rbind (jget item ''size'' (JInt 0)) jfloat) (\<lambda>q.
     rbind (opt_price item) (\<lambda>lp.
     rbind (jget item ''status'' (JStr ''open'')) (\<lambda>st.
     rbind (rbind (jget item ''createdAt'' (JInt 0)) jint) (\<lambda>ts.
       Inr \<lparr>oo_order_id = jstr (re_other env) oid, oo_symbol = jstr (re_other env) y,
            oo_side = jstr (re_other env) sd, oo_order_type = jstr (re_other env) ty, oo_size = q,
            oo_limit_price = lp, oo_status = jstr (re_other env) st, oo_ts_placed = ts\<rparr>))))))))"

definition kucoin_get_open_orders :: "rest_env \<Rightarrow> string \<Rightarrow> http \<Rightarrow> open_order list res \<times> http" where
  "kucoin_get_open_orders env sy w =
     hbind (kucoin_request env ''GET'' ''/api/v1/openOrders'' (Some [(''symbol'', sy)]) None w)
       (\<lambda>data w'. (case data of JList items \<Rightarrow> rmap (kucoin_open_order env sy) items | _ \<Rightarrow> Inr [], w'))"

definition kucoin_fill :: "rest_env \<Rightarrow> json \<Rightarrow> order_filled res" where
  "kucoin_fill env item =
     rbind (jget item ''orderId'' (JStr [])) (\<lambda>oid.
     rbind (jget item ''symbol'' (JStr [])) (\<lambda>y.
     rbind (jget item ''side'' (JStr [])) (\<lambda>sd.
     rbind (rbind (jget item ''price'' (JInt 0)) jfloat) (\<lambda>pr.
     rbind (rbind (jget item ''size'' (JInt 0)) jfloat) (\<lambda>sz.
     rbind (rbind (jget item ''fee'' (JInt 0)) jfloat) (\<lambda>fee.
     rbind (rbind (jget item ''createdAt'' (JInt 0)) jint) (\<lambda>ts.
       Inr \<lparr>of_order_id = jstr (re_other env) oid, of_exchange = ''kucoin'',
            of_symbol = jstr (re_other env) y, of_side = jstr (re_other env) sd, of_fill_price = pr,
            of_fill_size = sz, of_fee = fee, of_ts_exchange = ts\<rparr>)))))))"

definition kucoin_fills_params :: "string \<Rightarrow> int \<Rightarrow> nat \<Rightarrow> (string, string) dict" where
  "kucoin_fills_params sy since_ms page =
     [(''startAt'', int_str since_ms), (''pageSize'', ''50''), (''currentPage'', nat_str page)] @
     (if sy \<noteq> [] then [(''symbol'', sy)] else [])"

definition kucoin_page :: "rest_env \<Rightarrow> nat \<Rightarrow> json \<Rightarrow> (order_filled list \<times> bool) res" where
  "kucoin_page env page result =
     rbind (jget result ''items'' (JList [])) (\<lambda>items.
     rbind (rbind (jiter items) (rmap (kucoin_fill env))) (\<lambda>fs.
     rbind (jget result ''totalPage'' JNull) (\<lambda>tp.
     rbind (rbind (jfloat (if jtruthy tp then tp else JInt 1)) int_of_f64) (\<lambda>total_pages.
       Inr (fs, \<not> (int page \<ge> total_pages \<or> \<not> jtruthy items))))))"

fun kucoin_fill_pages ::
  "rest_env \<Rightarrow> string \<Rightarrow> int \<Rightarrow> nat \<Rightarrow> nat \<Rightarrow> order_filled list \<Rightarrow> http \<Rightarrow> order_filled list res \<times> http" where
  "kucoin_fill_pages env sy since_ms 0 page fills w = (Inr fills, w)"
| "kucoin_fill_pages env sy since_ms (Suc n) page fills w =
     hbind (kucoin_request env ''GET'' ''/api/v1/fills'' (Some (kucoin_fills_params sy since_ms page)) None w)
       (\<lambda>result w'. case kucoin_page env page (or_empty result) of
            Inl e \<Rightarrow> (Inl e, w')
          | Inr (fs, again) \<Rightarrow>
              if again then kucoin_fill_pages env sy since_ms n (Suc page) (fills @ fs) w'
              else (Inr (fills @ fs), w'))"

definition kucoin_get_recent_fills :: "rest_env \<Rightarrow> string \<Rightarrow> int \<Rightarrow> http \<Rightarrow> order_filled list res \<times> http" where
  "kucoin_get_recent_fills env sy since_ms w = kucoin_fill_pages env sy since_ms 100 1 [] w"

definition kucoin_get_private_ws_token :: "rest_env \<Rightarrow> http \<Rightarrow> (string \<times> string) res \<times> http" where
  "kucoin_get_private_ws_token env w =
     hbind (kucoin_request env ''POST'' ''/api/v1/bullet-private'' None (Some (JObj [])) w)
       (\<lambda>data w'. (rbind (jget data ''instanceServers'' (JList [])) (\<lambda>servers.
          if \<not> jtruthy servers then Inl ExchangeRESTError
          else rbind (jitem data ''token'') (\<lambda>token.
               rbind (case servers of JList (s # _) \<Rightarrow> jitem s ''endpoint'' | JObj _ \<Rightarrow> Inl KeyError
                        | _ \<Rightarrow> Inl TypeError) (\<lambda>ep.
                 Inr (jstr (re_other env) ep, jstr (re_other env) token)))), w'))"

section \<open>One retry loop for both clients\<close>

text \<open>
  Both loops are the same loop over a way to make the next request and a way to read its data; the
  lemmas are proved once about it.
\<close>

fun attempts ::
  "rest_env \<Rightarrow> (http \<Rightarrow> http_req \<times> http) \<Rightarrow> (json \<Rightarrow> json res) \<Rightarrow> int list \<Rightarrow> http \<Rightarrow> json res \<times> http" where
  "attempts env mk fin [] w = (Inl ExchangeRESTError, w)"
| "attempts env mk fin (d # ds) w =
     (case mk (sleep d w) of (rq, w1) \<Rightarrow>
        case http_send rq w1 of (oc, w2) \<Rightarrow>
          (case oc of
             HttpError text \<Rightarrow> attempts env mk fin ds (http_warn env text w2)
           | HttpRaise e \<Rightarrow> (Inl e, w2)
           | HttpResp status data \<Rightarrow>
               if status \<ge> 500 then attempts env mk fin ds w2
               else if status \<ge> 400 then (Inl ExchangeRESTError, w2)
               else (rbind data fin, w2)))"

definition bybit_mk ::
  "rest_env \<Rightarrow> string \<Rightarrow> string \<Rightarrow> (string, string) dict option \<Rightarrow> json option \<Rightarrow> string \<Rightarrow> http \<Rightarrow> http_req \<times> http" where
  "bybit_mk env meth url params body payload w =
     (case clock_ms w of (t, w1) \<Rightarrow>
        (\<lparr>rq_method = meth, rq_url = url,
          rq_headers = bybit_signed_headers env (int_str t) ''5000'' payload,
          rq_params = params, rq_json = body\<rparr>, w1))"

definition kucoin_mk ::
  "rest_env \<Rightarrow> string \<Rightarrow> string \<Rightarrow> string \<Rightarrow> (string, string) dict option \<Rightarrow> json option \<Rightarrow> string \<Rightarrow> http \<Rightarrow>
   http_req \<times> http" where
  "kucoin_mk env meth url sign_path params body body_str w =
     (case kucoin_signed_headers env meth sign_path body_str w of (headers, w1) \<Rightarrow>
        (\<lparr>rq_method = meth, rq_url = url, rq_headers = headers, rq_params = params, rq_json = body\<rparr>, w1))"

lemma bybit_attempts_eq:
  "bybit_attempts env meth url params body payload ds w =
     attempts env (bybit_mk env meth url params body payload) bybit_result ds w"
  by (induction ds arbitrary: w)
     (simp_all add: bybit_mk_def clock_ms_def http_send_def Let_def split: http_outcome.split)

lemma kucoin_attempts_eq:
  "kucoin_attempts env meth url sp params body bs ds w =
     attempts env (kucoin_mk env meth url sp params body bs) (kucoin_result env) ds w"
  by (induction ds arbitrary: w)
     (simp_all add: kucoin_mk_def kucoin_signed_headers_def clock_ms_def http_send_def Let_def
       split: http_outcome.split)

definition transient :: "http_outcome \<Rightarrow> bool" where
  "transient oc \<longleftrightarrow> (case oc of HttpError _ \<Rightarrow> True | HttpRaise _ \<Rightarrow> False | HttpResp st _ \<Rightarrow> st \<ge> 500)"

text \<open>What one run of the loop does to the world; \<open>ok\<close> holds of every request it sends.\<close>

definition loop_post :: "(http_req \<Rightarrow> bool) \<Rightarrow> int list \<Rightarrow> json res \<Rightarrow> http \<Rightarrow> http \<Rightarrow> bool" where
  "loop_post ok ds r w w' \<longleftrightarrow>
     (\<exists>new. ht_sent w' = ht_sent w @ new \<and> length new \<le> length ds \<and> list_all ok new \<and>
        (ds \<noteq> [] \<longrightarrow> new \<noteq> []) \<and> ht_outcome w' = ht_outcome w \<and>
        (\<forall>i. i + 1 < length new \<longrightarrow> transient (ht_outcome w (length (ht_sent w) + i))) \<and>
        (new \<noteq> [] \<and> transient (ht_outcome w (length (ht_sent w) + (length new - 1))) \<longrightarrow>
           length new = length ds \<and> r = Inl ExchangeRESTError) \<and>
        ht_slept w' = ht_slept w @ filter (\<lambda>d. 0 < d) (take (length new) ds))"

lemma sleep_fields [simp]:
  "ht_outcome (sleep d w) = ht_outcome w" "ht_sent (sleep d w) = ht_sent w"
  "ht_slept (sleep d w) = ht_slept w @ filter (\<lambda>d. 0 < d) [d]"
  by (simp_all add: sleep_def)

lemma attempts_post:
  assumes "\<And>w rq w1. mk w = (rq, w1) \<Longrightarrow> ok rq \<and> ht_outcome w1 = ht_outcome w \<and>
      ht_sent w1 = ht_sent w \<and> ht_slept w1 = ht_slept w"
  shows "attempts env mk fin ds w = (r, w') \<Longrightarrow> loop_post ok ds r w w'"
proof (induction ds arbitrary: w)
  case Nil
  then show ?case by (auto simp: loop_post_def)
next
  case (Cons d ds)
  obtain rq w1 where mk: "mk (sleep d w) = (rq, w1)" by fastforce
  note m = assms [OF mk]
  let ?oc = "ht_outcome w (length (ht_sent w))"
  let ?w2 = "w1\<lparr>ht_sent := ht_sent w1 @ [rq]\<rparr>"
  have send: "http_send rq w1 = (?oc, ?w2)" using m by (simp add: http_send_def)
  have stop: "loop_post ok (d # ds) r w w'" if "w' = ?w2" "\<not> transient ?oc"
    unfolding loop_post_def using that m by (intro exI [of _ "[rq]"]) simp
  have again: "loop_post ok (d # ds) r w w'"
    if a: "attempts env mk fin ds w3 = (r, w')" "transient ?oc" "ht_sent w3 = ht_sent ?w2"
      "ht_slept w3 = ht_slept ?w2" "ht_outcome w3 = ht_outcome w" for w3
  proof -
    from Cons.IH [OF a(1)] obtain new where n: "ht_sent w' = ht_sent w3 @ new"
      "length new \<le> length ds" "list_all ok new" "ds \<noteq> [] \<longrightarrow> new \<noteq> []"
      "ht_outcome w' = ht_outcome w3"
      "\<forall>i. i + 1 < length new \<longrightarrow> transient (ht_outcome w3 (length (ht_sent w3) + i))"
      "new \<noteq> [] \<and> transient (ht_outcome w3 (length (ht_sent w3) + (length new - 1))) \<longrightarrow>
         length new = length ds \<and> r = Inl ExchangeRESTError"
      "ht_slept w' = ht_slept w3 @ filter (\<lambda>d. 0 < d) (take (length new) ds)"
      unfolding loop_post_def by blast
    have len: "length (ht_sent w3) = Suc (length (ht_sent w))" using a(3) m by simp
    have t: "transient (ht_outcome w (length (ht_sent w) + i))" if "i + 1 < length (rq # new)" for i
    proof (cases i)
      case 0
      then show ?thesis using a(2) by simp
    next
      case (Suc j)
      then show ?thesis using n(6) that len a(5) by (auto dest!: spec [of _ j])
    qed
    have e: "new = [] \<Longrightarrow> ds = [] \<and> r = Inl ExchangeRESTError" using n(4) a(1) by auto
    have f: "transient (ht_outcome w (length (ht_sent w) + length new)) \<Longrightarrow>
        length new = length ds \<and> r = Inl ExchangeRESTError"
      using e n(7) len a(5) by (cases "new = []") (auto simp: Suc_diff_Suc neq_Nil_conv)
    show ?thesis unfolding loop_post_def
      using n(1-5,8) a(3-5) m t f by (intro exI [of _ "rq # new"]) auto
  qed
  show ?case
  proof (cases "?oc")
    case (HttpError tx)
    with Cons.prems have "attempts env mk fin ds (http_warn env tx ?w2) = (r, w')"
      by (simp add: mk send)
    then show ?thesis by (rule again) (use HttpError m in \<open>simp_all add: transient_def http_warn_def\<close>)
  next
    case (HttpRaise e)
    with Cons.prems show ?thesis by (intro stop) (simp_all add: mk send transient_def)
  next
    case (HttpResp st data)
    show ?thesis
    proof (cases "500 \<le> st")
      case True
      with HttpResp Cons.prems have "attempts env mk fin ds ?w2 = (r, w')" by (simp add: mk send)
      then show ?thesis by (rule again) (use HttpResp True m in \<open>simp_all add: transient_def\<close>)
    next
      case False
      with HttpResp Cons.prems show ?thesis
        by (intro stop) (auto simp: mk send transient_def split: if_splits)
    qed
  qed
qed

section \<open>Both clients keep the contract of \<open>place_order\<close>\<close>

lemma placed_of_Inr:
  "placed_of env req data w = (Inr p, w') \<Longrightarrow>
     pl_status p = ''placed'' \<and> pl_client_order_id p = or_client_order_id req"
  by (auto simp: placed_of_def clock_ms_def split: sum.splits)

lemma hbind_Inr: "hbind m f = (Inr y, w') \<Longrightarrow> \<exists>x w. m = (Inr x, w) \<and> f x w = (Inr y, w')"
  by (auto simp: hbind_def split: prod.splits sum.splits)

lemma bybit_place_Inr:
  "bybit_place_order env req w = (Inr p, w') \<Longrightarrow>
     pl_status p = ''placed'' \<and> pl_client_order_id p = or_client_order_id req"
  unfolding bybit_place_order_def by (auto dest!: hbind_Inr placed_of_Inr split: prod.splits)

lemma kucoin_place_Inr:
  "kucoin_place_order env req w = (Inr p, w') \<Longrightarrow>
     pl_status p = ''placed'' \<and> pl_client_order_id p = or_client_order_id req"
  unfolding kucoin_place_order_def by (auto dest!: hbind_Inr placed_of_Inr split: prod.splits)

interpretation bybit: order_placer "bybit_place_order env" for env
  by unfold_locales (auto dest: bybit_place_Inr)

interpretation kucoin: order_placer "kucoin_place_order env" for env
  by unfold_locales (auto dest: kucoin_place_Inr)

section \<open>What a placement sends\<close>

lemma placed_of_world:
  "placed_of env req data w = (r, w') \<Longrightarrow> ht_sent w' = ht_sent w \<and> ht_slept w' = ht_slept w"
  by (auto simp: placed_of_def clock_ms_def split: sum.splits)

lemma placed_of_error: "jitem data ''orderId'' = Inl e \<Longrightarrow> fst (placed_of env req data w) = Inl e"
  by (simp add: placed_of_def)

lemma or_uuid_world:
  "or_uuid cid w = (x, w') \<Longrightarrow> ht_sent w' = ht_sent w \<and> ht_slept w' = ht_slept w \<and>
     ht_outcome w' = ht_outcome w \<and> (cid \<noteq> [] \<longrightarrow> x = cid)"
  by (auto simp: or_uuid_def new_uuid_def split: if_splits)

definition request_ok :: "string \<Rightarrow> string \<Rightarrow> (string, string) dict option \<Rightarrow> json option \<Rightarrow>
    (int \<Rightarrow> (string, string) dict) \<Rightarrow> http_req \<Rightarrow> bool" where
  "request_ok meth url params body headers rq \<longleftrightarrow>
     rq_method rq = meth \<and> rq_url rq = url \<and> rq_params rq = params \<and> rq_json rq = body \<and>
     (\<exists>t. rq_headers rq = headers t)"

lemma bybit_request_post:
  assumes "bybit_request env meth path params body w = (r, w')"
  shows "loop_post (request_ok meth (''https://api.bybit.com'' @ path)
      (or_else (get_params meth params) params) body
      (\<lambda>t. bybit_signed_headers env (int_str t) ''5000'' (bybit_payload env meth params body)))
    (0 # retry_delays) r w w'"
  using assms unfolding bybit_request_def bybit_attempts_eq
  by (rule attempts_post [rotated]) (auto simp: bybit_mk_def clock_ms_def request_ok_def)

definition kucoin_headers :: "rest_env \<Rightarrow> string \<Rightarrow> string \<Rightarrow> string \<Rightarrow> int \<Rightarrow> (string, string) dict" where
  "kucoin_headers env meth sp bs t =
     fst (kucoin_signed_headers env meth sp bs
       \<lparr>ht_outcome = \<lambda>_. HttpRaise OtherError, ht_clock = \<lambda>_. t, ht_uuid = \<lambda>_. [], ht_ticks = 0, ht_ids = 0,
        ht_sent = [], ht_slept = [], ht_log = []\<rparr>)"

lemma kucoin_request_post:
  assumes "kucoin_request env meth path params body w = (r, w')"
  shows "loop_post (request_ok meth (''https://api-futures.kucoin.com'' @ path)
      (or_else (get_params meth params) params) body
      (kucoin_headers env meth (kucoin_sign_path meth path params) (signed_body env body)))
    (0 # retry_delays) r w w'"
  using assms unfolding kucoin_request_def kucoin_attempts_eq
  by (rule attempts_post [rotated])
     (auto simp: kucoin_mk_def kucoin_signed_headers_def clock_ms_def request_ok_def kucoin_headers_def
       Let_def)

text \<open>The requests of one placement; \<open>key\<close> names the field that carries the client's id.\<close>

definition placement_post :: "string \<Rightarrow> (json \<Rightarrow> int \<Rightarrow> (string, string) dict) \<Rightarrow> order_request \<Rightarrow>
    placed_order res \<Rightarrow> http \<Rightarrow> http \<Rightarrow> bool" where
  "placement_post key headers req r w w' \<longleftrightarrow>
     (\<exists>new body flds. ht_sent w' = ht_sent w @ new \<and> 1 \<le> length new \<and> length new \<le> 4 \<and>
        body = JObj flds \<and> fst (hd flds) \<in> {''category'', ''clientOid''} \<and>
        (\<exists>s. snd (hd flds) = JStr s) \<and> flds \<noteq> [] \<and>
        (or_client_order_id req \<noteq> [] \<longrightarrow> map_of flds key = Some (JStr (or_client_order_id req))) \<and>
        (\<forall>rq\<in>set new. rq_method rq = ''POST'' \<and> rq_json rq = Some body \<and>
           (\<exists>t. rq_headers rq = headers body t)) \<and>
        (\<forall>i. i + 1 < length new \<longrightarrow> transient (ht_outcome w (length (ht_sent w) + i))) \<and>
        (transient (ht_outcome w (length (ht_sent w) + (length new - 1))) \<longrightarrow>
           length new = 4 \<and> r = Inl ExchangeRESTError) \<and>
        ht_slept w' = ht_slept w @ take (length new - 1) retry_delays)"

lemma take_delays: "1 \<le> n \<Longrightarrow> n \<le> 4 \<Longrightarrow>
  filter (\<lambda>d. 0 < d) (take n (0 # retry_delays)) = take (n - 1) retry_delays"
proof -
  assume "1 \<le> n" "n \<le> 4"
  then have "n \<in> {1, 2, 3, 4}" by auto
  then show ?thesis by (auto simp: retry_delays_def)
qed

lemma placement_from_request:
  assumes post: "loop_post (request_ok ''POST'' url params (Some body) headers) (0 # retry_delays) r0 w1 w2"
    and uuid: "ht_sent w1 = ht_sent w" "ht_slept w1 = ht_slept w" "ht_outcome w1 = ht_outcome w"
    and fin: "(case r0 of Inl e \<Rightarrow> (Inl e, w2) | Inr data \<Rightarrow> placed_of env req data w2) = (r, w')"
    and body: "body = JObj flds" "fst (hd flds) \<in> {''category'', ''clientOid''}"
      "\<exists>s. snd (hd flds) = JStr s" "flds \<noteq> []"
      "or_client_order_id req \<noteq> [] \<Longrightarrow> map_of flds key = Some (JStr (or_client_order_id req))"
    and headers: "headers = hs body"
  shows "placement_post key hs req r w w'"
proof -
  have four: "length (0 # retry_delays) = 4" by (simp add: retry_delays_def)
  from post [unfolded loop_post_def four] obtain new where n:
    "ht_sent w2 = ht_sent w1 @ new" "length new \<le> 4"
    "list_all (request_ok ''POST'' url params (Some body) headers) new" "new \<noteq> []"
    "\<forall>i. i + 1 < length new \<longrightarrow> transient (ht_outcome w1 (length (ht_sent w1) + i))"
    "new \<noteq> [] \<and> transient (ht_outcome w1 (length (ht_sent w1) + (length new - 1))) \<longrightarrow>
       length new = 4 \<and> r0 = Inl ExchangeRESTError"
    "ht_slept w2 = ht_slept w1 @ filter (\<lambda>d. 0 < d) (take (length new) (0 # retry_delays))"
    by blast
  have len: "1 \<le> length new" using n(4) by (cases new) auto
  have w': "ht_sent w' = ht_sent w2 \<and> ht_slept w' = ht_slept w2"
    using fin placed_of_world by (cases r0) auto
  have r: "r0 = Inl ExchangeRESTError \<Longrightarrow> r = Inl ExchangeRESTError" using fin by auto
  show ?thesis unfolding placement_post_def
    using n uuid w' r len body headers take_delays [OF len n(2)]
    by (intro exI [of _ new] exI [of _ body] exI [of _ flds])
       (auto simp: list_all_iff request_ok_def)
qed

lemma hbind_case:
  "hbind (r0, w2) f = (case r0 of Inl e \<Rightarrow> (Inl e, w2) | Inr x \<Rightarrow> f x w2)"
  by (simp add: hbind_def split: sum.split)

lemma bybit_placement:
  assumes "bybit_place_order env req w = (r, w')"
  shows "placement_post ''orderLinkId''
    (\<lambda>body t. bybit_signed_headers env (int_str t) ''5000'' (signed_body env (Some body))) req r w w'"
proof -
  obtain link w1 where u: "or_uuid (or_client_order_id req) w = (link, w1)" by fastforce
  obtain r0 w2 where q: "bybit_request env ''POST'' ''/v5/order/create'' None
      (Some (bybit_order_body env req link)) w1 = (r0, w2)" by fastforce
  have fin: "(case r0 of Inl e \<Rightarrow> (Inl e, w2) | Inr data \<Rightarrow> placed_of env req data w2) = (r, w')"
    using assms by (simp add: bybit_place_order_def u q hbind_case)
  note w1 = or_uuid_world [OF u]
  show ?thesis
    by (rule placement_from_request [OF bybit_request_post [OF q] _ _ _ fin])
       (use w1 in \<open>auto simp: bybit_order_body_def bybit_payload_def get_params_def\<close>)
qed

lemma kucoin_placement:
  assumes "kucoin_place_order env req w = (r, w')"
  shows "placement_post ''clientOid''
    (\<lambda>body. kucoin_headers env ''POST'' ''/api/v1/orders'' (signed_body env (Some body))) req r w w'"
proof -
  obtain link w1 where u: "or_uuid (or_client_order_id req) w = (link, w1)" by fastforce
  obtain r0 w2 where q: "kucoin_request env ''POST'' ''/api/v1/orders'' None
      (Some (kucoin_order_body env req link)) w1 = (r0, w2)" by fastforce
  have fin: "(case r0 of Inl e \<Rightarrow> (Inl e, w2) | Inr data \<Rightarrow> placed_of env req data w2) = (r, w')"
    using assms by (simp add: kucoin_place_order_def u q hbind_case)
  note w1 = or_uuid_world [OF u]
  show ?thesis
    by (rule placement_from_request [OF kucoin_request_post [OF q] _ _ _ fin])
       (use w1 in \<open>auto simp: kucoin_order_body_def kucoin_sign_path_def get_params_def\<close>)
qed

section \<open>Properties\<close>

text \<open>
  C10. Retrying an order cannot place it twice under two identities: on both exchanges one call of
  \<open>place_order\<close> sends between one and four POST requests, all with the same JSON body, which carries
  the caller's client id when it is not empty; it goes on after a server error or a transport error
  only, waits 1, 2 and 4 seconds, and reports an error when the fourth attempt still fails so.
\<close>

theorem order_retries_idempotent:
  assumes "place = bybit_place_order env \<and> key = ''orderLinkId'' \<or>
           place = kucoin_place_order env \<and> key = ''clientOid''"
    and "place req w = (r, w')"
  shows "\<exists>new flds. ht_sent w' = ht_sent w @ new \<and> 1 \<le> length new \<and> length new \<le> 4 \<and>
     (\<forall>rq\<in>set new. rq_method rq = ''POST'' \<and> rq_json rq = Some (JObj flds)) \<and>
     (or_client_order_id req \<noteq> [] \<longrightarrow> map_of flds key = Some (JStr (or_client_order_id req))) \<and>
     (\<forall>i. i + 1 < length new \<longrightarrow> transient (ht_outcome w (length (ht_sent w) + i))) \<and>
     (transient (ht_outcome w (length (ht_sent w) + (length new - 1))) \<longrightarrow>
        length new = 4 \<and> r = Inl ExchangeRESTError) \<and>
     ht_slept w' = ht_slept w @ take (length new - 1) [1, 2, 4]"
proof -
  from assms(1) obtain hs where p: "placement_post key hs req r w w'"
  proof
    assume h: "place = bybit_place_order env \<and> key = ''orderLinkId''"
    then have "bybit_place_order env req w = (r, w')" using assms(2) by simp
    from bybit_placement [OF this] show thesis using h that by blast
  next
    assume h: "place = kucoin_place_order env \<and> key = ''clientOid''"
    then have "kucoin_place_order env req w = (r, w')" using assms(2) by simp
    from kucoin_placement [OF this] show thesis using h that by blast
  qed
  from p [unfolded placement_post_def retry_delays_def] obtain new body flds where
    n: "ht_sent w' = ht_sent w @ new" "1 \<le> length new" "length new \<le> 4" "body = JObj flds"
    and c: "or_client_order_id req \<noteq> [] \<longrightarrow> map_of flds key = Some (JStr (or_client_order_id req))"
    and q: "\<forall>rq\<in>set new. rq_method rq = ''POST'' \<and> rq_json rq = Some body \<and> (\<exists>t. rq_headers rq = hs body t)"
    and t: "\<forall>i. i + 1 < length new \<longrightarrow> transient (ht_outcome w (length (ht_sent w) + i))"
    and l: "transient (ht_outcome w (length (ht_sent w) + (length new - 1))) \<longrightarrow>
        length new = 4 \<and> r = Inl ExchangeRESTError"
    and d: "ht_slept w' = ht_slept w @ take (length new - 1) [1, 2, 4]"
    by blast
  have q': "\<forall>rq\<in>set new. rq_method rq = ''POST'' \<and> rq_json rq = Some (JObj flds)"
    using q n(4) by simp
  show ?thesis by (rule exI [of _ new], rule exI [of _ flds], intro conjI)
      (fact n(1) n(2) n(3) q' c t l d)+
qed

definition sample_env :: rest_env where
  "sample_env = \<lparr>re_mac = (\<lambda>k m. k @ m), re_mac64 = (\<lambda>k m. k @ m), re_repr = (\<lambda>_. ''0.01''),
     re_other = (\<lambda>_. []), re_creds = \<lparr>kucoin_api_key = ''kk'', kucoin_api_secret = ''ks'',
     kucoin_api_passphrase = ''kp'', bybit_api_key = ''bk'', bybit_api_secret = ''bs''\<rparr>\<rparr>"

definition sample_world :: "http_outcome list \<Rightarrow> http" where
  "sample_world os = \<lparr>ht_outcome = (\<lambda>n. if n < length os then os ! n else HttpError ''down''),
     ht_clock = (\<lambda>n. 1000 + int n), ht_uuid = (\<lambda>n. ''u''), ht_ticks = 0, ht_ids = 0, ht_sent = [],
     ht_slept = [], ht_log = []\<rparr>"

definition accepted :: http_outcome where
  "accepted = HttpResp 200 (Inr (JObj [(''retCode'', JInt 0), (''result'', JObj [(''orderId'', JStr ''o1'')])]))"

theorem order_retries_idempotent_witness:
  "\<exists>new flds. ht_sent (snd (bybit_place_order sample_env sample_order
       (sample_world [HttpError ''reset'', HttpResp 503 (Inr JNull), accepted]))) = new \<and>
     1 \<le> length new \<and> length new \<le> 4 \<and> map_of flds ''orderLinkId'' = Some (JStr ''c1'') \<and>
     (\<forall>rq\<in>set new. rq_json rq = Some (JObj flds))"
proof -
  let ?w = "sample_world [HttpError ''reset'', HttpResp 503 (Inr JNull), accepted]"
  obtain r w' where e: "bybit_place_order sample_env sample_order ?w = (r, w')" by fastforce
  have c: "or_client_order_id sample_order = ''c1''" "ht_sent ?w = []"
    by (simp_all add: sample_order_def sample_world_def)
  have p: "bybit_place_order sample_env = bybit_place_order sample_env \<and> ''orderLinkId'' = ''orderLinkId'' \<or>
      bybit_place_order sample_env = kucoin_place_order sample_env \<and> ''orderLinkId'' = ''clientOid''"
    by simp
  from order_retries_idempotent [OF p e] c show ?thesis
    unfolding e by auto
qed

lemma placement_headers:
  assumes "placement_post key hs req r w w'"
    and "rq \<in> set (drop (length (ht_sent w)) (ht_sent (snd (place req w))))" "place req w = (r, w')"
  obtains flds t where "rq_json rq = Some (JObj flds)" "flds \<noteq> []" "\<exists>s. snd (hd flds) = JStr s"
    "rq_headers rq = hs (JObj flds) t"
proof -
  from assms(1) [unfolded placement_post_def] obtain new body flds where
    n: "ht_sent w' = ht_sent w @ new" "body = JObj flds" "\<exists>s. snd (hd flds) = JStr s" "flds \<noteq> []"
    "\<forall>rq\<in>set new. rq_method rq = ''POST'' \<and> rq_json rq = Some body \<and> (\<exists>t. rq_headers rq = hs body t)"
    by blast
  have "rq \<in> set new" using assms(2,3) n(1) by simp
  with n that show thesis by auto
qed

lemma dumps_not_compact:
  "json_text fr '', '' '': '' (JObj ((k, JStr s) # d)) \<noteq> json_text fr '','' '':'' (JObj ((k, JStr s) # d))"
proof -
  have q: "char_of (34::nat) \<noteq> CHR '' ''" by code_simp
  then have "CHR '' '' # x \<noteq> quote s @ y" for x y by (auto simp: quote_def)
  then show ?thesis using q by (cases d) (auto simp: quote_def)
qed

text \<open>
  Orders are signed over another text than the one sent: \<open>_request\<close> signs
  \<open>json.dumps(body)\<close>, with a blank after each comma and colon, and hands the dictionary to httpx, which
  encodes JSON compactly (since 0.28, the version the project pins). So on both exchanges the signature
  of every order request covers a text different from the request's body, and for an empty body
  (KuCoin's \<open>bullet-private\<close>) the empty text is signed and \<open>{}\<close> is sent.
\<close>

theorem order_signature_over_unsent_text:
  fixes httpx_json :: "json \<Rightarrow> string"
  assumes compact: "\<And>j. httpx_json j = json_text (re_repr env) '','' '':'' j"
  shows "(\<forall>rq. rq \<in> set (drop (length (ht_sent w)) (ht_sent (snd (bybit_place_order env req w)))) \<longrightarrow>
       (\<exists>t body signed_text. rq_json rq = Some body \<and> signed_text \<noteq> httpx_json body \<and>
          map_of (rq_headers rq) ''X-BAPI-TIMESTAMP'' = Some t \<and>
          map_of (rq_headers rq) ''X-BAPI-SIGN'' = Some (re_mac env (bybit_api_secret (re_creds env))
             (t @ bybit_api_key (re_creds env) @ ''5000'' @ signed_text)))) \<and>
    (\<forall>rq. rq \<in> set (drop (length (ht_sent w)) (ht_sent (snd (kucoin_place_order env req w)))) \<longrightarrow>
       (\<exists>t body signed_text. rq_json rq = Some body \<and> signed_text \<noteq> httpx_json body \<and>
          map_of (rq_headers rq) ''KC-API-TIMESTAMP'' = Some t \<and>
          map_of (rq_headers rq) ''KC-API-SIGN'' = Some (re_mac64 env (kucoin_api_secret (re_creds env))
             (t @ ''POST'' @ ''/api/v1/orders'' @ signed_text)))) \<and>
    signed_body env (Some (JObj [])) \<noteq> httpx_json (JObj [])"
proof (intro conjI allI impI)
  have differ: "signed_body env (Some (JObj flds)) \<noteq> httpx_json (JObj flds)"
    if "flds \<noteq> []" "\<exists>s. snd (hd flds) = JStr s" for flds
    using that dumps_not_compact [of "re_repr env"]
    by (cases flds) (auto simp: signed_body_def jtruthy_def json_dumps_def compact)
  show "signed_body env (Some (JObj [])) \<noteq> httpx_json (JObj [])"
    by (simp add: signed_body_def jtruthy_def compact)
  fix rq
  {
    assume a: "rq \<in> set (drop (length (ht_sent w)) (ht_sent (snd (bybit_place_order env req w))))"
    obtain r w' where e: "bybit_place_order env req w = (r, w')" by fastforce
    from bybit_placement [OF e] a e obtain flds t where f: "rq_json rq = Some (JObj flds)" "flds \<noteq> []"
      "\<exists>s. snd (hd flds) = JStr s"
      "rq_headers rq = bybit_signed_headers env (int_str t) ''5000'' (signed_body env (Some (JObj flds)))"
      by (rule placement_headers)
    show "\<exists>t body signed_text. rq_json rq = Some body \<and> signed_text \<noteq> httpx_json body \<and>
          map_of (rq_headers rq) ''X-BAPI-TIMESTAMP'' = Some t \<and>
          map_of (rq_headers rq) ''X-BAPI-SIGN'' = Some (re_mac env (bybit_api_secret (re_creds env))
             (t @ bybit_api_key (re_creds env) @ ''5000'' @ signed_text))"
      using f differ [OF f(2,3)]
      by (intro exI [of _ "int_str t"] exI [of _ "JObj flds"] exI [of _ "signed_body env (Some (JObj flds))"])
         (simp add: bybit_signed_headers_def Let_def sign_bybit_def)
  next
    assume a: "rq \<in> set (drop (length (ht_sent w)) (ht_sent (snd (kucoin_place_order env req w))))"
    obtain r w' where e: "kucoin_place_order env req w = (r, w')" by fastforce
    from kucoin_placement [OF e] a e obtain flds t where f: "rq_json rq = Some (JObj flds)" "flds \<noteq> []"
      "\<exists>s. snd (hd flds) = JStr s" "rq_headers rq = kucoin_headers env ''POST'' ''/api/v1/orders''
         (signed_body env (Some (JObj flds))) t"
      by (rule placement_headers)
    have u: "upper ''POST'' = ''POST''" by code_simp
    show "\<exists>t body signed_text. rq_json rq = Some body \<and> signed_text \<noteq> httpx_json body \<and>
          map_of (rq_headers rq) ''KC-API-TIMESTAMP'' = Some t \<and>
          map_of (rq_headers rq) ''KC-API-SIGN'' = Some (re_mac64 env (kucoin_api_secret (re_creds env))
             (t @ ''POST'' @ ''/api/v1/orders'' @ signed_text))"
      using f differ [OF f(2,3)]
      by (intro exI [of _ "int_str t"] exI [of _ "JObj flds"] exI [of _ "signed_body env (Some (JObj flds))"])
         (simp add: kucoin_headers_def kucoin_signed_headers_def Let_def sign_kucoin_def clock_ms_def u)
  }
qed

theorem order_signature_over_unsent_text_witness:
  "signed_body sample_env (Some (JObj [])) \<noteq> json_text (re_repr sample_env) '','' '':'' (JObj []) \<and>
   length (ht_sent (snd (bybit_place_order sample_env sample_order (sample_world [accepted])))) = 1"
proof -
  have "length (ht_sent (snd (bybit_place_order sample_env sample_order (sample_world [accepted])))) = 1"
    by (simp add: bybit_place_order_def or_uuid_def sample_order_def bybit_request_def hbind_def clock_ms_def
        sleep_def http_send_def sample_world_def accepted_def bybit_result_def json_zero_def dget_def
        placed_of_def jitem_def Let_def split: prod.splits sum.splits)
  then show ?thesis
    using order_signature_over_unsent_text [of "json_text (re_repr sample_env) '','' '':''" sample_env]
    by blast
qed

lemma bybit_request_accepted:
  assumes "\<forall>n. ht_outcome w n = HttpResp 200 (Inr data)" "bybit_result data = Inr result"
  shows "\<exists>w'. bybit_request env meth path params body w = (Inr result, w') \<and>
    ht_outcome w' = ht_outcome w \<and> length (ht_sent w') = Suc (length (ht_sent w))"
  using assms by (simp add: bybit_request_def clock_ms_def sleep_def http_send_def Let_def)

lemma bybit_fill_pages_full:
  assumes "bybit_result data = Inr result" "bybit_page env (or_empty result) = Inr (fs, Some c, True)"
  shows "\<forall>k. ht_outcome w k = HttpResp 200 (Inr data) \<Longrightarrow>
    \<exists>w'. bybit_fill_pages env sy since_ms n cursor fills w = (Inr (fills @ concat (replicate n fs)), w') \<and>
      length (ht_sent w') = n + length (ht_sent w)"
proof (induction n arbitrary: cursor fills w)
  case (Suc n)
  obtain w1 where r: "bybit_request env ''GET'' ''/v5/order/history''
      (Some (bybit_fills_params sy since_ms cursor)) None w = (Inr result, w1)"
    and w1: "ht_outcome w1 = ht_outcome w" "length (ht_sent w1) = Suc (length (ht_sent w))"
    using bybit_request_accepted [OF Suc.prems assms(1)] by blast
  obtain w2 where "bybit_fill_pages env sy since_ms n (Some c) (fills @ fs) w1 =
      (Inr ((fills @ fs) @ concat (replicate n fs)), w2)" "length (ht_sent w2) = n + length (ht_sent w1)"
    using Suc.IH [of w1 "Some c" "fills @ fs"] Suc.prems w1 by auto
  then show ?case using w1 by (simp add: r hbind_case assms(2))
qed simp

text \<open>
  The fill history is cut off silently: when the exchange keeps announcing a further page,
  \<open>get_recent_fills\<close> stops after 100 pages and returns normally, although its documentation says it
  returns all fills since \<open>since_ms\<close>.
\<close>

theorem bybit_fills_truncated:
  assumes "\<forall>k. ht_outcome w k = HttpResp 200 (Inr data)"
    and "bybit_result data = Inr result" and "bybit_page env (or_empty result) = Inr (fs, Some c, True)"
  shows "fst (bybit_get_recent_fills env sy since_ms w) = Inr (concat (replicate 100 fs)) \<and>
    length (ht_sent (snd (bybit_get_recent_fills env sy since_ms w))) = 100 + length (ht_sent w)"
  using bybit_fill_pages_full [OF assms(2,3,1), of sy since_ms 100 None "[]"]
  by (auto simp: bybit_get_recent_fills_def)

definition endless :: json where
  "endless = JObj [(''list'', JList [JObj [(''orderStatus'', JStr ''Filled''), (''orderId'', JStr ''o1'')]]),
                   (''nextPageCursor'', JStr ''c'')]"

theorem bybit_fills_truncated_witness:
  "\<exists>fs. length fs = 1 \<and>
     fst (bybit_get_recent_fills sample_env [] 0
       ((sample_world [])\<lparr>ht_outcome := \<lambda>_. HttpResp 200 (Inr (JObj [(''result'', endless)]))\<rparr>)) =
     Inr (concat (replicate 100 fs))"
proof -
  let ?w = "(sample_world [])\<lparr>ht_outcome := \<lambda>_. HttpResp 200 (Inr (JObj [(''result'', endless)]))\<rparr>"
  have r: "bybit_result (JObj [(''result'', endless)]) = Inr endless"
    by (simp add: bybit_result_def dget_def json_zero_def)
  have z: "of_int_f64 0 = Fin 0" "is_fin (Fin 0)" by (simp_all add: of_int_f64_def is_fin_def)
  have s: "strip ''c'' = ''c''" by code_simp
  obtain fs where p: "bybit_page sample_env (or_empty endless) = Inr (fs, Some ''c'', True)" "length fs = 1"
    by (simp add: bybit_page_def endless_def or_empty_def jtruthy_def dget_def jiter_def bybit_fill_def
        fill_status_def jfloat_def jint_def z s next_cursor_def somes_def)
  have "\<forall>k. ht_outcome ?w k = HttpResp 200 (Inr (JObj [(''result'', endless)]))" by simp
  from bybit_fills_truncated [OF this r p(1), of "[]" 0] p(2) show ?thesis by blast
qed

text \<open>
  The error texts written to the log can still leak a credential: \<open>_request\<close> cuts the text to 200
  characters before redacting it, so a credential that straddles the cut loses its last character,
  is no longer recognised, and everything but that character is logged.
\<close>

theorem truncated_log_leaks:
  assumes "s \<in> set (secrets (re_creds env))" and "s \<noteq> []" and "length pre = 201 - length s"
    and "length s \<le> 201"
    and "\<forall>s'\<in>set (secrets (re_creds env)). s' = [] \<or> \<not> sublist s' (pre @ butlast s)"
  shows "sublist (butlast s) (last (ht_log (http_warn env (pre @ s) w)))"
proof -
  have t: "take 200 (pre @ s) = pre @ butlast s"
  proof -
    have "take (200 - length pre) s = butlast s"
      using assms(2-4) by (cases "length s") (simp_all add: butlast_conv_take)
    moreover have "length pre \<le> 200" using assms(2,3,4) by (cases s) auto
    ultimately show ?thesis by simp
  qed
  have "fold (\<lambda>s result. if s \<noteq> [] \<and> sublist s result then replace_all s redacted result else result)
      ss (pre @ butlast s) = pre @ butlast s" if "set ss \<subseteq> set (secrets (re_creds env))" for ss
    using that assms(5) by (induction ss) auto
  then have e: "scrub_for_error (re_creds env) (take 200 (pre @ s)) = pre @ butlast s"
    unfolding scrub_for_error_def t by blast
  show ?thesis unfolding http_warn_def e by simp
qed

theorem truncated_log_leaks_witness:
  "sublist ''b'' (last (ht_log (http_warn sample_env (replicate 199 (CHR ''x'') @ ''bs'') (sample_world []))))"
proof -
  have b: "butlast ''bs'' = ''b''" by simp
  have n: "\<not> sublist s' (replicate 199 (CHR ''x'') @ ''b'')"
    if "s' \<in> {''kk'', ''ks'', ''kp'', ''bk'', ''bs''}" for s'
  proof -
    have "set s' \<inter> {CHR ''k'', CHR ''s''} \<noteq> {}" using that by auto
    moreover have "set (replicate 199 (CHR ''x'') @ ''b'') \<inter> {CHR ''k'', CHR ''s''} = {}" by auto
    ultimately show ?thesis using set_mono_sublist by fastforce
  qed
  show ?thesis
    using truncated_log_leaks [of "''bs''" sample_env "replicate 199 (CHR ''x'')" "sample_world []"] n
    by (simp add: b sample_env_def secrets_def)
qed

end
