(* ===== verification/Ws_Feed.thy ===== *)
theory Ws_Feed
  imports Rest
begin

text \<open>
  The private fill feeds (\<open>exchange/bybit/ws_private.py\<close>, \<open>exchange/kucoin/ws_private.py\<close>): parsing
  of WebSocket messages, delivery with deduplication by order id, the REST poll fallback, the
  liveness check that starts and stops it, and the reconnect loop. The delivery callback
  \<open>on_fill\<close> is an argument over a state of its own: what it is called with shows in that state alone.
  What the two classes share is stated once, in the locale \<open>fill_feed\<close>.
\<close>

section \<open>State\<close>

record feed =
  fd_exchange :: string
  fd_last_msg_ts :: rat
  fd_last_fill_ts_ms :: int
  fd_auth_failure_count :: nat
  fd_seen_fill_ids :: "string set"
  fd_fallback_active :: bool
  fd_fallback_task :: bool         \<comment> \<open>a fallback task exists and still polls\<close>
  fd_metrics :: "mcall list"

type_synonym 's on_fill = "order_filled \<Rightarrow> 's \<Rightarrow> unit res \<times> 's"

definition feed_init :: "string \<Rightarrow> rat \<Rightarrow> feed" where
  "feed_init exchange now =
     \<lparr>fd_exchange = exchange, fd_last_msg_ts = now, fd_last_fill_ts_ms = 0, fd_auth_failure_count = 0,
      fd_seen_fill_ids = {}, fd_fallback_active = False, fd_fallback_task = False,
      fd_metrics = []\<rparr>"

definition feed_metric :: "mcall \<Rightarrow> feed \<Rightarrow> feed" where
  "feed_metric c fd = fd\<lparr>fd_metrics := fd_metrics fd @ [c]\<rparr>"

definition is_silent :: "rat \<Rightarrow> rat \<Rightarrow> feed \<Rightarrow> bool" where
  "is_silent now timeout_s fd \<longleftrightarrow> now - fd_last_msg_ts fd > timeout_s"

definition mark_seen :: "order_filled \<Rightarrow> feed \<Rightarrow> feed" where
  "mark_seen fill fd =
     fd\<lparr>fd_seen_fill_ids := insert (of_order_id fill) (fd_seen_fill_ids fd)\<rparr>"

section \<open>Bybit\<close>

definition bybit_parse_fills :: "rest_env \<Rightarrow> feed \<Rightarrow> json \<Rightarrow> order_filled list res" where
  "bybit_parse_fills env fd msg =
     rbind (jget msg ''topic'' JNull) (\<lambda>topic.
     if topic \<noteq> JStr ''order'' then Inr []
     else rbind (jget msg ''data'' (JList [])) (\<lambda>data.
          rbind (jiter data) (\<lambda>items.
          rbind (rmap (bybit_fill env [''Filled'', ''PartiallyFilled''] (fd_exchange fd)) items) (\<lambda>fs.
            Inr (somes fs)))))"

definition bybit_handle_ws_fill :: "'s on_fill \<Rightarrow> order_filled \<Rightarrow> feed \<times> 's \<Rightarrow> unit res \<times> feed \<times> 's" where
  "bybit_handle_ws_fill on_fill fill st =
     (case st of (fd, s) \<Rightarrow>
        if of_order_id fill \<in> fd_seen_fill_ids fd then
          (Inr (), feed_metric (IncFillDedup (fd_exchange fd)) fd, s)
        else let fd1 = mark_seen fill fd in
          case on_fill fill s of
            (Inl e, s') \<Rightarrow> (Inl e, fd1, s')
          | (Inr _, s') \<Rightarrow>
              (Inr (), if of_ts_exchange fill > 0 then fd1\<lparr>fd_last_fill_ts_ms := of_ts_exchange fill\<rparr> else fd1, s'))"

fun bybit_poll_fills :: "'s on_fill \<Rightarrow> order_filled list \<Rightarrow> feed \<times> 's \<Rightarrow> unit res \<times> feed \<times> 's" where
  "bybit_poll_fills on_fill [] st = (Inr (), st)"
| "bybit_poll_fills on_fill (fill # fills) (fd, s) =
     (if of_order_id fill \<notin> fd_seen_fill_ids fd then
        (let fd1 = mark_seen fill fd in
         case on_fill fill s of
           (Inl e, s') \<Rightarrow> (Inl e, fd1, s')
         | (Inr _, s') \<Rightarrow>
             bybit_poll_fills on_fill fills
               (if of_ts_exchange fill > fd_last_fill_ts_ms fd1
                then fd1\<lparr>fd_last_fill_ts_ms := of_ts_exchange fill\<rparr> else fd1, s'))
      else bybit_poll_fills on_fill fills (feed_metric (IncFillDedup (fd_exchange fd)) fd, s))"

definition poll_since :: "int \<Rightarrow> feed \<Rightarrow> int" where
  "poll_since now_ms fd =
     (if fd_last_fill_ts_ms fd > 0 then fd_last_fill_ts_ms fd else now_ms - 1800000)"

text \<open>
  One round of \<open>_run_rest_fallback\<close>; \<open>answer\<close> is what \<open>get_recent_fills\<close> gives. Only the REST error is
  caught: any other exception ends the task.
\<close>

definition bybit_fallback_round ::
  "'s on_fill \<Rightarrow> (int \<Rightarrow> order_filled list res) \<Rightarrow> int \<Rightarrow> feed \<times> 's \<Rightarrow> feed \<times> 's" where
  "bybit_fallback_round on_fill answer now_ms st =
     (case st of (fd, s) \<Rightarrow>
        if \<not> (fd_fallback_task fd \<and> fd_fallback_active fd) then (fd\<lparr>fd_fallback_task := False\<rparr>, s)
        else case answer (poll_since now_ms fd) of
            Inl e \<Rightarrow> (if e = ExchangeRESTError then fd else fd\<lparr>fd_fallback_task := False\<rparr>, s)
          | Inr fills \<Rightarrow>
              (case bybit_poll_fills on_fill (sort_key of_ts_exchange fills) (fd, s) of
                 (Inr _, fd1, s1) \<Rightarrow> (fd1, s1)
               | (Inl e, fd1, s1) \<Rightarrow>
                   (if e = ExchangeRESTError then fd1 else fd1\<lparr>fd_fallback_task := False\<rparr>, s1)))"

definition bybit_liveness_tick :: "rat \<Rightarrow> rat \<Rightarrow> feed \<Rightarrow> feed" where
  "bybit_liveness_tick now timeout_s fd =
     (if is_silent now timeout_s fd \<and> \<not> fd_fallback_active fd then
        (feed_metric (SetWsFallback (fd_exchange fd) True) (fd\<lparr>fd_fallback_active := True\<rparr>))
          \<lparr>fd_fallback_task := True\<rparr>
      else if \<not> is_silent now timeout_s fd \<and> fd_fallback_active fd then
        (feed_metric (SetWsFallback (fd_exchange fd) False) (fd\<lparr>fd_fallback_active := False\<rparr>))
          \<lparr>fd_fallback_task := False\<rparr>
      else fd)"

text \<open>The \<open>finally\<close> of the liveness checker, at the end of a session.\<close>

definition bybit_liveness_end :: "feed \<Rightarrow> feed" where
  "bybit_liveness_end fd =
     (let fd1 = fd\<lparr>fd_fallback_task := False\<rparr> in
      if fd_fallback_active fd1
      then feed_metric (SetWsFallback (fd_exchange fd1) False) (fd1\<lparr>fd_fallback_active := False\<rparr>)
      else fd1)"

definition bybit_auth_reply :: "bool \<Rightarrow> rat \<Rightarrow> feed \<Rightarrow> unit res \<times> feed" where
  "bybit_auth_reply success now fd =
     (if \<not> success then
        let fd1 = fd\<lparr>fd_auth_failure_count := Suc (fd_auth_failure_count fd)\<rparr> in
        if fd_auth_failure_count fd1 \<ge> 5 then (Inl RuntimeError, fd1\<lparr>fd_auth_failure_count := 0\<rparr>)
        else (Inl ExchangeRESTError, fd1)
      else (Inr (), fd\<lparr>fd_auth_failure_count := 0, fd_last_msg_ts := now\<rparr>))"

fun bybit_ws_fills :: "'s on_fill \<Rightarrow> order_filled list \<Rightarrow> feed \<times> 's \<Rightarrow> unit res \<times> feed \<times> 's" where
  "bybit_ws_fills on_fill [] st = (Inr (), st)"
| "bybit_ws_fills on_fill (f # fs) st =
     (case bybit_handle_ws_fill on_fill f st of
        (Inl e, st') \<Rightarrow> (Inl e, st')
      | (Inr _, st') \<Rightarrow> bybit_ws_fills on_fill fs st')"

definition bybit_message :: "rest_env \<Rightarrow> 's on_fill \<Rightarrow> rat \<Rightarrow> json \<Rightarrow> feed \<times> 's \<Rightarrow> unit res \<times> feed \<times> 's" where
  "bybit_message env on_fill now msg st =
     (case st of (fd, s) \<Rightarrow>
        let fd1 = fd\<lparr>fd_last_msg_ts := now\<rparr> in
        case bybit_parse_fills env fd1 msg of
          Inl e \<Rightarrow> (Inl e, fd1, s)
        | Inr fs \<Rightarrow> bybit_ws_fills on_fill fs (fd1, s))"

section \<open>KuCoin\<close>

definition kucoin_parse_fill :: "rest_env \<Rightarrow> feed \<Rightarrow> json \<Rightarrow> order_filled option res" where
  "kucoin_parse_fill env fd data =
     rbind (jget data ''type'' JNull) (\<lambda>ty.
     if ty \<noteq> JStr ''filled'' then Inr None else
     rbind (jget data ''orderId'' (JStr [])) (\<lambda>oid.
     rbind (jget data ''symbol'' (JStr [])) (\<lambda>y.
     rbind (jget data ''side'' (JStr [])) (\<lambda>sd.
     rbind (rbind (jget data ''matchPrice'' (JInt 0)) jfloat) (\<lambda>pr.
     rbind (rbind (jget data ''matchSize'' (JInt 0)) jfloat) (\<lambda>sz.
     rbind (rbind (jget data ''fee'' (JInt 0)) jfloat) (\<lambda>fee.
     rbind (rbind (jget data ''tradeTime'' (JInt 0)) jint) (\<lambda>ts.
       Inr (Some \<lparr>of_order_id = jstr (re_other env) oid, of_exchange = fd_exchange fd,
                  of_symbol = jstr (re_other env) y, of_side = jstr (re_other env) sd,
                  of_fill_price = pr, of_fill_size = sz, of_fee = fee, of_ts_exchange = ts\<rparr>)))))))))"

definition kucoin_handle_ws_fill :: "'s on_fill \<Rightarrow> order_filled \<Rightarrow> feed \<times> 's \<Rightarrow> unit res \<times> feed \<times> 's" where
  "kucoin_handle_ws_fill on_fill fill st =
     (case st of (fd, s) \<Rightarrow>
        if of_order_id fill \<in> fd_seen_fill_ids fd then
          (Inr (), feed_metric (IncFillDedup (fd_exchange fd)) fd, s)
        else let fd1 = mark_seen fill fd in
          case on_fill fill s of
            (Inl e, s') \<Rightarrow> (Inl e, fd1, s')
          | (Inr _, s') \<Rightarrow>
              (Inr (), if of_ts_exchange fill > 0 then fd1\<lparr>fd_last_fill_ts_ms := of_ts_exchange fill\<rparr> else fd1, s'))"

fun kucoin_poll_fills :: "'s on_fill \<Rightarrow> order_filled list \<Rightarrow> feed \<times> 's \<Rightarrow> unit res \<times> feed \<times> 's" where
  "kucoin_poll_fills on_fill [] st = (Inr (), st)"
| "kucoin_poll_fills on_fill (fill # fills) (fd, s) =
     (if of_order_id fill \<notin> fd_seen_fill_ids fd then
        (let fd1 = mark_seen fill fd in
         case on_fill fill s of
           (Inl e, s') \<Rightarrow> (Inl e, fd1, s')
         | (Inr _, s') \<Rightarrow>
             kucoin_poll_fills on_fill fills
               (if of_ts_exchange fill > fd_last_fill_ts_ms fd1
                then fd1\<lparr>fd_last_fill_ts_ms := of_ts_exchange fill\<rparr> else fd1, s'))
      else kucoin_poll_fills on_fill fills (feed_metric (IncFillDedup (fd_exchange fd)) fd, s))"

definition kucoin_fallback_round ::
  "'s on_fill \<Rightarrow> (int \<Rightarrow> order_filled list res) \<Rightarrow> int \<Rightarrow> feed \<times> 's \<Rightarrow> feed \<times> 's" where
  "kucoin_fallback_round on_fill answer now_ms st =
     (case st of (fd, s) \<Rightarrow>
        if \<not> (fd_fallback_task fd \<and> fd_fallback_active fd) then (fd\<lparr>fd_fallback_task := False\<rparr>, s)
        else case answer (poll_since now_ms fd) of
            Inl e \<Rightarrow> (if e = ExchangeRESTError then fd else fd\<lparr>fd_fallback_task := False\<rparr>, s)
          | Inr fills \<Rightarrow>
              (case kucoin_poll_fills on_fill (sort_key of_ts_exchange fills) (fd, s) of
                 (Inr _, fd1, s1) \<Rightarrow> (fd1, s1)
               | (Inl e, fd1, s1) \<Rightarrow>
                   (if e = ExchangeRESTError then fd1 else fd1\<lparr>fd_fallback_task := False\<rparr>, s1)))"

definition kucoin_liveness_tick :: "rat \<Rightarrow> rat \<Rightarrow> feed \<Rightarrow> feed" where
  "kucoin_liveness_tick now timeout_s fd =
     (if is_silent now timeout_s fd \<and> \<not> fd_fallback_active fd then
        (feed_metric (SetWsFallback (fd_exchange fd) True) (fd\<lparr>fd_fallback_active := True\<rparr>))
          \<lparr>fd_fallback_task := True\<rparr>
      else if \<not> is_silent now timeout_s fd \<and> fd_fallback_active fd then
        (feed_metric (SetWsFallback (fd_exchange fd) False) (fd\<lparr>fd_fallback_active := False\<rparr>))
          \<lparr>fd_fallback_task := False\<rparr>
      else fd)"

definition kucoin_liveness_end :: "feed \<Rightarrow> feed" where
  "kucoin_liveness_end fd =
     (let fd1 = fd\<lparr>fd_fallback_task := False\<rparr> in
      if fd_fallback_active fd1
      then feed_metric (SetWsFallback (fd_exchange fd1) False) (fd1\<lparr>fd_fallback_active := False\<rparr>)
      else fd1)"

definition kucoin_message :: "rest_env \<Rightarrow> 's on_fill \<Rightarrow> rat \<Rightarrow> json \<Rightarrow> feed \<times> 's \<Rightarrow> unit res \<times> feed \<times> 's" where
  "kucoin_message env on_fill now msg st =
     (case st of (fd, s) \<Rightarrow>
        let fd1 = fd\<lparr>fd_last_msg_ts := now\<rparr> in
        case rbind (jget msg ''type'' JNull) (\<lambda>ty.
               if ty = JStr ''message'' \<and> (case msg of JObj d \<Rightarrow> map_of d ''data'' \<noteq> None | _ \<Rightarrow> False)
               then rbind (jitem msg ''data'') (kucoin_parse_fill env fd1) else Inr None) of
          Inl e \<Rightarrow> (Inl e, fd1, s)
        | Inr None \<Rightarrow> (Inr (), fd1, s)
        | Inr (Some f) \<Rightarrow> kucoin_handle_ws_fill on_fill f (fd1, s))"

definition kucoin_welcome :: "rat \<Rightarrow> feed \<Rightarrow> feed" where
  "kucoin_welcome now fd = fd\<lparr>fd_last_msg_ts := now\<rparr>"

section \<open>Reconnecting\<close>

text \<open>
  The loop of \<open>run\<close>: the list holds, per session, whether \<open>_connect_once\<close> returned (True) or raised
  (False); the result is the sleeps made. Both classes have the same loop and constants.
\<close>

fun reconnect_sleeps :: "int \<Rightarrow> bool list \<Rightarrow> int list" where
  "reconnect_sleeps backoff [] = []"
| "reconnect_sleeps backoff (ok # rest) =
     (if ok then reconnect_sleeps 1 rest
      else backoff # reconnect_sleeps (min (backoff * 2) 30) rest)"

definition feed_run_sleeps :: "bool list \<Rightarrow> int list" where
  "feed_run_sleeps sessions = reconnect_sleeps 1 sessions"

section \<open>The shared contract\<close>

















section \<open>Properties\<close>



text \<open>
  Partial fills are lost on Bybit: the feed treats \<open>PartiallyFilled\<close> as a fill and
  deduplicates by order id, so after the first partial execution of an order has been delivered, no later
  update of the same order (its remaining executions, its completion) reaches the callback.
\<close>

theorem bybit_later_executions_lost:
  assumes "bybit_parse_fills env (fd\<lparr>fd_last_msg_ts := t1\<rparr>) msg1 = Inr [f1]"
    and "g f1 s = (Inr (), s1)"
    and "bybit_message env g t1 msg1 (fd, s) = (r1, st1)"
    and "bybit_parse_fills env ((fst st1)\<lparr>fd_last_msg_ts := t2\<rparr>) msg2 = Inr [f2]"
    and "of_order_id f2 = of_order_id f1" and "of_order_id f1 \<notin> fd_seen_fill_ids fd"
  shows "snd st1 = s1 \<and> fst (bybit_message env g t2 msg2 st1) = Inr () \<and>
    snd (snd (bybit_message env g t2 msg2 st1)) = s1"
proof -
  obtain fd1 where st1: "st1 = (fd1, s1)" and fd1: "of_order_id f1 \<in> fd_seen_fill_ids fd1"
    using assms(1,2,3,6) by (auto simp: bybit_message_def bybit_handle_ws_fill_def Let_def mark_seen_def)
  show ?thesis
    using assms(4,5) fd1
    by (auto simp: st1 bybit_message_def bybit_handle_ws_fill_def Let_def feed_metric_def)
qed

definition order_msg :: "string \<Rightarrow> int \<Rightarrow> json" where
  "order_msg status qty = JObj [(''topic'', JStr ''order''), (''data'', JList [JObj
     [(''orderStatus'', JStr status), (''orderId'', JStr ''o1''), (''cumExecQty'', JInt qty)]])]"

lemma order_msg_parse:
  assumes "status \<in> set [''Filled'', ''PartiallyFilled'']" "is_fin (of_int_f64 qty)"
  shows "bybit_parse_fills env fd (order_msg status qty) =
    Inr [\<lparr>of_order_id = ''o1'', of_exchange = fd_exchange fd, of_symbol = [], of_side = [],
          of_fill_price = Fin 0, of_fill_size = of_int_f64 qty, of_fee = Fin 0, of_ts_exchange = 0\<rparr>]"
proof -
  have z: "of_int_f64 0 = Fin 0" "is_fin (Fin 0)" by (simp_all add: of_int_f64_def is_fin_def)
  show ?thesis
    using assms by (auto simp: bybit_parse_fills_def order_msg_def dget_def jiter_def bybit_fill_def
        fill_status_def jstr_def jfloat_def jint_def z lower_def somes_def)
qed

theorem bybit_later_executions_lost_witness:
  "map of_fill_size (snd (snd (bybit_message sample_env (\<lambda>f calls. (Inr (), calls @ [f])) 2
      (order_msg ''Filled'' 5)
      (snd (bybit_message sample_env (\<lambda>f calls. (Inr (), calls @ [f])) 1 (order_msg ''PartiallyFilled'' 2)
        (feed_init ''bybit'' 0, [])))))) = [of_int_f64 2]"
proof -
  let ?g = "\<lambda>f calls. (Inr (), calls @ [f])" and ?fd = "feed_init ''bybit'' 0"
  obtain r1 st1 where m: "bybit_message sample_env ?g 1 (order_msg ''PartiallyFilled'' 2) (?fd, []) = (r1, st1)"
    by (meson surj_pair)
  have q: "is_fin (of_int_f64 2)" "is_fin (of_int_f64 5)"
    by (simp_all add: of_int_f64_def is_fin_def)
  let ?f = "\<lambda>q. \<lparr>of_order_id = ''o1'', of_exchange = ''bybit'', of_symbol = [], of_side = [],
          of_fill_price = Fin 0, of_fill_size = of_int_f64 q, of_fee = Fin 0, of_ts_exchange = 0\<rparr>"
  have p: "bybit_parse_fills sample_env fd (order_msg st q) = Inr [(?f q)\<lparr>of_exchange := fd_exchange fd\<rparr>]"
    if "st \<in> set [''Filled'', ''PartiallyFilled'']" "is_fin (of_int_f64 q)" for fd st q
    using order_msg_parse [OF that] by simp
  have p1: "bybit_parse_fills sample_env (?fd\<lparr>fd_last_msg_ts := 1\<rparr>) (order_msg ''PartiallyFilled'' 2) =
      Inr [?f 2]" using p [of "''PartiallyFilled''" 2] q by (simp add: feed_init_def)
  have p2: "bybit_parse_fills sample_env ((fst st1)\<lparr>fd_last_msg_ts := 2\<rparr>) (order_msg ''Filled'' 5) =
      Inr [(?f 5)\<lparr>of_exchange := fd_exchange (fst st1)\<rparr>]" using p [of "''Filled''" 5] q by simp
  have "snd (snd (bybit_message sample_env ?g 2 (order_msg ''Filled'' 5) st1)) = [?f 2]"
    using bybit_later_executions_lost [OF p1 _ m p2] by (simp add: feed_init_def)
  then show ?thesis using m by simp
qed

text \<open>
  The REST fallback can die unnoticed: it catches the REST error only, so when the callback raises
  anything else while a polled fill is applied, the polling task ends, yet the fallback stays marked active;
  while the WebSocket stays silent the liveness check does nothing and no further round polls.
\<close>

theorem bybit_fallback_dies:
  assumes "fd_fallback_active fd" and "fd_fallback_task fd"
    and "answer (poll_since t fd) = Inr [f]" and "of_order_id f \<notin> fd_seen_fill_ids fd"
    and "g f s = (Inl e, s')" and "e \<noteq> ExchangeRESTError"
    and "bybit_fallback_round g answer t (fd, s) = (fd', s'')"
  shows "fd_fallback_active fd' \<and> fd_metrics fd' = fd_metrics fd \<and>
    (\<forall>now timeout_s. is_silent now timeout_s fd' \<longrightarrow> bybit_liveness_tick now timeout_s fd' = fd') \<and>
    (\<forall>g' answer' t' u. bybit_fallback_round g' answer' t' (fd', u) = (fd', u))"
proof -
  have "fd' = (mark_seen f fd)\<lparr>fd_fallback_task := False\<rparr>"
    using assms by (auto simp: bybit_fallback_round_def Let_def)
  then show ?thesis using assms(1)
    by (auto simp: mark_seen_def bybit_liveness_tick_def bybit_fallback_round_def)
qed

theorem bybit_fallback_dies_witness:
  "fd_fallback_active (fst (bybit_fallback_round (\<lambda>f s. (Inl RuntimeError, s))
     (\<lambda>_. Inr [sample_fill ''o1'' (Fin 1) 5]) 0
     ((feed_init ''bybit'' 0)\<lparr>fd_fallback_active := True, fd_fallback_task := True\<rparr>, 0::int)))"
proof -
  let ?fd = "(feed_init ''bybit'' 0)\<lparr>fd_fallback_active := True, fd_fallback_task := True\<rparr>"
  obtain fd' u where r: "bybit_fallback_round (\<lambda>f s. (Inl RuntimeError, s))
     (\<lambda>_. Inr [sample_fill ''o1'' (Fin 1) 5]) 0 (?fd, 0::int) = (fd', u)" by fastforce
  have "fd_fallback_active fd'"
    by (rule conjunct1 [OF bybit_fallback_dies [where f = "sample_fill ''o1'' (Fin 1) 5"
          and e = RuntimeError and s' = 0, OF _ _ _ _ _ _ r]]) (simp_all add: feed_init_def)
  then show ?thesis using r by simp
qed

end
