(* ===== verification/Circuit_Breaker.thy ===== *)
theory Circuit_Breaker
  imports Float64
begin

text \<open>
  The daily loss limit (\<open>strategy/circuit_breaker.py\<close>). Each method holds the lock for its whole body,
  so a method is one step; the date is a day number.
\<close>

record breaker =
  cb_limit_usd :: f64
  cb_daily_pnl :: f64
  cb_tracking_date :: "int option"

definition breaker_init :: "f64 \<Rightarrow> breaker" where
  "breaker_init limit_usd = \<lparr>cb_limit_usd = limit_usd, cb_daily_pnl = Fin 0, cb_tracking_date = None\<rparr>"

definition record_pnl :: "f64 \<Rightarrow> breaker \<Rightarrow> breaker" where
  "record_pnl realized_pnl b = b\<lparr>cb_daily_pnl := cb_daily_pnl b + realized_pnl\<rparr>"

definition is_tripped :: "breaker \<Rightarrow> bool" where
  "is_tripped b \<longleftrightarrow>
     (if feq (cb_limit_usd b) (Fin 0) then False else cb_daily_pnl b < - \<bar>cb_limit_usd b\<bar>)"

definition reset_for_new_day :: "int \<Rightarrow> breaker \<Rightarrow> breaker" where
  "reset_for_new_day today b =
     (if Some today \<noteq> cb_tracking_date b
      then b\<lparr>cb_daily_pnl := Fin 0, cb_tracking_date := Some today\<rparr> else b)"

lemma disabled_never_trips: "cb_limit_usd b = Fin 0 \<Longrightarrow> \<not> is_tripped b"
  by (simp add: is_tripped_def feq_def)

lemma reset_idempotent: "reset_for_new_day d (reset_for_new_day d b) = reset_for_new_day d b"
  by (simp add: reset_for_new_day_def)

lemma reset_untrips:
  "Some d \<noteq> cb_tracking_date b \<Longrightarrow> \<not> is_tripped (reset_for_new_day d b)"
proof -
  assume h: "Some d \<noteq> cb_tracking_date b"
  have "\<not> Fin 0 < - \<bar>x\<bar>" for x :: f64 by (cases x) auto
  with h show ?thesis by (simp add: is_tripped_def reset_for_new_day_def)
qed

lemma record_limit [simp]: "cb_limit_usd (record_pnl x b) = cb_limit_usd b"
  by (simp add: record_pnl_def)

end
