(* ===== verification/Order_Worker.thy ===== *)
theory Order_Worker
  imports Exchange Circuit_Breaker
begin

text \<open>
  The order queue worker (\<open>strategy/order_worker.py\<close>): deduplication and risk gates, placement, the
  fill handler with its cost-basis and gauge updates, and the rows written to the order event
  table. Placement and fill handling await the table write in the middle, where other handlers run;
  each is therefore two steps (\<open>place_reply\<close>/\<open>place_commit\<close>, \<open>fill_begin\<close>/\<open>fill_end\<close>) and the whole
  handler is their composition. Rows, metrics and the circuit breaker's callback form one trace.
\<close>

section \<open>State\<close>

record order_event =
  oe_order_id :: string
  oe_client_order_id :: string
  oe_strategy :: string
  oe_exchange :: string
  oe_symbol :: string
  oe_market_type :: string
  oe_side :: string
  oe_order_type :: string
  oe_status :: string
  oe_fee_currency :: string
  oe_signal_type :: string
  oe_limit_price :: f64
  oe_stop_price :: f64
  oe_take_profit_price :: f64
  oe_requested_size :: f64
  oe_filled_size :: f64
  oe_remaining_size :: f64
  oe_avg_fill_price :: f64
  oe_fee :: f64
  oe_realized_pnl :: f64
  oe_slippage :: f64
  oe_position_size_after :: f64
  oe_paper_trading :: bool
  oe_backtest :: bool
  oe_ts_placed :: int
  oe_ts_exchange :: int

text \<open>A row that was written, and a row whose write failed: the failure is logged and swallowed.\<close>

datatype weffect = WMetric mcall | WRow order_event | WRowFailed order_event | WTrip

record worker =
  w_strategy_name :: string
  w_max_position_pct :: f64
  w_paper_trading :: bool
  w_portfolio_value_usd :: f64
  w_max_order_notional_usd :: f64
  w_circuit_breaker :: "breaker option"
  w_has_trip_callback :: bool
  w_trip_fired :: bool
  w_open_orders :: "(string, order_request \<times> placed_order) dict"
  w_position_notional :: "(string, f64) dict"
  w_position_qty :: "(string, f64) dict"
  w_position_avg_price :: "(string, f64) dict"
  w_seen_fill_ids :: "string set"
  w_seen_fill_ids_order :: "string list"
  w_cumulative_pnl :: f64
  w_peak_pnl :: f64
  w_trace :: "weffect list"

definition worker_init ::
  "string \<Rightarrow> f64 \<Rightarrow> bool \<Rightarrow> f64 \<Rightarrow> f64 \<Rightarrow> breaker option \<Rightarrow> bool \<Rightarrow> worker" where
  "worker_init name pct paper portfolio cap cb has_cb =
     \<lparr>w_strategy_name = name, w_max_position_pct = pct, w_paper_trading = paper,
      w_portfolio_value_usd = portfolio, w_max_order_notional_usd = cap, w_circuit_breaker = cb,
      w_has_trip_callback = has_cb, w_trip_fired = False, w_open_orders = [], w_position_notional = [],
      w_position_qty = [], w_position_avg_price = [], w_seen_fill_ids = {}, w_seen_fill_ids_order = [],
      w_cumulative_pnl = Fin 0, w_peak_pnl = Fin 0, w_trace = []\<rparr>"

definition effect :: "weffect \<Rightarrow> worker \<Rightarrow> worker" where
  "effect e w = w\<lparr>w_trace := w_trace w @ [e]\<rparr>"

text \<open>\<open>_write_order_event\<close>; \<open>wr\<close> is the outcome of the table write. It never raises.\<close>

definition write_order_event :: "unit res \<Rightarrow> order_event \<Rightarrow> worker \<Rightarrow> worker" where
  "write_order_event wr row w =
     (case wr of Inr _ \<Rightarrow> effect (WRow row) w | Inl _ \<Rightarrow> effect (WRowFailed row) w)"

definition or_zero :: "f64 option \<Rightarrow> f64" where
  "or_zero p = (case p of Some x \<Rightarrow> if truthy x then x else Fin 0 | None \<Rightarrow> Fin 0)"

section \<open>Gates\<close>

definition order_notional :: "order_request \<Rightarrow> worker \<Rightarrow> f64" where
  "order_notional req w = or_size req * w_portfolio_value_usd w"

definition is_entry_dedup :: "order_request \<Rightarrow> worker \<Rightarrow> bool" where
  "is_entry_dedup req w \<longleftrightarrow>
     or_order_role req = ''entry'' \<and>
     list_ex (\<lambda>(oid, open_req, placed). or_symbol open_req = or_symbol req \<and> or_side open_req = or_side req \<and>
        or_order_role open_req = ''entry'') (w_open_orders w)"

definition exceeds_risk_gate :: "order_request \<Rightarrow> worker \<Rightarrow> bool" where
  "exceeds_risk_gate req w \<longleftrightarrow>
     (if or_order_role req \<in> {''exit'', ''stop''} then False
      else let projected_notional = order_notional req w;
               current_notional = dget (w_position_notional w) (or_symbol req) (Fin 0);
               max_allowed = w_max_position_pct w * w_portfolio_value_usd w
           in current_notional + projected_notional > max_allowed)"

definition exceeds_hard_limit :: "order_request \<Rightarrow> worker \<Rightarrow> bool" where
  "exceeds_hard_limit req w \<longleftrightarrow>
     (if or_order_role req \<in> {''exit'', ''stop''} then False
      else if w_max_order_notional_usd w \<le> Fin 0 then False
      else order_notional req w > w_max_order_notional_usd w)"

datatype gate = Duplicate | HardLimit | RiskGate | Pass

definition gate_of :: "order_request \<Rightarrow> worker \<Rightarrow> gate" where
  "gate_of req w =
     (if is_entry_dedup req w then Duplicate
      else if exceeds_hard_limit req w then HardLimit
      else if exceeds_risk_gate req w then RiskGate
      else Pass)"

section \<open>Placement\<close>

definition base_event :: "int \<Rightarrow> order_request \<Rightarrow> worker \<Rightarrow> order_event" where
  "base_event ts_now_us req w =
     \<lparr>oe_order_id = [], oe_client_order_id = [], oe_strategy = or_strategy req,
      oe_exchange = or_exchange req, oe_symbol = or_symbol req, oe_market_type = [],
      oe_side = or_side req, oe_order_type = or_order_type req, oe_status = [], oe_fee_currency = [],
      oe_signal_type = [], oe_limit_price = or_zero (or_limit_price req),
      oe_stop_price = or_zero (or_stop_price req),
      oe_take_profit_price = or_zero (or_take_profit_price req), oe_requested_size = or_size req,
      oe_filled_size = Fin 0, oe_remaining_size = or_size req, oe_avg_fill_price = Fin 0,
      oe_fee = Fin 0, oe_realized_pnl = Fin 0, oe_slippage = Fin 0, oe_position_size_after = Fin 0,
      oe_paper_trading = w_paper_trading w, oe_backtest = False, oe_ts_placed = ts_now_us,
      oe_ts_exchange = 0\<rparr>"

text \<open>
  From the REST answer to the table write; the last component is the order still to be committed
  once the write has been awaited.
\<close>

definition place_reply ::
  "int \<Rightarrow> f64 \<Rightarrow> unit res \<Rightarrow> order_request \<Rightarrow> placed_order res \<Rightarrow> worker \<Rightarrow>
   unit res \<times> worker \<times> placed_order option" where
  "place_reply ts_now_us latency_ms wr req reply w =
     (case reply of
        Inl e \<Rightarrow>
          if e = ExchangeRESTError then
            (Inr (), write_order_event wr ((base_event ts_now_us req w)
                               \<lparr>oe_client_order_id := or_client_order_id req, oe_status := ''failed''\<rparr>) w, None)
          else (Inl e, w, None)
      | Inr placed \<Rightarrow>
          let w1 = effect (WMetric (ObserveLatency (w_strategy_name w) (or_exchange req) latency_ms)) w;
              row = (base_event ts_now_us req w)\<lparr>oe_order_id := pl_order_id placed,
                      oe_client_order_id := pl_client_order_id placed,
                      oe_ts_exchange := pl_ts_exchange placed * 1000\<rparr>
          in if pl_status placed = ''rejected'' then
               (Inr (), effect (WMetric (IncOrderRejected (w_strategy_name w) (or_exchange req) (or_symbol req)))
                          (write_order_event wr (row\<lparr>oe_status := ''rejected''\<rparr>) w1), None)
             else (Inr (), write_order_event wr (row\<lparr>oe_status := ''placed''\<rparr>) w1, Some placed))"

definition place_commit :: "order_request \<Rightarrow> placed_order \<Rightarrow> worker \<Rightarrow> worker" where
  "place_commit req placed w =
     (let w1 = effect (WMetric (IncOrderPlaced (w_strategy_name w) (or_exchange req) (or_symbol req) (or_side req))) w;
          w2 = w1\<lparr>w_open_orders := dset (pl_order_id placed) (req, placed) (w_open_orders w1)\<rparr>
      in w2\<lparr>w_position_notional := dset (or_symbol req)
              (dget (w_position_notional w2) (or_symbol req) (Fin 0) + order_notional req w2)
              (w_position_notional w2)\<rparr>)"

text \<open>The client is a function over a world of its own; \<open>lat\<close> is the measured latency.\<close>

definition place_and_persist ::
  "(order_request \<Rightarrow> 'c \<Rightarrow> placed_order res \<times> 'c) \<Rightarrow> int \<Rightarrow> f64 \<Rightarrow> unit res \<Rightarrow> order_request \<Rightarrow> worker \<times> 'c \<Rightarrow>
   unit res \<times> worker \<times> 'c" where
  "place_and_persist place ts_now_us lat wr req st =
     (case st of (w, c) \<Rightarrow>
        case place req c of (reply, c1) \<Rightarrow>
          (case place_reply ts_now_us lat wr req reply w of
             (r, w1, None) \<Rightarrow> (r, w1, c1)
           | (r, w1, Some placed) \<Rightarrow> (r, place_commit req placed w1, c1)))"

definition process_order ::
  "(order_request \<Rightarrow> 'c \<Rightarrow> placed_order res \<times> 'c) \<Rightarrow> int \<Rightarrow> f64 \<Rightarrow> unit res \<Rightarrow> order_request \<Rightarrow> worker \<times> 'c \<Rightarrow>
   unit res \<times> worker \<times> 'c" where
  "process_order place ts_now_us lat wr req st =
     (case st of (w, c) \<Rightarrow>
        case gate_of req w of
          Duplicate \<Rightarrow> (Inr (), effect (WMetric (IncOrderQueueDedup (w_strategy_name w) (or_symbol req))) w, c)
        | HardLimit \<Rightarrow> (Inr (), effect (WMetric (IncRiskGateBlock (w_strategy_name w) (or_symbol req))) w, c)
        | RiskGate \<Rightarrow> (Inr (), effect (WMetric (IncRiskGateBlock (w_strategy_name w) (or_symbol req))) w, c)
        | Pass \<Rightarrow> place_and_persist place ts_now_us lat wr req (w, c))"

text \<open>\<open>run\<close> over the requests that reach the queue; an exception of \<open>_process\<close> ends the task.\<close>

fun worker_run ::
  "(order_request \<Rightarrow> 'c \<Rightarrow> placed_order res \<times> 'c) \<Rightarrow> (int \<times> f64 \<times> unit res \<times> order_request) list \<Rightarrow> worker \<times> 'c \<Rightarrow>
   unit res \<times> worker \<times> 'c" where
  "worker_run place [] st = (Inr (), st)"
| "worker_run place ((t, lat, wr, req) # reqs) st =
     (case process_order place t lat wr req st of
        (Inl e, st1) \<Rightarrow> (Inl e, st1)
      | (Inr _, st1) \<Rightarrow> worker_run place reqs st1)"

section \<open>Fills\<close>

definition seen_capacity :: nat where
  "seen_capacity = 10000"

definition remember_fill :: "string \<Rightarrow> worker \<Rightarrow> worker" where
  "remember_fill oid w =
     (let full = (length (w_seen_fill_ids_order w) = seen_capacity);
          ids = (if full then w_seen_fill_ids w - {hd (w_seen_fill_ids_order w)} else w_seen_fill_ids w);
          order = (if full then tl (w_seen_fill_ids_order w) else w_seen_fill_ids_order w)
      in w\<lparr>w_seen_fill_ids := insert oid ids, w_seen_fill_ids_order := order @ [oid]\<rparr>)"

definition update_position :: "string \<Rightarrow> string \<Rightarrow> f64 \<Rightarrow> f64 \<Rightarrow> worker \<Rightarrow> f64 \<times> worker" where
  "update_position sy side qty price w =
     (let cur_qty = dget (w_position_qty w) sy (Fin 0);
          cur_avg = dget (w_position_avg_price w) sy (Fin 0) in
      if side = ''buy'' then
        let new_qty = cur_qty + qty in
        (Fin 0, w\<lparr>w_position_avg_price := dset sy
                    (if truthy new_qty then fdiv (cur_avg * cur_qty + price * qty) new_qty else Fin 0)
                    (w_position_avg_price w),
                  w_position_qty := dset sy new_qty (w_position_qty w)\<rparr>)
      else
        let closed = py_min qty cur_qty;
            realized = (if cur_qty > Fin 0 then closed * (price - cur_avg) else Fin 0);
            new_qty = py_max (Fin 0) (cur_qty - closed);
            w1 = w\<lparr>w_position_qty := dset sy new_qty (w_position_qty w)\<rparr>
        in (realized,
            if feq new_qty (Fin 0)
            then w1\<lparr>w_position_avg_price := dset sy (Fin 0) (w_position_avg_price w1)\<rparr> else w1))"

definition slippage_of :: "order_request \<Rightarrow> order_filled \<Rightarrow> f64" where
  "slippage_of req fill =
     (case or_limit_price req of
        Some lp \<Rightarrow> if truthy lp \<and> lp > Fin 0 then (of_fill_price fill - lp) * of_fill_size fill else Fin 0
      | None \<Rightarrow> Fin 0)"

definition filled_event :: "order_filled \<Rightarrow> order_request \<Rightarrow> placed_order \<Rightarrow> f64 \<Rightarrow> worker \<Rightarrow> order_event" where
  "filled_event fill req placed realized_pnl w =
     \<lparr>oe_order_id = of_order_id fill, oe_client_order_id = pl_client_order_id placed,
      oe_strategy = or_strategy req, oe_exchange = of_exchange fill, oe_symbol = of_symbol fill,
      oe_market_type = [], oe_side = of_side fill, oe_order_type = or_order_type req,
      oe_status = ''filled'', oe_fee_currency = [], oe_signal_type = [],
      oe_limit_price = or_zero (or_limit_price req), oe_stop_price = or_zero (or_stop_price req),
      oe_take_profit_price = or_zero (or_take_profit_price req), oe_requested_size = or_size req,
      oe_filled_size = of_fill_size fill, oe_remaining_size = Fin 0,
      oe_avg_fill_price = of_fill_price fill, oe_fee = of_fee fill, oe_realized_pnl = realized_pnl,
      oe_slippage = slippage_of req fill,
      oe_position_size_after = dget (w_position_notional w) (of_symbol fill) (Fin 0),
      oe_paper_trading = w_paper_trading w, oe_backtest = False,
      oe_ts_placed = pl_ts_exchange placed * 1000, oe_ts_exchange = of_ts_exchange fill * 1000\<rparr>"

definition release_notional :: "order_request \<Rightarrow> worker \<Rightarrow> worker" where
  "release_notional req w =
     w\<lparr>w_position_notional := dset (or_symbol req)
         (py_max (Fin 0) (dget (w_position_notional w) (or_symbol req) (Fin 0) - order_notional req w))
         (w_position_notional w)\<rparr>"

text \<open>Up to the await of the row; the result is the realized P\&L when the handler goes on.\<close>

definition fill_begin :: "unit res \<Rightarrow> order_filled \<Rightarrow> worker \<Rightarrow> worker \<times> f64 option" where
  "fill_begin wr fill w =
     (if of_order_id fill \<in> w_seen_fill_ids w then (w, None)
      else let w1 = remember_fill (of_order_id fill) w in
        case map_of (w_open_orders w1) (of_order_id fill) of
          None \<Rightarrow> (w1, None)
        | Some (req, placed) \<Rightarrow>
            let w2 = release_notional req w1;
                w3 = w2\<lparr>w_open_orders := dpop (of_order_id fill) (w_open_orders w2)\<rparr>;
                w4 = effect (WMetric (IncOrderFilled (w_strategy_name w3) (of_exchange fill) (of_symbol fill)
                       (of_side fill))) w3
            in case update_position (of_symbol fill) (of_side fill) (of_fill_size fill) (of_fill_price fill) w4 of
                 (realized, w5) \<Rightarrow>
                   (write_order_event wr (filled_event fill req placed realized w5) w5, Some realized))"

definition breaker_step :: "f64 \<Rightarrow> worker \<Rightarrow> worker \<times> bool" where
  "breaker_step realized w =
     (case w_circuit_breaker w of
        Some cb \<Rightarrow>
          if w_trip_fired w then (w, False)
          else let cb1 = record_pnl realized cb; w1 = w\<lparr>w_circuit_breaker := Some cb1\<rparr> in
            if is_tripped cb1 then
              (if w_has_trip_callback w then (effect WTrip (w1\<lparr>w_trip_fired := True\<rparr>), True)
               else (w1\<lparr>w_trip_fired := True\<rparr>, False))
            else (w1, False)
      | None \<Rightarrow> (w, False))"

definition update_gauges :: "order_filled \<Rightarrow> f64 \<Rightarrow> worker \<Rightarrow> worker" where
  "update_gauges fill realized w =
     (let sy = of_symbol fill;
          pos_qty = dget (w_position_qty w) sy (Fin 0);
          avg_price = dget (w_position_avg_price w) sy (Fin 0);
          unrealized = (if pos_qty > Fin 0 \<and> avg_price > Fin 0
                        then pos_qty * (of_fill_price fill - avg_price) else Fin 0);
          w1 = effect (WMetric (SetUnrealizedPnl (w_strategy_name w) sy unrealized))
                 (effect (WMetric (SetPositionSize (w_strategy_name w) sy pos_qty)) w);
          cum = w_cumulative_pnl w1 + realized;
          peak = (if cum > w_peak_pnl w1 then cum else w_peak_pnl w1);
          drawdown = (if peak > Fin 0 then fdiv (peak - cum) peak else Fin 0)
      in effect (WMetric (SetDrawdown (w_strategy_name w) drawdown))
           (w1\<lparr>w_cumulative_pnl := cum, w_peak_pnl := peak\<rparr>))"

text \<open>
  After the await. \<open>trip\<close> is what the circuit breaker's callback does when it is called; an exception
  it raises ends the handler.
\<close>

definition fill_end :: "unit res \<Rightarrow> order_filled \<Rightarrow> f64 \<Rightarrow> worker \<Rightarrow> unit res \<times> worker" where
  "fill_end trip fill realized w =
     (case breaker_step realized w of (w1, called) \<Rightarrow>
        case (if called then trip else Inr ()) of
          Inl e \<Rightarrow> (Inl e, w1)
        | Inr _ \<Rightarrow> (Inr (), update_gauges fill realized w1))"

definition handle_fill :: "unit res \<Rightarrow> unit res \<Rightarrow> order_filled \<Rightarrow> worker \<Rightarrow> unit res \<times> worker" where
  "handle_fill wr trip fill w =
     (case fill_begin wr fill w of
        (w1, None) \<Rightarrow> (Inr (), w1)
      | (w1, Some realized) \<Rightarrow> fill_end trip fill realized w1)"

section \<open>Recovery\<close>

definition restore_open_order :: "string \<Rightarrow> order_request \<Rightarrow> placed_order \<Rightarrow> worker \<Rightarrow> worker" where
  "restore_open_order oid req placed w =
     (let w1 = w\<lparr>w_open_orders := dset oid (req, placed) (w_open_orders w)\<rparr> in
      w1\<lparr>w_position_notional := dset (or_symbol req)
           (dget (w_position_notional w1) (or_symbol req) (Fin 0) + order_notional req w1)
           (w_position_notional w1)\<rparr>)"

definition restore_position :: "string \<Rightarrow> f64 \<Rightarrow> f64 \<Rightarrow> worker \<Rightarrow> worker" where
  "restore_position sy qty avg_price w =
     w\<lparr>w_position_qty := dset sy qty (w_position_qty w),
       w_position_avg_price := dset sy avg_price (w_position_avg_price w)\<rparr>"

section \<open>What each step leaves alone\<close>

lemma effect_fields [simp]:
  "w_open_orders (effect e w) = w_open_orders w" "w_position_notional (effect e w) = w_position_notional w"
  "w_position_qty (effect e w) = w_position_qty w" "w_position_avg_price (effect e w) = w_position_avg_price w"
  "w_seen_fill_ids (effect e w) = w_seen_fill_ids w"
  "w_seen_fill_ids_order (effect e w) = w_seen_fill_ids_order w"
  "w_cumulative_pnl (effect e w) = w_cumulative_pnl w" "w_peak_pnl (effect e w) = w_peak_pnl w"
  "w_circuit_breaker (effect e w) = w_circuit_breaker w" "w_trip_fired (effect e w) = w_trip_fired w"
  "w_portfolio_value_usd (effect e w) = w_portfolio_value_usd w"
  "w_max_position_pct (effect e w) = w_max_position_pct w"
  "w_max_order_notional_usd (effect e w) = w_max_order_notional_usd w"
  "w_strategy_name (effect e w) = w_strategy_name w" "w_paper_trading (effect e w) = w_paper_trading w"
  "w_has_trip_callback (effect e w) = w_has_trip_callback w"
  "w_trace (effect e w) = w_trace w @ [e]"
  by (simp_all add: effect_def)

lemma write_cases: "write_order_event wr row w = effect (WRow row) w \<or> write_order_event wr row w = effect (WRowFailed row) w"
  by (auto simp: write_order_event_def split: sum.splits)

lemma write_fields [simp]:
  "w_open_orders (write_order_event wr row w) = w_open_orders w"
  "w_position_notional (write_order_event wr row w) = w_position_notional w"
  "w_position_qty (write_order_event wr row w) = w_position_qty w"
  "w_position_avg_price (write_order_event wr row w) = w_position_avg_price w"
  "w_seen_fill_ids (write_order_event wr row w) = w_seen_fill_ids w"
  "w_seen_fill_ids_order (write_order_event wr row w) = w_seen_fill_ids_order w"
  "w_circuit_breaker (write_order_event wr row w) = w_circuit_breaker w"
  "w_trip_fired (write_order_event wr row w) = w_trip_fired w"
  "w_portfolio_value_usd (write_order_event wr row w) = w_portfolio_value_usd w"
  "w_max_position_pct (write_order_event wr row w) = w_max_position_pct w"
  "w_strategy_name (write_order_event wr row w) = w_strategy_name w"
  "w_trace (write_order_event wr row w) = w_trace w @ [case wr of Inr _ \<Rightarrow> WRow row | Inl _ \<Rightarrow> WRowFailed row]"
  by (simp_all add: write_order_event_def split: sum.split)

lemma write_not_trip [simp]:
  "(case wr of Inr _ \<Rightarrow> WRow row | Inl _ \<Rightarrow> WRowFailed row) \<noteq> WTrip"
  by (simp split: sum.split)

lemma effect_notional [simp]: "order_notional req (effect e w) = order_notional req w"
  by (simp add: order_notional_def)

text \<open>\<open>same_books\<close>: open orders, seen fills and the notional are untouched.\<close>

definition same_books :: "worker \<Rightarrow> worker \<Rightarrow> bool" where
  "same_books w w' \<longleftrightarrow>
     w_open_orders w' = w_open_orders w \<and> w_position_notional w' = w_position_notional w \<and>
     w_seen_fill_ids w' = w_seen_fill_ids w \<and> w_seen_fill_ids_order w' = w_seen_fill_ids_order w \<and>
     (\<exists>es. w_trace w' = w_trace w @ es)"

lemma same_books_refl [simp]: "same_books w w"
  by (simp add: same_books_def)

lemma same_books_trans: "same_books w w1 \<Longrightarrow> same_books w1 w2 \<Longrightarrow> same_books w w2"
  by (auto simp: same_books_def)

lemma same_books_effect [simp]: "same_books w (effect e w)"
  by (simp add: same_books_def)

lemma same_books_reply: "place_reply t lat wr req reply w = (r, w', c) \<Longrightarrow> same_books w w'"
  by (auto simp: place_reply_def Let_def same_books_def split: sum.splits if_splits)

lemma same_books_update: "update_position sy sd q p w = (x, w') \<Longrightarrow> same_books w w'"
  by (auto simp: update_position_def Let_def same_books_def split: if_splits)

lemma same_books_breaker: "breaker_step x w = (w', b) \<Longrightarrow> same_books w w'"
  by (auto simp: breaker_step_def Let_def same_books_def split: option.splits if_splits)

lemma same_books_gauges: "same_books w (update_gauges f x w)"
  by (simp add: update_gauges_def Let_def same_books_def)

lemma same_books_end: "fill_end trip f x w = (r, w') \<Longrightarrow> same_books w w'"
  unfolding fill_end_def
  by (auto split: prod.splits sum.splits if_splits
      dest!: same_books_breaker intro: same_books_trans same_books_gauges)

section \<open>The remembered fill ids\<close>

definition seen_ok :: "worker \<Rightarrow> bool" where
  "seen_ok w \<longleftrightarrow> w_seen_fill_ids w = set (w_seen_fill_ids_order w) \<and>
     distinct (w_seen_fill_ids_order w) \<and> length (w_seen_fill_ids_order w) \<le> seen_capacity"

lemma seen_remember: "seen_ok w \<Longrightarrow> oid \<notin> w_seen_fill_ids w \<Longrightarrow> seen_ok (remember_fill oid w)"
proof -
  assume h: "seen_ok w" "oid \<notin> w_seen_fill_ids w"
  show ?thesis
  proof (cases "length (w_seen_fill_ids_order w) = seen_capacity")
    case True
    then obtain y ys where "w_seen_fill_ids_order w = y # ys"
      by (cases "w_seen_fill_ids_order w") (auto simp: seen_capacity_def)
    with h True show ?thesis by (auto simp: seen_ok_def remember_fill_def Let_def)
  next
    case False
    with h show ?thesis by (auto simp: seen_ok_def remember_fill_def Let_def)
  qed
qed

lemma remember_fields [simp]:
  "w_open_orders (remember_fill oid w) = w_open_orders w" "w_trace (remember_fill oid w) = w_trace w"
  "w_position_notional (remember_fill oid w) = w_position_notional w"
  "order_notional req (remember_fill oid w) = order_notional req w"
  "oid \<in> w_seen_fill_ids (remember_fill oid w)"
  by (simp_all add: remember_fill_def Let_def order_notional_def)

text \<open>What \<open>fill_begin\<close> does to the books.\<close>

lemma fill_begin_cases:
  assumes "fill_begin wr f w = (w', r)"
  obtains (dup) "of_order_id f \<in> w_seen_fill_ids w" "w' = w" "r = None"
  | (unknown) "of_order_id f \<notin> w_seen_fill_ids w" "map_of (w_open_orders w) (of_order_id f) = None"
      "w' = remember_fill (of_order_id f) w" "r = None"
  | (fill) req placed realized where "of_order_id f \<notin> w_seen_fill_ids w"
      "map_of (w_open_orders w) (of_order_id f) = Some (req, placed)" "r = Some realized"
      "w_open_orders w' = dpop (of_order_id f) (w_open_orders w)"
      "w_position_notional w' = dset (or_symbol req)
         (py_max (Fin 0) (dget (w_position_notional w) (or_symbol req) (Fin 0) - order_notional req w))
         (w_position_notional w)"
      "w_seen_fill_ids w' = w_seen_fill_ids (remember_fill (of_order_id f) w)"
      "w_seen_fill_ids_order w' = w_seen_fill_ids_order (remember_fill (of_order_id f) w)"
      "\<exists>es. w_trace w' = w_trace w @ es"
proof -
  let ?w1 = "remember_fill (of_order_id f) w"
  show thesis
  proof (cases "of_order_id f \<in> w_seen_fill_ids w")
    case True
    with assms show ?thesis by (intro dup) (auto simp: fill_begin_def)
  next
    case False
    show ?thesis
    proof (cases "map_of (w_open_orders w) (of_order_id f)")
      case None
      with False assms show ?thesis by (intro unknown) (auto simp: fill_begin_def Let_def)
    next
      case (Some op)
      obtain req placed where op: "op = (req, placed)" by (cases op)
      let ?w2 = "release_notional req ?w1"
      let ?w4 = "effect (WMetric (IncOrderFilled (w_strategy_name ?w2) (of_exchange f) (of_symbol f)
          (of_side f))) (?w2\<lparr>w_open_orders := dpop (of_order_id f) (w_open_orders ?w2)\<rparr>)"
      obtain realized w5 where u: "update_position (of_symbol f) (of_side f) (of_fill_size f)
          (of_fill_price f) ?w4 = (realized, w5)" by fastforce
      have w': "w' = write_order_event wr (filled_event f req placed realized w5) w5" "r = Some realized"
        using assms False Some op u by (simp_all add: fill_begin_def Let_def)
      note s = same_books_update [OF u]
      show ?thesis
        by (rule fill [of req placed realized])
           (use False Some op s w' in \<open>auto simp: same_books_def release_notional_def\<close>)
    qed
  qed
qed

section \<open>The interleaved worker\<close>

text \<open>
  One placement is in flight at a time (\<open>run\<close> awaits \<open>_process\<close>); fills arrive at any moment, and
  several may be waiting for their row. An awaiting handler is a component of the state.
\<close>

record wsys =
  ws_worker :: worker
  ws_placing :: "order_request option"
  ws_committing :: "(order_request \<times> placed_order) option"
  ws_filling :: "(order_filled \<times> f64) list"

definition idle :: "worker \<Rightarrow> wsys" where
  "idle w = \<lparr>ws_worker = w, ws_placing = None, ws_committing = None, ws_filling = []\<rparr>"

definition blocked :: "order_request \<Rightarrow> worker \<Rightarrow> worker" where
  "blocked req w =
     effect (WMetric (if gate_of req w = Duplicate then IncOrderQueueDedup (w_strategy_name w) (or_symbol req)
                      else IncRiskGateBlock (w_strategy_name w) (or_symbol req))) w"

inductive wstep :: "wsys \<Rightarrow> wsys \<Rightarrow> bool" where
  block: "ws_placing s = None \<Longrightarrow> ws_committing s = None \<Longrightarrow> gate_of req (ws_worker s) \<noteq> Pass \<Longrightarrow>
     wstep s (s\<lparr>ws_worker := blocked req (ws_worker s)\<rparr>)"
| submit: "ws_placing s = None \<Longrightarrow> ws_committing s = None \<Longrightarrow> gate_of req (ws_worker s) = Pass \<Longrightarrow>
     wstep s (s\<lparr>ws_placing := Some req\<rparr>)"
| reply: "ws_placing s = Some req \<Longrightarrow> place_reply t lat wr req rep (ws_worker s) = (Inr (), w', c) \<Longrightarrow>
     wstep s (s\<lparr>ws_worker := w', ws_placing := None, ws_committing := map_option (Pair req) c\<rparr>)"
| commit: "ws_committing s = Some (req, placed) \<Longrightarrow>
     wstep s (s\<lparr>ws_worker := place_commit req placed (ws_worker s), ws_committing := None\<rparr>)"
| fill1: "fill_begin wr f (ws_worker s) = (w', r) \<Longrightarrow>
     wstep s (s\<lparr>ws_worker := w',
       ws_filling := (case r of None \<Rightarrow> ws_filling s | Some x \<Rightarrow> ws_filling s @ [(f, x)])\<rparr>)"
| fill2: "ws_filling s = pre @ (f, x) # post \<Longrightarrow> fill_end trip f x (ws_worker s) = (r, w') \<Longrightarrow>
     wstep s (s\<lparr>ws_worker := w', ws_filling := pre @ post\<rparr>)"

definition is_entry_of :: "order_request \<Rightarrow> order_request \<Rightarrow> bool" where
  "is_entry_of r r' \<longleftrightarrow> or_order_role r = ''entry'' \<and> or_order_role r' = ''entry'' \<and>
     or_symbol r = or_symbol r' \<and> or_side r = or_side r'"

definition no_open_entry :: "order_request \<Rightarrow> worker \<Rightarrow> bool" where
  "no_open_entry req w \<longleftrightarrow>
     (\<forall>oid r p. map_of (w_open_orders w) oid = Some (r, p) \<longrightarrow> \<not> is_entry_of r req)"

definition one_entry :: "worker \<Rightarrow> bool" where
  "one_entry w \<longleftrightarrow>
     (\<forall>o1 o2 r1 r2 p1 p2. map_of (w_open_orders w) o1 = Some (r1, p1) \<longrightarrow>
        map_of (w_open_orders w) o2 = Some (r2, p2) \<longrightarrow> is_entry_of r1 r2 \<longrightarrow> o1 = o2)"

text \<open>The order's row was handed to the table: written, or lost with the failure logged.\<close>

definition placed_row :: "string \<Rightarrow> order_request \<times> placed_order \<Rightarrow> worker \<Rightarrow> bool" where
  "placed_row oid x w \<longleftrightarrow>
     (\<exists>row. (WRow row \<in> set (w_trace w) \<or> WRowFailed row \<in> set (w_trace w)) \<and>
        oe_status row = ''placed'' \<and> oe_order_id row = oid \<and> oe_symbol row = or_symbol (fst x) \<and>
        oe_side row = or_side (fst x) \<and> oe_requested_size row = or_size (fst x))"

definition books_ok :: "worker \<Rightarrow> bool" where
  "books_ok w \<longleftrightarrow> seen_ok w \<and> dinv (w_open_orders w) \<and> one_entry w \<and>
     (\<forall>oid x. map_of (w_open_orders w) oid = Some x \<longrightarrow> placed_row oid x w)"

definition wsys_ok :: "wsys \<Rightarrow> bool" where
  "wsys_ok s \<longleftrightarrow>
     books_ok (ws_worker s) \<and> (ws_placing s = None \<or> ws_committing s = None) \<and>
     (\<forall>req. ws_placing s = Some req \<longrightarrow> no_open_entry req (ws_worker s)) \<and>
     (\<forall>req p. ws_committing s = Some (req, p) \<longrightarrow>
        no_open_entry req (ws_worker s) \<and> placed_row (pl_order_id p) (req, p) (ws_worker s))"

definition shrinks :: "worker \<Rightarrow> worker \<Rightarrow> bool" where
  "shrinks w w' \<longleftrightarrow>
     (\<forall>oid x. map_of (w_open_orders w') oid = Some x \<longrightarrow> map_of (w_open_orders w) oid = Some x) \<and>
     set (w_trace w) \<subseteq> set (w_trace w')"

lemma shrinks_no_open: "shrinks w w' \<Longrightarrow> no_open_entry req w \<Longrightarrow> no_open_entry req w'"
  unfolding shrinks_def no_open_entry_def by blast

lemma shrinks_one: "shrinks w w' \<Longrightarrow> one_entry w \<Longrightarrow> one_entry w'"
  unfolding shrinks_def one_entry_def by blast

lemma placed_row_mono: "set (w_trace w) \<subseteq> set (w_trace w') \<Longrightarrow> placed_row oid x w \<Longrightarrow> placed_row oid x w'"
  unfolding placed_row_def by (elim exE) (rule exI, blast)

lemma shrinks_row: "shrinks w w' \<Longrightarrow> placed_row oid x w \<Longrightarrow> placed_row oid x w'"
  unfolding shrinks_def by (elim conjE) (rule placed_row_mono)

lemma shrinks_books:
  "books_ok w \<Longrightarrow> shrinks w w' \<Longrightarrow> seen_ok w' \<Longrightarrow> dinv (w_open_orders w') \<Longrightarrow> books_ok w'"
  unfolding books_ok_def using shrinks_one [of w w'] shrinks_row [of w w'] unfolding shrinks_def by auto

lemma shrinks_ok:
  assumes "wsys_ok s" "shrinks (ws_worker s) w'" "seen_ok w'" "dinv (w_open_orders w')"
  shows "wsys_ok (s\<lparr>ws_worker := w', ws_filling := fs\<rparr>)"
  using assms shrinks_books shrinks_no_open shrinks_row unfolding wsys_ok_def by simp metis

lemma same_books_shrinks: "same_books w w' \<Longrightarrow> shrinks w w'"
  by (auto simp: same_books_def shrinks_def)

lemma same_books_seen: "same_books w w' \<Longrightarrow> seen_ok w \<Longrightarrow> seen_ok w'"
  by (simp add: same_books_def seen_ok_def)

lemma same_books_dinv: "same_books w w' \<Longrightarrow> dinv (w_open_orders w) \<Longrightarrow> dinv (w_open_orders w')"
  by (simp add: same_books_def)

lemma same_books_books: "books_ok w \<Longrightarrow> same_books w w' \<Longrightarrow> books_ok w'"
  by (rule shrinks_books [OF _ same_books_shrinks same_books_seen same_books_dinv])
     (auto simp: books_ok_def)

lemma same_books_ok:
  "wsys_ok s \<Longrightarrow> same_books (ws_worker s) w' \<Longrightarrow> wsys_ok (s\<lparr>ws_worker := w', ws_filling := fs\<rparr>)"
  by (rule shrinks_ok [OF _ same_books_shrinks same_books_seen same_books_dinv])
     (auto simp: wsys_ok_def books_ok_def)

lemma gate_pass_no_entry: "gate_of req w = Pass \<Longrightarrow> no_open_entry req w"
  by (auto simp: gate_of_def is_entry_dedup_def no_open_entry_def is_entry_of_def list_ex_iff
      split: if_splits dest!: map_of_SomeD)

lemma reply_commit:
  "place_reply t lat wr req rep w = (r, w', Some p) \<Longrightarrow> placed_row (pl_order_id p) (req, p) w'"
  using write_cases
  by (auto simp: place_reply_def Let_def placed_row_def base_event_def split: sum.splits if_splits)

lemma commit_fields:
  "w_open_orders (place_commit req p w) = dset (pl_order_id p) (req, p) (w_open_orders w)"
  "w_seen_fill_ids (place_commit req p w) = w_seen_fill_ids w"
  "w_seen_fill_ids_order (place_commit req p w) = w_seen_fill_ids_order w"
  "set (w_trace w) \<subseteq> set (w_trace (place_commit req p w))"
  "w_position_notional (place_commit req p w) = dset (or_symbol req)
     (dget (w_position_notional w) (or_symbol req) (Fin 0) + order_notional req w) (w_position_notional w)"
  by (auto simp: place_commit_def Let_def order_notional_def)

lemma is_entry_of_sym: "is_entry_of a b \<longleftrightarrow> is_entry_of b a"
  by (auto simp: is_entry_of_def)

lemma commit_books:
  assumes "books_ok w" "no_open_entry req w" "placed_row (pl_order_id p) (req, p) w"
  shows "books_ok (place_commit req p w)"
proof -
  let ?w' = "place_commit req p w"
  have "one_entry ?w'"
    using assms(1,2) is_entry_of_sym
    unfolding one_entry_def commit_fields map_of_dset fun_upd_apply no_open_entry_def books_ok_def
    by (metis option.inject prod.inject)
  moreover have "placed_row oid x ?w'" if "placed_row oid x w" for oid x
    using placed_row_mono [OF commit_fields(4) that] .
  ultimately show ?thesis
    using assms by (auto simp: books_ok_def seen_ok_def commit_fields split: if_splits)
qed

lemma fill_begin_ok:
  assumes "books_ok w" "fill_begin wr f w = (w', r)"
  shows "shrinks w w' \<and> seen_ok w' \<and> dinv (w_open_orders w')"
  using assms(2)
proof (cases rule: fill_begin_cases)
  case dup
  then show ?thesis using assms(1) by (simp add: books_ok_def shrinks_def)
next
  case unknown
  then show ?thesis using assms(1) seen_remember by (simp add: books_ok_def shrinks_def)
next
  case (fill req placed realized)
  have "seen_ok (remember_fill (of_order_id f) w)"
    using assms(1) fill(1) by (intro seen_remember) (simp_all add: books_ok_def)
  then have "seen_ok w'" using fill(6,7) by (simp add: seen_ok_def)
  then show ?thesis using fill assms(1) by (auto simp: books_ok_def shrinks_def split: if_splits)
qed

lemma wstep_ok: "wstep s s' \<Longrightarrow> wsys_ok s \<Longrightarrow> wsys_ok s'"
proof (induction rule: wstep.induct)
  case (block s req)
  have "same_books (ws_worker s) (blocked req (ws_worker s))" by (simp add: blocked_def)
  then have "wsys_ok (s\<lparr>ws_worker := blocked req (ws_worker s), ws_filling := ws_filling s\<rparr>)"
    by (rule same_books_ok [OF block(4)])
  then show ?case by simp
next
  case (submit s req)
  then show ?case using gate_pass_no_entry by (auto simp: wsys_ok_def)
next
  case (reply s req t lat wr rep w' c)
  note sb = same_books_reply [OF reply(2)]
  have b: "books_ok w'" by (rule same_books_books [OF _ sb]) (use reply(3) in \<open>simp add: wsys_ok_def\<close>)
  have "no_open_entry req w'"
    using reply shrinks_no_open [OF same_books_shrinks [OF sb]] by (simp add: wsys_ok_def)
  with b show ?case using reply_commit reply(2) by (cases c) (auto simp: wsys_ok_def)
next
  case (commit s req placed)
  then show ?case using commit_books by (auto simp: wsys_ok_def)
next
  case (fill1 wr f s w' r)
  then show ?case using fill_begin_ok [OF _ fill1(1)] by (intro shrinks_ok) (auto simp: wsys_ok_def)
next
  case (fill2 s pre f x post trip r w')
  note sb = same_books_end [OF fill2(2)]
  show ?case by (rule same_books_ok [OF fill2(3) sb])
qed

lemma idle_ok: "wsys_ok (idle (worker_init name pct paper portfolio cap cb has_cb))"
  by (simp add: wsys_ok_def idle_def worker_init_def books_ok_def seen_ok_def one_entry_def)

lemma reachable_ok:
  "wstep\<^sup>*\<^sup>* (idle (worker_init name pct paper portfolio cap cb has_cb)) s \<Longrightarrow> wsys_ok s"
  by (induction rule: rtranclp_induct) (auto intro: idle_ok wstep_ok)

section \<open>The limits stay as configured\<close>

lemma update_position_cfg:
  "update_position sy sd q p w = (x, w') \<Longrightarrow> w_portfolio_value_usd w' = w_portfolio_value_usd w \<and>
     w_max_position_pct w' = w_max_position_pct w"
  by (auto simp: update_position_def Let_def split: if_splits)

lemma fill_begin_cfg:
  "fill_begin wr f w = (w', r) \<Longrightarrow> w_portfolio_value_usd w' = w_portfolio_value_usd w \<and>
     w_max_position_pct w' = w_max_position_pct w"
  by (auto simp: fill_begin_def Let_def remember_fill_def release_notional_def
      split: if_splits option.splits prod.splits dest!: update_position_cfg)

lemma fill_end_cfg:
  "fill_end trip f x w = (r, w') \<Longrightarrow> w_portfolio_value_usd w' = w_portfolio_value_usd w \<and>
     w_max_position_pct w' = w_max_position_pct w"
  by (auto simp: fill_end_def breaker_step_def update_gauges_def Let_def
      split: if_splits option.splits prod.splits sum.splits)

lemma handle_fill_cfg:
  "w_portfolio_value_usd (snd (handle_fill wr trip f w)) = w_portfolio_value_usd w \<and>
   w_max_position_pct (snd (handle_fill wr trip f w)) = w_max_position_pct w"
proof -
  obtain w1 r where b: "fill_begin wr f w = (w1, r)" by fastforce
  show ?thesis
  proof (cases r)
    case None
    then show ?thesis using fill_begin_cfg [OF b] by (simp add: handle_fill_def b)
  next
    case (Some x)
    obtain r2 w2 where e: "fill_end trip f x w1 = (r2, w2)" by (metis prod.collapse)
    show ?thesis using Some fill_begin_cfg [OF b] fill_end_cfg [OF e] by (simp add: handle_fill_def b e)
  qed
qed

section \<open>Fill ids stay remembered\<close>

lemma remember_order:
  "w_seen_fill_ids_order (remember_fill oid w) =
     (if length (w_seen_fill_ids_order w) = seen_capacity then tl (w_seen_fill_ids_order w)
      else w_seen_fill_ids_order w) @ [oid]"
  by (simp add: remember_fill_def Let_def)

text \<open>The newest \<open>k\<close> remembered ids survive \<open>n\<close> further fills as long as \<open>k + n\<close> fits the capacity.\<close>

definition recent :: "string \<Rightarrow> nat \<Rightarrow> worker \<Rightarrow> bool" where
  "recent oid k w \<longleftrightarrow>
     (\<exists>xs ys. w_seen_fill_ids_order w = xs @ oid # ys \<and> length ys \<le> k)"

lemma recent_remember:
  assumes "recent oid k w" "Suc k < seen_capacity"
  shows "recent oid (Suc k) (remember_fill oid' w)"
proof -
  obtain xs ys where e: "w_seen_fill_ids_order w = xs @ oid # ys" "length ys \<le> k"
    using assms(1) by (auto simp: recent_def)
  show ?thesis
  proof (cases "length (w_seen_fill_ids_order w) = seen_capacity")
    case True
    then have "xs \<noteq> []" using e assms(2) by auto
    then have "w_seen_fill_ids_order (remember_fill oid' w) = tl xs @ oid # (ys @ [oid'])"
      using True e by (simp add: remember_order)
    then show ?thesis using e(2) unfolding recent_def by (metis length_append_singleton Suc_le_mono)
  next
    case False
    then have "w_seen_fill_ids_order (remember_fill oid' w) = xs @ oid # (ys @ [oid'])"
      using e by (simp add: remember_order)
    then show ?thesis using e(2) unfolding recent_def by (metis length_append_singleton Suc_le_mono)
  qed
qed

lemma recent_mono: "recent oid k w \<Longrightarrow> k \<le> n \<Longrightarrow> recent oid n w"
  unfolding recent_def using order_trans by blast

lemma recent_fill_begin:
  assumes "recent oid k w" "Suc k < seen_capacity" "fill_begin wr f w = (w', r)"
  shows "recent oid (Suc k) w'"
  using assms(3)
proof (cases rule: fill_begin_cases)
  case dup
  then show ?thesis using recent_mono [OF assms(1)] by simp
next
  case unknown
  then show ?thesis using recent_remember [OF assms(1,2)] by simp
next
  case (fill req placed realized)
  then show ?thesis using recent_remember [OF assms(1,2), of "of_order_id f"] by (simp add: recent_def)
qed

text \<open>Fills one after another, each with the outcome of its table write and of the trip callback.\<close>

definition fill_all :: "(unit res \<times> unit res \<times> order_filled) list \<Rightarrow> worker \<Rightarrow> worker" where
  "fill_all fs w = fold (\<lambda>(wr, trip, f) w. snd (handle_fill wr trip f w)) fs w"

lemma handle_fill_books:
  "\<exists>w1 r. fill_begin wr f w = (w1, r) \<and> same_books w1 (snd (handle_fill wr trip f w))"
proof -
  obtain w1 r where b: "fill_begin wr f w = (w1, r)" by fastforce
  have "same_books w1 (snd (handle_fill wr trip f w))"
  proof (cases r)
    case None
    then show ?thesis by (simp add: handle_fill_def b)
  next
    case (Some x)
    then show ?thesis using same_books_end [of trip f x w1] by (simp add: handle_fill_def b) (metis prod.collapse)
  qed
  with b show ?thesis by blast
qed

lemma recent_handle_fill:
  assumes "recent oid k w" "Suc k < seen_capacity"
  shows "recent oid (Suc k) (snd (handle_fill wr trip f w))"
proof -
  obtain w1 r where b: "fill_begin wr f w = (w1, r)" "same_books w1 (snd (handle_fill wr trip f w))"
    using handle_fill_books by blast
  show ?thesis using recent_fill_begin [OF assms b(1)] b(2) by (simp add: recent_def same_books_def)
qed

lemma recent_fill_all:
  "recent oid k w \<Longrightarrow> k + length fs < seen_capacity \<Longrightarrow> recent oid (k + length fs) (fill_all fs w)"
proof (induction fs arbitrary: k w)
  case (Cons x fs)
  obtain wr trip f where x: "x = (wr, trip, f)" by (cases x)
  have "recent oid (Suc k) (snd (handle_fill wr trip f w))"
    using Cons.prems by (intro recent_handle_fill) auto
  from Cons.IH [OF this] Cons.prems(2) show ?case by (simp add: fill_all_def x)
qed (simp add: fill_all_def)

lemma seen_handle_fill: "seen_ok w \<Longrightarrow> seen_ok (snd (handle_fill wr trip f w))"
proof -
  assume s: "seen_ok w"
  obtain w1 r where b: "fill_begin wr f w = (w1, r)" "same_books w1 (snd (handle_fill wr trip f w))"
    using handle_fill_books by blast
  from b(1) have "seen_ok w1"
    by (cases rule: fill_begin_cases)
       (use s seen_remember [OF s, of "of_order_id f"] in \<open>auto simp: seen_ok_def\<close>)
  then show ?thesis using same_books_seen [OF b(2)] by simp
qed

lemma seen_fill_all: "seen_ok w \<Longrightarrow> seen_ok (fill_all fs w)"
  unfolding fill_all_def by (rule fold_invariant [where P = seen_ok]) (auto intro: seen_handle_fill)

lemma handle_dup: "of_order_id f \<in> w_seen_fill_ids w \<Longrightarrow> handle_fill wr trip f w = (Inr (), w)"
  by (simp add: handle_fill_def fill_begin_def)

lemma recent_after:
  assumes "of_order_id f \<notin> w_seen_fill_ids w"
  shows "recent (of_order_id f) 0 (snd (handle_fill wr trip f w))"
proof -
  obtain w1 r where b: "fill_begin wr f w = (w1, r)" "same_books w1 (snd (handle_fill wr trip f w))"
    using handle_fill_books by blast
  from b(1) have "recent (of_order_id f) 0 w1"
    by (cases rule: fill_begin_cases) (use assms in \<open>auto simp: recent_def remember_order\<close>)
  then show ?thesis using b(2) by (simp add: recent_def same_books_def)
qed

lemma base_fields [simp]:
  "oe_symbol (base_event t req w) = or_symbol req" "oe_side (base_event t req w) = or_side req"
  "oe_requested_size (base_event t req w) = or_size req"
  by (simp_all add: base_event_def)

lemma place_and_persist_cases:
  "case place_and_persist place t lat wr req (w, c) of (r, w', c') \<Rightarrow>
     c' = snd (place req c) \<and>
     (case fst (place req c) of
        Inl e \<Rightarrow>
          w_open_orders w' = w_open_orders w \<and> w_position_notional w' = w_position_notional w \<and>
          (if e = ExchangeRESTError
           then r = Inr () \<and> (\<exists>row. oe_status row = ''failed'' \<and>
                  oe_client_order_id row = or_client_order_id req \<and> oe_symbol row = or_symbol req \<and>
                  w_trace w' = w_trace w @ [case wr of Inr _ \<Rightarrow> WRow row | Inl _ \<Rightarrow> WRowFailed row])
           else r = Inl e \<and> w' = w)
      | Inr p \<Rightarrow>
          r = Inr () \<and>
          (\<exists>row. oe_order_id row = pl_order_id p \<and> oe_client_order_id row = pl_client_order_id p \<and>
             oe_symbol row = or_symbol req \<and> oe_side row = or_side req \<and> oe_requested_size row = or_size req \<and>
             (if pl_status p = ''rejected''
              then oe_status row = ''rejected'' \<and> w_open_orders w' = w_open_orders w \<and>
                w_position_notional w' = w_position_notional w \<and>
                w_trace w' = w_trace w @
                  [WMetric (ObserveLatency (w_strategy_name w) (or_exchange req) lat),
                   case wr of Inr _ \<Rightarrow> WRow row | Inl _ \<Rightarrow> WRowFailed row,
                   WMetric (IncOrderRejected (w_strategy_name w) (or_exchange req) (or_symbol req))]
              else oe_status row = ''placed'' \<and>
                w_open_orders w' = dset (pl_order_id p) (req, p) (w_open_orders w) \<and>
                w_position_notional w' = dset (or_symbol req)
                  (dget (w_position_notional w) (or_symbol req) (Fin 0) + order_notional req w)
                  (w_position_notional w) \<and>
                w_trace w' = w_trace w @
                  [WMetric (ObserveLatency (w_strategy_name w) (or_exchange req) lat),
                   case wr of Inr _ \<Rightarrow> WRow row | Inl _ \<Rightarrow> WRowFailed row,
                   WMetric (IncOrderPlaced (w_strategy_name w) (or_exchange req) (or_symbol req) (or_side req))])))"
proof (cases "place req c")
  case (Pair reply c1)
  show ?thesis
  proof (cases reply)
    case (Inl e)
    let ?row = "(base_event t req w)\<lparr>oe_client_order_id := or_client_order_id req, oe_status := ''failed''\<rparr>"
    from Inl Pair show ?thesis
      by (cases "e = ExchangeRESTError")
         (auto simp: place_and_persist_def place_reply_def intro!: exI [of _ ?row])
  next
    case (Inr p)
    let ?row = "(base_event t req w)\<lparr>oe_order_id := pl_order_id p, oe_client_order_id := pl_client_order_id p,
      oe_ts_exchange := pl_ts_exchange p * 1000\<rparr>"
    show ?thesis
    proof (cases "pl_status p = ''rejected''")
      case True
      with Pair Inr show ?thesis
        by (auto simp: place_and_persist_def place_reply_def Let_def
            intro!: exI [of _ "?row\<lparr>oe_status := ''rejected''\<rparr>"])
    next
      case False
      with Pair Inr show ?thesis
        by (auto simp: place_and_persist_def place_reply_def place_commit_def Let_def order_notional_def
            intro!: exI [of _ "?row\<lparr>oe_status := ''placed''\<rparr>"])
    qed
  qed
qed

lemma recent_seen: "seen_ok w \<Longrightarrow> recent oid k w \<Longrightarrow> oid \<in> w_seen_fill_ids w"
  unfolding seen_ok_def recent_def by (metis in_set_conv_decomp)

text \<open>A remembered id keeps its open order open while it is remembered.\<close>

lemma open_fill_all:
  assumes "seen_ok w" "recent oid k w" "k + length fs < seen_capacity"
    and "map_of (w_open_orders w) oid = Some x"
  shows "map_of (w_open_orders (fill_all fs w)) oid = Some x"
  using assms
proof (induction fs arbitrary: k w)
  case (Cons y fs)
  obtain wr trip f where y: "y = (wr, trip, f)" by (cases y)
  let ?w1 = "snd (handle_fill wr trip f w)"
  obtain w0 r where b: "fill_begin wr f w = (w0, r)" "same_books w0 ?w1"
    using handle_fill_books by blast
  have "oid \<in> w_seen_fill_ids w" using Cons.prems(1,2) by (rule recent_seen)
  from b(1) have "map_of (w_open_orders w0) oid = Some x"
    by (cases rule: fill_begin_cases) (use \<open>oid \<in> _\<close> Cons.prems(4) in auto)
  then have "map_of (w_open_orders ?w1) oid = Some x" using b(2) by (simp add: same_books_def)
  moreover have "recent oid (Suc k) ?w1"
    using Cons.prems by (intro recent_handle_fill) auto
  ultimately have "map_of (w_open_orders (fill_all fs ?w1)) oid = Some x"
    using Cons.prems(3) by (intro Cons.IH seen_handle_fill Cons.prems(1)) auto
  then show ?case by (simp add: fill_all_def y)
qed (simp add: fill_all_def)

lemma notional_fill_all:
  assumes "seen_ok w" "recent oid k w" "k + length fs < seen_capacity"
    and "\<forall>i r p. map_of (w_open_orders w) i = Some (r, p) \<longrightarrow> i \<noteq> oid \<longrightarrow> or_symbol r \<noteq> sy"
  shows "dget (w_position_notional (fill_all fs w)) sy (Fin 0) = dget (w_position_notional w) sy (Fin 0)"
  using assms
proof (induction fs arbitrary: k w)
  case (Cons y fs)
  obtain wr trip f where y: "y = (wr, trip, f)" by (cases y)
  let ?w1 = "snd (handle_fill wr trip f w)"
  obtain w0 r where b: "fill_begin wr f w = (w0, r)" "same_books w0 ?w1"
    using handle_fill_books by blast
  have i: "oid \<in> w_seen_fill_ids w" using Cons.prems(1,2) by (rule recent_seen)
  from b(1) have "dget (w_position_notional w0) sy (Fin 0) = dget (w_position_notional w) sy (Fin 0) \<and>
      (\<forall>i r p. map_of (w_open_orders w0) i = Some (r, p) \<longrightarrow> i \<noteq> oid \<longrightarrow> or_symbol r \<noteq> sy)"
  proof (cases rule: fill_begin_cases)
    case (fill req placed realized)
    then have "of_order_id f \<noteq> oid" using i by blast
    then have "or_symbol req \<noteq> sy" using Cons.prems(4) fill(2) by blast
    then show ?thesis using Cons.prems(4) fill(4,5) by (auto simp: dget_dset split: if_splits)
  qed (use Cons.prems(4) in auto)
  then have "dget (w_position_notional ?w1) sy (Fin 0) = dget (w_position_notional w) sy (Fin 0)"
    and o1: "\<forall>i r p. map_of (w_open_orders ?w1) i = Some (r, p) \<longrightarrow> i \<noteq> oid \<longrightarrow> or_symbol r \<noteq> sy"
    using b(2) by (simp_all add: same_books_def)
  moreover have "recent oid (Suc k) ?w1"
    using Cons.prems by (intro recent_handle_fill) auto
  then have "dget (w_position_notional (fill_all fs ?w1)) sy (Fin 0) = dget (w_position_notional ?w1) sy (Fin 0)"
    using Cons.prems(3) by (intro Cons.IH [of _ "Suc k"] seen_handle_fill Cons.prems(1) o1) auto
  ultimately show ?case by (simp add: fill_all_def y)
qed (simp add: fill_all_def)

section \<open>Properties\<close>

text \<open>
  C1. Crash safety and entry discipline of the order worker under every interleaving of placements,
  rejections, fills, awaited writes and failing writes, from a fresh worker: the \<open>placed\<close> row of each open
  order, with the order's symbol, side and size, has been handed to the table before, and was written
  or its loss was logged, so as long as no write has failed every open order has its row; and no two
  open orders are entries for the same symbol and side.
\<close>

theorem worker_crash_safe:
  assumes "wstep\<^sup>*\<^sup>* (idle (worker_init name pct paper portfolio cap cb has_cb)) s"
  shows "(\<forall>oid r p. (oid, r, p) \<in> set (w_open_orders (ws_worker s)) \<longrightarrow>
       (\<exists>row. oe_status row = ''placed'' \<and> oe_order_id row = oid \<and> oe_symbol row = or_symbol r \<and>
          oe_side row = or_side r \<and> oe_requested_size row = or_size r \<and>
          (WRow row \<in> set (w_trace (ws_worker s)) \<or> WRowFailed row \<in> set (w_trace (ws_worker s))) \<and>
          ((\<forall>lost. WRowFailed lost \<notin> set (w_trace (ws_worker s))) \<longrightarrow>
             WRow row \<in> set (w_trace (ws_worker s))))) \<and>
    (\<forall>o1 r1 p1 o2 r2 p2. (o1, r1, p1) \<in> set (w_open_orders (ws_worker s)) \<longrightarrow>
       (o2, r2, p2) \<in> set (w_open_orders (ws_worker s)) \<longrightarrow>
       or_order_role r1 = ''entry'' \<and> or_order_role r2 = ''entry'' \<and> or_symbol r1 = or_symbol r2 \<and>
       or_side r1 = or_side r2 \<longrightarrow> (o1, r1, p1) = (o2, r2, p2))"
proof -
  let ?w = "ws_worker s"
  have ok: "books_ok ?w" using reachable_ok [OF assms] by (simp add: wsys_ok_def)
  have m: "(oid, x) \<in> set (w_open_orders ?w) \<Longrightarrow> map_of (w_open_orders ?w) oid = Some x" for oid x
    using ok by (simp add: books_ok_def dinv_def)
  have u: "(o1, r1, p1) = (o2, r2, p2)" if "(o1, r1, p1) \<in> set (w_open_orders ?w)"
    "(o2, r2, p2) \<in> set (w_open_orders ?w)" "is_entry_of r1 r2" for o1 r1 p1 o2 r2 p2
  proof -
    have "o1 = o2" using ok m [OF that(1)] m [OF that(2)] that(3)
      unfolding books_ok_def one_entry_def by blast
    then show ?thesis using m [OF that(1)] m [OF that(2)] by simp
  qed
  show ?thesis
  proof (intro conjI allI impI)
    fix oid r p assume "(oid, r, p) \<in> set (w_open_orders ?w)"
    from m [OF this] have "placed_row oid (r, p) ?w" using ok unfolding books_ok_def by blast
    then show "\<exists>row. oe_status row = ''placed'' \<and> oe_order_id row = oid \<and> oe_symbol row = or_symbol r \<and>
        oe_side row = or_side r \<and> oe_requested_size row = or_size r \<and>
        (WRow row \<in> set (w_trace ?w) \<or> WRowFailed row \<in> set (w_trace ?w)) \<and>
        ((\<forall>lost. WRowFailed lost \<notin> set (w_trace ?w)) \<longrightarrow> WRow row \<in> set (w_trace ?w))"
      unfolding placed_row_def fst_conv by blast
  next
    fix o1 r1 p1 o2 r2 p2
    assume h: "(o1, r1, p1) \<in> set (w_open_orders ?w)" "(o2, r2, p2) \<in> set (w_open_orders ?w)"
      "or_order_role r1 = ''entry'' \<and> or_order_role r2 = ''entry'' \<and> or_symbol r1 = or_symbol r2 \<and>
       or_side r1 = or_side r2"
    have "is_entry_of r1 r2" unfolding is_entry_of_def using h(3) by blast
    then show "(o1, r1, p1) = (o2, r2, p2)" by (rule u [OF h(1,2)])
  qed
qed

text \<open>
  A lost row does not stop the order: when the table write fails the order is opened all the same, and
  the trace holds no written row for it, so a restart from the table would not find it.
\<close>

theorem failed_write_still_opens:
  assumes "gate_of req w = Pass" and "place req c = (Inr placed, c')" and "pl_status placed \<noteq> ''rejected''"
    and "process_order place t lat (Inl e) req (w, c) = (r, w', c'')"
  shows "r = Inr () \<and> map_of (w_open_orders w') (pl_order_id placed) = Some (req, placed) \<and>
    (\<forall>row. WRow row \<in> set (w_trace w') \<longrightarrow> WRow row \<in> set (w_trace w))"
  using assms
  by (auto simp: process_order_def place_and_persist_def place_reply_def place_commit_def Let_def)

text \<open>
  C17. A fill is applied once: the memory of fill ids holds exactly the last at most 10,000 ids, and
  after a fill has been handled another fill with the same order id changes nothing, as long as fewer
  than 10,000 fills were handled in between.
\<close>

theorem fill_applied_once:
  fixes wr trip :: "unit res"
  assumes "seen_ok w" and "length fs < 10000" and "of_order_id f' = of_order_id f"
  defines "w' \<equiv> fill_all fs (snd (handle_fill wr trip f w))"
  shows "seen_ok w' \<and> card (w_seen_fill_ids w') \<le> 10000 \<and>
    (of_order_id f \<notin> w_seen_fill_ids w \<longrightarrow> handle_fill wr' trip' f' w' = (Inr (), w'))"
proof -
  have s: "seen_ok w'"
    unfolding w'_def by (intro seen_fill_all seen_handle_fill assms(1))
  then have "card (w_seen_fill_ids w') \<le> 10000"
    using distinct_card [of "w_seen_fill_ids_order w'"] by (simp add: seen_ok_def seen_capacity_def)
  moreover have "handle_fill wr' trip' f' w' = (Inr (), w')" if "of_order_id f \<notin> w_seen_fill_ids w"
  proof -
    have r0: "recent (of_order_id f) 0 (snd (handle_fill wr trip f w))" by (rule recent_after [OF that])
    have "0 + length fs < seen_capacity" using assms(2) unfolding seen_capacity_def by linarith
    from recent_fill_all [OF r0 this] have "recent (of_order_id f) (0 + length fs) w'"
      unfolding w'_def .
    then have "of_order_id f \<in> set (w_seen_fill_ids_order w')" unfolding recent_def by force
    then have "of_order_id f' \<in> w_seen_fill_ids w'" using s assms(3) unfolding seen_ok_def by metis
    then show ?thesis by (rule handle_dup)
  qed
  ultimately show ?thesis using s by blast
qed

text \<open>
  C9. The gates decide and nothing else does: a request reaches the exchange exactly when it is not an
  entry that duplicates an open entry, and, unless it is an exit or a stop, neither the per-order
  cap (when set) nor the position limit would be exceeded. A request that is held back leaves the
  exchange untouched and changes nothing but one counter. A request that goes through is sent once: a REST
  error leaves the books alone and hands over a \<open>failed\<close> row with the client's id, any other
  exception ends the worker; a rejected order hands over a \<open>rejected\<close> row and opens nothing; any other
  answer hands over the \<open>placed\<close> row and then opens the order and reserves its notional.
\<close>

theorem process_order_gates:
  "case process_order place t lat wr req (w, c) of (r, w', c') \<Rightarrow>
     (if or_order_role req = ''entry'' \<and>
            (\<exists>(oid, r, p) \<in> set (w_open_orders w). or_symbol r = or_symbol req \<and> or_side r = or_side req \<and>
               or_order_role r = ''entry'')
      then r = Inr () \<and> c' = c \<and>
        w' = effect (WMetric (IncOrderQueueDedup (w_strategy_name w) (or_symbol req))) w
      else if or_order_role req \<notin> {''exit'', ''stop''} \<and>
          (\<not> w_max_order_notional_usd w \<le> Fin 0 \<and> w_max_order_notional_usd w < or_size req * w_portfolio_value_usd w \<or>
           w_max_position_pct w * w_portfolio_value_usd w <
             dget (w_position_notional w) (or_symbol req) (Fin 0) + or_size req * w_portfolio_value_usd w)
      then r = Inr () \<and> c' = c \<and>
        w' = effect (WMetric (IncRiskGateBlock (w_strategy_name w) (or_symbol req))) w
      else c' = snd (place req c) \<and>
        (case fst (place req c) of
           Inl e \<Rightarrow>
             w_open_orders w' = w_open_orders w \<and> w_position_notional w' = w_position_notional w \<and>
             (if e = ExchangeRESTError
              then r = Inr () \<and> (\<exists>row. oe_status row = ''failed'' \<and>
                     oe_client_order_id row = or_client_order_id req \<and> oe_symbol row = or_symbol req \<and>
                     w_trace w' = w_trace w @ [case wr of Inr _ \<Rightarrow> WRow row | Inl _ \<Rightarrow> WRowFailed row])
              else r = Inl e \<and> w' = w)
         | Inr p \<Rightarrow>
             r = Inr () \<and>
             (\<exists>row. oe_order_id row = pl_order_id p \<and> oe_client_order_id row = pl_client_order_id p \<and>
                oe_symbol row = or_symbol req \<and> oe_side row = or_side req \<and> oe_requested_size row = or_size req \<and>
                (if pl_status p = ''rejected''
                 then oe_status row = ''rejected'' \<and> w_open_orders w' = w_open_orders w \<and>
                   w_position_notional w' = w_position_notional w \<and>
                   w_trace w' = w_trace w @
                     [WMetric (ObserveLatency (w_strategy_name w) (or_exchange req) lat),
                      case wr of Inr _ \<Rightarrow> WRow row | Inl _ \<Rightarrow> WRowFailed row,
                      WMetric (IncOrderRejected (w_strategy_name w) (or_exchange req) (or_symbol req))]
                 else oe_status row = ''placed'' \<and>
                   w_open_orders w' = dset (pl_order_id p) (req, p) (w_open_orders w) \<and>
                   w_position_notional w' = dset (or_symbol req)
                     (dget (w_position_notional w) (or_symbol req) (Fin 0) + or_size req * w_portfolio_value_usd w)
                     (w_position_notional w) \<and>
                   w_trace w' = w_trace w @
                     [WMetric (ObserveLatency (w_strategy_name w) (or_exchange req) lat),
                      case wr of Inr _ \<Rightarrow> WRow row | Inl _ \<Rightarrow> WRowFailed row,
                      WMetric (IncOrderPlaced (w_strategy_name w) (or_exchange req) (or_symbol req) (or_side req))]))))"
proof -
  have d: "is_entry_dedup req w \<longleftrightarrow> or_order_role req = ''entry'' \<and>
      (\<exists>(oid, r, p) \<in> set (w_open_orders w). or_symbol r = or_symbol req \<and> or_side r = or_side req \<and>
         or_order_role r = ''entry'')"
    by (simp add: is_entry_dedup_def list_ex_iff split_def)
  have h: "exceeds_hard_limit req w \<or> exceeds_risk_gate req w \<longleftrightarrow> or_order_role req \<notin> {''exit'', ''stop''} \<and>
      (\<not> w_max_order_notional_usd w \<le> Fin 0 \<and> w_max_order_notional_usd w < or_size req * w_portfolio_value_usd w \<or>
       w_max_position_pct w * w_portfolio_value_usd w <
         dget (w_position_notional w) (or_symbol req) (Fin 0) + or_size req * w_portfolio_value_usd w)"
    unfolding exceeds_hard_limit_def exceeds_risk_gate_def order_notional_def Let_def by argo
  have g: "process_order place t lat wr req (w, c) =
      (if is_entry_dedup req w then (Inr (), effect (WMetric (IncOrderQueueDedup (w_strategy_name w) (or_symbol req))) w, c)
       else if exceeds_hard_limit req w \<or> exceeds_risk_gate req w
       then (Inr (), effect (WMetric (IncRiskGateBlock (w_strategy_name w) (or_symbol req))) w, c)
       else place_and_persist place t lat wr req (w, c))"
    by (simp add: process_order_def gate_of_def)
  note placed = place_and_persist_cases [where place = place and t = t and lat = lat and wr = wr and req = req
      and w = w and c = c, unfolded order_notional_def]
  consider "is_entry_dedup req w" | "\<not> is_entry_dedup req w" "exceeds_hard_limit req w \<or> exceeds_risk_gate req w"
    | "\<not> is_entry_dedup req w" "\<not> (exceeds_hard_limit req w \<or> exceeds_risk_gate req w)" by blast
  then show ?thesis
  proof cases
    case 3
    then show ?thesis unfolding d [symmetric] h [symmetric] g using placed by (simp only: if_False split: prod.splits)
  qed (simp_all only: d [symmetric] h [symmetric] g if_True if_False prod.case simp_thms)
qed

text \<open>
  C37. A fill that overtakes its order's row is lost: placement records an open order only after the awaited
  table write; if the fill is handled during that wait it is logged as unknown and its id remembered. After
  the commit, and after any fewer than 10,000 further fills of any orders, the order is still open, its own
  fills change nothing, every further entry for the symbol and side is dropped as a duplicate, and its
  notional, added to the symbol's at the commit, is still reserved unless another open order of the
  same symbol was filled.
\<close>

theorem fill_before_commit_lost:
  fixes wr :: "unit res"
  assumes "seen_ok w" and "pl_order_id placed \<notin> w_seen_fill_ids w"
    and "pl_order_id placed \<notin> set (dkeys (w_open_orders w))"
    and "of_order_id fill = pl_order_id placed" and "or_order_role req = ''entry''"
    and "length fs < 10000"
  defines "w' \<equiv> fill_all fs (place_commit req placed (fst (fill_begin wr fill w)))"
  shows "map_of (w_open_orders w') (pl_order_id placed) = Some (req, placed) \<and>
    (\<forall>fill' wr' trip'. of_order_id fill' = pl_order_id placed \<longrightarrow> handle_fill wr' trip' fill' w' = (Inr (), w')) \<and>
    (\<forall>req'. or_order_role req' = ''entry'' \<and> or_symbol req' = or_symbol req \<and> or_side req' = or_side req \<longrightarrow>
       gate_of req' w' = Duplicate) \<and>
    ((\<forall>(oid, r, p) \<in> set (w_open_orders w). or_symbol r \<noteq> or_symbol req) \<longrightarrow>
       dget (w_position_notional w') (or_symbol req) (Fin 0) =
         dget (w_position_notional w) (or_symbol req) (Fin 0) + order_notional req w)"
proof -
  let ?id = "pl_order_id placed" and ?w1 = "fst (fill_begin wr fill w)"
  have "map_of (w_open_orders w) (of_order_id fill) = None"
    using assms(3,4) by (metis domIff set_dkeys)
  then have w1: "?w1 = remember_fill ?id w" using assms(2,4) by (simp add: fill_begin_def Let_def)
  have "seen_ok ?w1" using seen_remember [OF assms(1,2)] w1 by simp
  then have s: "seen_ok (place_commit req placed ?w1)" by (simp add: seen_ok_def commit_fields)
  have rec: "recent ?id 0 (place_commit req placed ?w1)"
    by (auto simp: recent_def commit_fields w1 remember_order)
  have cap: "0 + length fs < seen_capacity" using assms(6) unfolding seen_capacity_def by linarith
  have "map_of (w_open_orders (place_commit req placed ?w1)) ?id = Some (req, placed)"
    by (simp add: commit_fields)
  then have op: "map_of (w_open_orders w') ?id = Some (req, placed)"
    unfolding w'_def by (rule open_fill_all [OF s rec cap])
  have r: "recent ?id (0 + length fs) w'"
    unfolding w'_def by (rule recent_fill_all [OF rec cap])
  have "?id \<in> set (w_seen_fill_ids_order w')" using r unfolding recent_def by force
  moreover have "seen_ok w'" unfolding w'_def by (rule seen_fill_all [OF s])
  ultimately have seen: "?id \<in> w_seen_fill_ids w'" unfolding seen_ok_def by metis
  have "gate_of req' w' = Duplicate"
    if "or_order_role req' = ''entry''" "or_symbol req' = or_symbol req" "or_side req' = or_side req" for req'
    using map_of_SomeD [OF op] that assms(5) by (fastforce simp: gate_of_def is_entry_dedup_def list_ex_iff)
  moreover have "dget (w_position_notional w') (or_symbol req) (Fin 0) =
      dget (w_position_notional w) (or_symbol req) (Fin 0) + order_notional req w"
    if "\<forall>(oid, r, p) \<in> set (w_open_orders w). or_symbol r \<noteq> or_symbol req"
  proof -
    let ?w2 = "place_commit req placed ?w1"
    have "\<forall>i r p. map_of (w_open_orders ?w2) i = Some (r, p) \<longrightarrow> i \<noteq> ?id \<longrightarrow> or_symbol r \<noteq> or_symbol req"
      using that by (fastforce simp: commit_fields w1 dest: map_of_SomeD)
    then have "dget (w_position_notional w') (or_symbol req) (Fin 0) = dget (w_position_notional ?w2) (or_symbol req) (Fin 0)"
      unfolding w'_def by (rule notional_fill_all [OF s rec cap])
    then show ?thesis by (simp add: commit_fields w1 dget_dset)
  qed
  ultimately show ?thesis using op handle_dup [of _ w'] seen by metis
qed

text \<open>
  The position limit does not see filled positions: an order that passed the risk gate with no
  other notional on its symbol passes it again as soon as it has been filled, so repeated entries
  build a position of any size, although \<open>_exceeds_risk_gate\<close> is documented to bound the position.
\<close>

theorem filled_position_not_gated:
  assumes "dget (w_position_notional w) (or_symbol req) (Fin 0) = Fin 0"
    and "pl_order_id placed \<notin> w_seen_fill_ids w"
    and "of_order_id fill = pl_order_id placed" and "order_notional req w = Fin n"
  shows "exceeds_risk_gate req (snd (handle_fill wr (Inr ()) fill (place_commit req placed w))) =
    exceeds_risk_gate req w"
proof -
  let ?w1 = "place_commit req placed w" and ?w2 = "snd (handle_fill wr (Inr ()) fill (place_commit req placed w))"
  have on: "order_notional req ?w1 = Fin n" and cfg: "w_portfolio_value_usd ?w1 = w_portfolio_value_usd w"
      "w_max_position_pct ?w1 = w_max_position_pct w"
    using assms(4) by (simp_all add: order_notional_def place_commit_def Let_def)
  obtain w3 r where b: "fill_begin wr fill ?w1 = (w3, r)" "same_books w3 ?w2" using handle_fill_books by blast
  have ok: "f64_ok (Fin n)" using assms(4) f64_ok_times unfolding order_notional_def by metis
  have "dget (w_position_notional w3) (or_symbol req) (Fin 0) = Fin 0"
    using b(1)
  proof (cases rule: fill_begin_cases)
    case dup
    then show ?thesis using assms(2,3) by (simp add: commit_fields)
  next
    case unknown
    then show ?thesis using assms(3) by (simp add: commit_fields)
  next
    case (fill req' placed' realized)
    then have "req' = req" using assms(3) by (simp add: commit_fields)
    moreover have "py_max (Fin 0) (Fin 0 + Fin n - Fin n) = Fin 0"
      using zero_plus_f64 [OF ok] by (simp add: py_max_def)
    ultimately show ?thesis using fill(5) assms(1,4) on by (simp add: commit_fields dget_dset)
  qed
  then have d: "dget (w_position_notional ?w2) (or_symbol req) (Fin 0) = Fin 0"
    using b(2) by (simp add: same_books_def)
  have "w_portfolio_value_usd ?w2 = w_portfolio_value_usd w \<and> w_max_position_pct ?w2 = w_max_position_pct w"
    using handle_fill_cfg [of wr "Inr ()" fill ?w1] cfg by simp
  then show ?thesis using d assms(1) by (simp add: exceeds_risk_gate_def order_notional_def Let_def)
qed

text \<open>
  An unexpected answer of the exchange silences the strategy: \<open>_place_and_persist\<close> catches the REST
  error only, and \<open>run\<close> catches nothing, so when \<open>place_order\<close> raises anything else (a missing
  \<open>orderId\<close> is a KeyError) the worker ends and no later request is ever processed.
\<close>

theorem worker_dies_on_unexpected_error:
  assumes "gate_of req w = Pass" and "place req c = (Inl e, c')" and "e \<noteq> ExchangeRESTError"
  shows "worker_run place ((t, lat, wr, req) # reqs) (w, c) = (Inl e, w, c')"
  using assms by (simp add: process_order_def place_and_persist_def place_reply_def)

text \<open>
  The loss limit fires once: over any history of fills the trip callback is called at most once, and
  only after a fill whose recorded daily P\&L is below the negated limit; if the callback raises, the
  handler stops there and the gauges keep their previous values.
\<close>

definition trips :: "worker \<Rightarrow> nat" where
  "trips w = length (filter (\<lambda>e. e = WTrip) (w_trace w))"

definition trip_ok :: "worker \<Rightarrow> bool" where
  "trip_ok w \<longleftrightarrow> (trips w = 0 \<or> trips w = 1 \<and> w_trip_fired w) \<and>
     (w_trip_fired w \<longrightarrow> (\<exists>cb. w_circuit_breaker w = Some cb \<and> is_tripped cb))"

lemma trip_ok_begin:
  assumes "trip_ok w" "fill_begin wr f w = (w', r)"
  shows "trip_ok w'"
proof -
  have u: "update_position sy sd q p w1 = (x, w2) \<Longrightarrow> w_trace w2 = w_trace w1 \<and>
      w_trip_fired w2 = w_trip_fired w1 \<and> w_circuit_breaker w2 = w_circuit_breaker w1" for sy sd q p w1 x w2
    by (auto simp: update_position_def Let_def split: if_splits)
  have "trips w' = trips w \<and> w_trip_fired w' = w_trip_fired w \<and> w_circuit_breaker w' = w_circuit_breaker w"
    using assms(2)
    by (auto simp: fill_begin_def Let_def remember_fill_def release_notional_def trips_def
        split: if_splits option.splits prod.splits dest!: u)
  then show ?thesis using assms(1) by (simp add: trip_ok_def)
qed

lemma trip_ok_end:
  assumes "trip_ok w" "fill_end trip f x w = (r, w')"
  shows "trip_ok w'"
proof -
  obtain w1 b where s: "breaker_step x w = (w1, b)" by fastforce
  have ok: "trip_ok w1"
    using s assms(1) by (auto simp: breaker_step_def Let_def trip_ok_def trips_def split: option.splits if_splits)
  have g: "trip_ok (update_gauges f x w1)"
    using ok by (simp add: update_gauges_def Let_def trip_ok_def trips_def)
  show ?thesis using assms(2) ok g by (auto simp: fill_end_def s split: sum.splits)
qed

lemma trip_ok_handle: "trip_ok w \<Longrightarrow> trip_ok (snd (handle_fill wr trip f w))"
  unfolding handle_fill_def
  by (cases "fill_begin wr f w") (auto split: option.splits dest: trip_ok_begin
      intro: trip_ok_end [OF _ surjective_pairing])

theorem loss_limit_fires_once:
  assumes "trips w = 0" and "\<not> w_trip_fired w"
  shows "trips (fill_all fs w) \<le> 1 \<and>
    (trips (fill_all fs w) = 1 \<longrightarrow> (\<exists>cb. w_circuit_breaker (fill_all fs w) = Some cb \<and>
       cb_daily_pnl cb < - \<bar>cb_limit_usd cb\<bar>)) \<and>
    (\<forall>f x e. trip = Inl e \<and> snd (breaker_step x w) \<longrightarrow>
       w_cumulative_pnl (snd (fill_end trip f x w)) = w_cumulative_pnl w \<and>
       w_peak_pnl (snd (fill_end trip f x w)) = w_peak_pnl w)"
proof -
  have "trip_ok w" using assms by (simp add: trip_ok_def)
  then have ok: "trip_ok (fill_all fs w)"
    unfolding fill_all_def by (intro fold_invariant [where P = trip_ok]) (auto intro: trip_ok_handle)
  have t: "is_tripped cb \<Longrightarrow> cb_daily_pnl cb < - \<bar>cb_limit_usd cb\<bar>" for cb
    by (simp add: is_tripped_def split: if_splits)
  have "w_cumulative_pnl (fst (breaker_step x w)) = w_cumulative_pnl w \<and>
      w_peak_pnl (fst (breaker_step x w)) = w_peak_pnl w" for x
    by (auto simp: breaker_step_def Let_def split: option.splits)
  then have "w_cumulative_pnl (snd (fill_end trip f x w)) = w_cumulative_pnl w \<and>
       w_peak_pnl (snd (fill_end trip f x w)) = w_peak_pnl w"
    if "trip = Inl e" "snd (breaker_step x w)" for f x e
    using that \<open>\<And>x. w_cumulative_pnl (fst (breaker_step x w)) = w_cumulative_pnl w \<and>
      w_peak_pnl (fst (breaker_step x w)) = w_peak_pnl w\<close> [of x]
    by (cases "breaker_step x w") (simp add: fill_end_def)
  moreover have "trips (fill_all fs w) \<le> 1" using ok by (auto simp: trip_ok_def)
  moreover have "trips (fill_all fs w) = 1 \<longrightarrow>
      (\<exists>cb. w_circuit_breaker (fill_all fs w) = Some cb \<and> cb_daily_pnl cb < - \<bar>cb_limit_usd cb\<bar>)"
    using ok t by (fastforce simp: trip_ok_def)
  ultimately show ?thesis by blast
qed

section \<open>Examples\<close>

definition sample_placed :: placed_order where
  "sample_placed = \<lparr>pl_order_id = ''o1'', pl_client_order_id = ''c1'', pl_status = ''placed'', pl_ts_exchange = 7\<rparr>"

text \<open>A worker with a portfolio of 1024, a position limit of 1/64 of it and a loss limit of 1.\<close>

definition sample_worker :: worker where
  "sample_worker = worker_init ''ma'' (Fin (1/64)) True (Fin 1024) (Fin 0) (Some (breaker_init (Fin 1))) True"

lemmas sample_defs = sample_worker_def sample_placed_def sample_order_def sample_fill_def worker_init_def
  breaker_init_def

lemma fl_frac: "fl (of_nat m / 2 ^ k) = Fin (of_nat m / 2 ^ k)" if "m < 2 ^ 53" "k \<le> 1074"
  using that by (rule fl_dyadic)

theorem worker_crash_safe_witness:
  "\<exists>row. WRow row \<in> set (w_trace (place_commit sample_order sample_placed
       (fst (snd (place_reply 0 (Fin 5) (Inr ()) sample_order (Inr sample_placed) sample_worker))))) \<and>
     oe_status row = ''placed'' \<and> oe_order_id row = ''o1''"
proof -
  let ?s0 = "idle sample_worker"
  let ?w1 = "fst (snd (place_reply 0 (Fin 5) (Inr ()) sample_order (Inr sample_placed) sample_worker))"
  let ?w2 = "place_commit sample_order sample_placed ?w1"
  have n: "order_notional sample_order sample_worker = Fin 8" "Fin (1/64) * Fin 1024 = Fin 16"
    by (simp_all add: order_notional_def sample_defs)
  have g: "gate_of sample_order sample_worker = Pass"
    using n by (simp add: gate_of_def is_entry_dedup_def exceeds_hard_limit_def exceeds_risk_gate_def
        sample_defs order_notional_def Let_def)
  have "place_reply 0 (Fin 5) (Inr ()) sample_order (Inr sample_placed) sample_worker = (Inr (), ?w1, Some sample_placed)"
    by (simp add: place_reply_def Let_def sample_placed_def)
  then have "wstep (?s0\<lparr>ws_placing := Some sample_order\<rparr>)
      (?s0\<lparr>ws_worker := ?w1, ws_placing := None, ws_committing := Some (sample_order, sample_placed)\<rparr>)"
    using wstep.reply [of "?s0\<lparr>ws_placing := Some sample_order\<rparr>" sample_order 0 "Fin 5" "Inr ()" "Inr sample_placed" ?w1
        "Some sample_placed"] by (simp add: idle_def)
  moreover have "wstep ?s0 (?s0\<lparr>ws_placing := Some sample_order\<rparr>)"
    using g by (intro wstep.submit) (simp_all add: idle_def)
  moreover have "wstep (?s0\<lparr>ws_worker := ?w1, ws_placing := None, ws_committing := Some (sample_order, sample_placed)\<rparr>)
      (idle ?w2)"
    using wstep.commit [of "?s0\<lparr>ws_worker := ?w1, ws_placing := None, ws_committing := Some (sample_order, sample_placed)\<rparr>"
        sample_order sample_placed] by (simp add: idle_def)
  ultimately have r: "wstep\<^sup>*\<^sup>* ?s0 (idle ?w2)" by (meson converse_rtranclp_into_rtranclp rtranclp.rtrancl_refl)
  have "w_open_orders ?w1 = []" by (simp add: place_reply_def Let_def sample_defs)
  then have o: "(''o1'', sample_order, sample_placed) \<in> set (w_open_orders ?w2)"
    by (simp add: commit_fields sample_placed_def)
  have "\<forall>lost. WRowFailed lost \<notin> set (w_trace ?w2)"
    by (simp add: place_commit_def place_reply_def write_order_event_def Let_def sample_defs)
  then show ?thesis
    using worker_crash_safe [OF r [unfolded sample_worker_def]] o
    by (simp only: idle_def sample_worker_def wsys.simps) blast
qed

theorem fill_applied_once_witness:
  "handle_fill (Inr ()) (Inr ()) (sample_fill ''o1'' (Fin 2) 9) (snd (handle_fill (Inr ()) (Inr ()) (sample_fill ''o1'' (Fin 1) 5) sample_worker)) =
     (Inr (), snd (handle_fill (Inr ()) (Inr ()) (sample_fill ''o1'' (Fin 1) 5) sample_worker))"
proof -
  have "seen_ok sample_worker" "of_order_id (sample_fill ''o1'' (Fin 1) 5) \<notin> w_seen_fill_ids sample_worker"
    by (simp_all add: seen_ok_def sample_defs)
  then show ?thesis
    using fill_applied_once [of sample_worker "[]" "sample_fill ''o1'' (Fin 2) 9" "sample_fill ''o1'' (Fin 1) 5" "Inr ()" "Inr ()"
      "Inr ()" "Inr ()"]
    by (simp add: fill_all_def sample_fill_def)
qed

theorem fill_before_commit_lost_witness:
  "let w' = fill_all [(Inr (), Inr (), sample_fill ''o2'' (Fin 1) 6)] (place_commit sample_order sample_placed
       (fst (fill_begin (Inr ()) (sample_fill ''o1'' (Fin 1) 5) sample_worker))) in
   map_of (w_open_orders w') ''o1'' = Some (sample_order, sample_placed) \<and>
   handle_fill (Inr ()) (Inr ()) (sample_fill ''o1'' (Fin 1) 7) w' = (Inr (), w') \<and>
   gate_of sample_order w' = Duplicate \<and>
   dget (w_position_notional w') (or_symbol sample_order) (Fin 0) = Fin 8"
  using fill_before_commit_lost [of sample_worker sample_placed "sample_fill ''o1'' (Fin 1) 5" sample_order
      "[(Inr (), Inr (), sample_fill ''o2'' (Fin 1) 6)]" "Inr ()"]
  by (simp add: sample_defs seen_ok_def order_notional_def dget_def Let_def)

theorem filled_position_not_gated_witness:
  "\<not> exceeds_risk_gate sample_order (snd (handle_fill (Inr ()) (Inr ()) (sample_fill ''o1'' (Fin 1) 5)
     (place_commit sample_order sample_placed sample_worker)))"
proof -
  have n: "order_notional sample_order sample_worker = Fin 8"
    by (simp add: order_notional_def sample_defs)
  have "\<not> exceeds_risk_gate sample_order sample_worker"
    using n by (simp add: exceeds_risk_gate_def sample_defs order_notional_def Let_def)
  then show ?thesis
    using filled_position_not_gated [of sample_worker sample_order sample_placed "sample_fill ''o1'' (Fin 1) 5" 8] n
    by (simp add: sample_defs)
qed

theorem worker_dies_on_unexpected_error_witness:
  "worker_run (\<lambda>req (c::int). (Inl KeyError, c)) [(0, Fin 1, Inr (), sample_order), (0, Fin 1, Inr (), sample_order)]
     (sample_worker, 0) = (Inl KeyError, sample_worker, 0)"
proof -
  have "gate_of sample_order sample_worker = Pass"
    by (simp add: gate_of_def is_entry_dedup_def exceeds_hard_limit_def exceeds_risk_gate_def
        sample_defs order_notional_def Let_def)
  then show ?thesis
    using worker_dies_on_unexpected_error [of sample_order sample_worker "\<lambda>req (c::int). (Inl KeyError, c)" 0 KeyError 0]
    by simp
qed

theorem loss_limit_fires_once_witness:
  "trips (fill_all [(Inr (), Inr (), sample_fill ''o1'' (Fin 1) 5), (Inr (), Inr (), sample_fill ''o2'' (Fin 1) 6)] sample_worker) \<le> 1"
  using loss_limit_fires_once [of sample_worker "[(Inr (), Inr (), sample_fill ''o1'' (Fin 1) 5), (Inr (), Inr (), sample_fill ''o2'' (Fin 1) 6)]"]
  by (simp add: trips_def sample_defs)

end
