(* ===== verification/Base_Strategy.thy ===== *)
theory Base_Strategy
  imports Exchange "HOL-Library.Multiset"
begin

text \<open>
  The base class of the live strategies (\<open>strategy/base.py\<close>): handler registration with the lookback
  gate and the NaN guard, bar and gap handling, history loading, and the bus-silence emergency
  close. A DataFrame is its list of rows together with the names of the indicator columns; a null cell is a
  NaN. A subclass's \<open>add_indicators\<close> is an argument that may change the frame before it raises.
\<close>

section \<open>Frames\<close>

record hist_row =
  hr_ts :: int
  hr_open :: f64
  hr_high :: f64
  hr_low :: f64
  hr_close :: f64
  hr_volume :: f64
  hr_quote_volume :: f64
  hr_trade_count :: int
  hr_is_complete :: bool
  hr_has_gap :: bool
  hr_extra :: "(string, f64) dict"

record frame =
  fr_cols :: "string list"
  fr_rows :: "hist_row list"

definition empty_frame :: frame where
  "empty_frame = \<lparr>fr_cols = [], fr_rows = []\<rparr>"

definition row_has_null :: "string list \<Rightarrow> hist_row \<Rightarrow> bool" where
  "row_has_null cols r \<longleftrightarrow>
     list_ex is_nan [hr_open r, hr_high r, hr_low r, hr_close r, hr_volume r, hr_quote_volume r] \<or>
     list_ex (\<lambda>c. is_nan (dget (hr_extra r) c NaN)) cols"

text \<open>\<open>pd.concat\<close> with a row that lacks the indicator columns leaves them null in that row.\<close>

definition append_bar :: "bar_close \<Rightarrow> frame \<Rightarrow> frame" where
  "append_bar bar df = df\<lparr>fr_rows := fr_rows df @
     [\<lparr>hr_ts = bc_ts bar, hr_open = bc_open bar, hr_high = bc_high bar, hr_low = bc_low bar,
       hr_close = bc_close bar, hr_volume = bc_volume bar, hr_quote_volume = bc_quote_volume bar,
       hr_trade_count = bc_trade_count bar, hr_is_complete = bc_is_complete bar, hr_has_gap = False,
       hr_extra = []\<rparr>]\<rparr>"

section \<open>State\<close>

record strategy =
  st_name :: string
  st_min_lookback :: int
  st_max_position_pct :: f64
  st_paper_trading :: bool
  st_bus_timeout_seconds :: int
  st_close_on_bus_timeout :: bool
  st_dfs :: "(string \<times> string, frame) dict"
  st_bar_handlers :: "(string \<times> string, int) dict"  \<comment> \<open>the lookback captured at registration\<close>
  st_signal_invalid :: "(string, bool) dict"
  st_clean_bar_count :: "(string, int) dict"
  st_managed_positions :: "string list"
  st_last_event_ts :: rat
  st_open_positions :: "(string, f64) dict"
  st_has_client :: bool
  st_exchange :: string
  st_in_flight :: "string set"
  st_funding_stream_keys :: "string list"
  st_metrics :: "mcall list"

definition strategy_init ::
  "string \<Rightarrow> int \<Rightarrow> f64 \<Rightarrow> bool \<Rightarrow> int \<Rightarrow> bool \<Rightarrow> string \<Rightarrow> rat \<Rightarrow> strategy res" where
  "strategy_init name lookback pct paper bus_timeout close_on mode now =
     (if \<not> (Fin 0 < pct \<and> pct \<le> Fin 1) then Inl ValueError
      else if mode \<notin> {''none'', ''snapshot_1s'', ''full_stream'', ''both''} then Inl ValueError
      else Inr \<lparr>st_name = name, st_min_lookback = lookback, st_max_position_pct = pct,
             st_paper_trading = paper, st_bus_timeout_seconds = bus_timeout,
             st_close_on_bus_timeout = close_on, st_dfs = [], st_bar_handlers = [],
             st_signal_invalid = [], st_clean_bar_count = [], st_managed_positions = [],
             st_last_event_ts = now, st_open_positions = [], st_has_client = False, st_exchange = [],
             st_in_flight = {}, st_funding_stream_keys = [], st_metrics = []\<rparr>)"

definition st_metric :: "mcall \<Rightarrow> strategy \<Rightarrow> strategy" where
  "st_metric c st = st\<lparr>st_metrics := st_metrics st @ [c]\<rparr>"

definition register_funding_rate_handler :: "string \<Rightarrow> string \<Rightarrow> strategy \<Rightarrow> strategy" where
  "register_funding_rate_handler ex sy st =
     st\<lparr>st_funding_stream_keys := add_set (''funding:'' @ ex @ '':'' @ sy) (st_funding_stream_keys st)\<rparr>"

definition register_bar_handler :: "string \<Rightarrow> string \<Rightarrow> strategy \<Rightarrow> strategy" where
  "register_bar_handler sy tf st =
     st\<lparr>st_bar_handlers := dset (sy, tf) (st_min_lookback st) (st_bar_handlers st)\<rparr>"

section \<open>Bars and gaps\<close>

datatype dispatch = NoHandler | TooShort | NanBlocked | Called

text \<open>The closure \<open>_wrapped\<close>: the lookback gate, then the NaN guard, then the handler.\<close>

definition wrapped_handler :: "int \<Rightarrow> string \<Rightarrow> frame \<Rightarrow> strategy \<Rightarrow> dispatch \<times> strategy" where
  "wrapped_handler min_lb sy df st =
     (if int (length (fr_rows df)) < min_lb then (TooShort, st)
      else if fr_rows df \<noteq> [] \<and> row_has_null (fr_cols df) (last (fr_rows df))
        then (NanBlocked, st_metric (IncNanGuard (st_name st) sy) st)
      else (Called, st))"

definition on_clean_bar :: "string \<Rightarrow> strategy \<Rightarrow> strategy" where
  "on_clean_bar sy st =
     (if \<not> dget (st_signal_invalid st) sy False then st
      else let n = dget (st_clean_bar_count st) sy 0 + 1;
               st1 = st\<lparr>st_clean_bar_count := dset sy n (st_clean_bar_count st)\<rparr>
           in if n \<ge> st_min_lookback st1
              then st1\<lparr>st_signal_invalid := dset sy False (st_signal_invalid st1),
                      st_clean_bar_count := dset sy 0 (st_clean_bar_count st1)\<rparr>
              else st1)"

definition on_bar ::
  "(frame \<Rightarrow> frame \<times> exn option) \<Rightarrow> rat \<Rightarrow> bar_close \<Rightarrow> strategy \<Rightarrow> dispatch \<times> strategy" where
  "on_bar add_indicators now bar st =
     (let st0 = st\<lparr>st_last_event_ts := now\<rparr>;
          key = (bc_symbol bar, bc_tf bar);
          df = append_bar bar (dget (st_dfs st0) key empty_frame);
          st1 = on_clean_bar (bc_symbol bar) (st0\<lparr>st_dfs := dset key df (st_dfs st0)\<rparr>);
          df' = fst (add_indicators df);
          st2 = st1\<lparr>st_dfs := dset key df' (st_dfs st1)\<rparr>
      in case map_of (st_bar_handlers st2) key of
           None \<Rightarrow> (NoHandler, st2)
         | Some min_lb \<Rightarrow> wrapped_handler min_lb (bc_symbol bar) df' st2)"

definition mark_last_gap :: "frame \<Rightarrow> frame" where
  "mark_last_gap df = (if fr_rows df = [] then df
     else df\<lparr>fr_rows := butlast (fr_rows df) @ [(last (fr_rows df))\<lparr>hr_has_gap := True\<rparr>]\<rparr>)"

definition handle_gap :: "gap_marker \<Rightarrow> strategy \<Rightarrow> strategy" where
  "handle_gap gap st =
     st\<lparr>st_signal_invalid := dset (gm_symbol gap) True (st_signal_invalid st),
        st_clean_bar_count := dset (gm_symbol gap) 0 (st_clean_bar_count st),
        st_dfs := map (\<lambda>((sy, tf), df). ((sy, tf), if sy = gm_symbol gap then mark_last_gap df else df))
                    (st_dfs st)\<rparr>"

section \<open>History\<close>

definition tf_table :: "string \<Rightarrow> string" where
  "tf_table tf =
     dget [(''1s'', ''snapshot_1s''), (''1m'', ''snapshot_1m''), (''5m'', ''snapshot_1m''),
           (''15m'', ''snapshot_15m''), (''1h'', ''snapshot_15m''), (''4h'', ''snapshot_15m''),
           (''1d'', ''snapshot_15m''), (''1w'', ''snapshot_15m'')] tf ''snapshot_1s''"

definition history_query :: "string \<Rightarrow> string \<Rightarrow> int \<Rightarrow> string" where
  "history_query sy tf n_bars =
     (let table = tf_table tf;
          cols = (if table = ''snapshot_1s''
             then ''ts,open,high,low,close,volume,quote_volume,trade_count,is_complete,has_gap''
             else ''ts,open,high,low,close,volume,quote_volume,trade_count,'' @
                  ''CASE WHEN is_partial THEN false ELSE true END AS is_complete,'' @
                  ''CASE WHEN gap_count > 0 THEN true ELSE false END AS has_gap'');
          tf_filter = (if table = ''snapshot_1s'' then ''AND tf='' @ [CHR 0x27] @ tf @ [CHR 0x27] @ '' '' else [])
      in ''SELECT '' @ cols @ '' FROM '' @ table @ '' WHERE symbol='' @ [CHR 0x27] @ sy @ [CHR 0x27] @ '' '' @
         tf_filter @ ''ORDER BY ts DESC LIMIT '' @ int_str n_bars)"

text \<open>\<open>run_query\<close> is the HTTP round trip; the rows come back newest first and are sorted by time.\<close>

definition query_questdb :: "(string \<Rightarrow> hist_row list res) \<Rightarrow> string \<Rightarrow> string \<Rightarrow> int \<Rightarrow> frame option" where
  "query_questdb run_query sy tf n_bars =
     (case run_query (history_query sy tf n_bars) of
        Inl e \<Rightarrow> None
      | Inr rows \<Rightarrow> Some \<lparr>fr_cols = [], fr_rows = sort_key hr_ts rows\<rparr>)"

definition gap_fraction :: "frame \<Rightarrow> f64" where
  "gap_fraction df =
     fdiv (of_nat_f64 (length (filter hr_has_gap (fr_rows df)))) (of_nat_f64 (length (fr_rows df)))"

definition check_gap_fraction :: "frame \<Rightarrow> string \<Rightarrow> string \<Rightarrow> strategy \<Rightarrow> strategy" where
  "check_gap_fraction df sy tf st =
     (if fr_rows df = [] then st
      else if gap_fraction df > fl (5 / 100)
        then st_metric (SetColdstartGap (st_name st) sy tf (gap_fraction df)) st
      else st)"

text \<open>The result says whether a background retry was scheduled: only when the loop is set and open.\<close>

definition get_history ::
  "(string \<Rightarrow> hist_row list res) \<Rightarrow> bool \<Rightarrow> string \<Rightarrow> string \<Rightarrow> int \<Rightarrow> strategy \<Rightarrow> frame \<times> bool \<times> strategy" where
  "get_history run_query loop_open sy tf n_bars st =
     (case query_questdb run_query sy tf n_bars of
        None \<Rightarrow> (empty_frame, loop_open, st)
      | Some df \<Rightarrow> (df, False, check_gap_fraction df sy tf (st\<lparr>st_dfs := dset (sy, tf) df (st_dfs st)\<rparr>)))"

text \<open>The retry loop, over the answers of its successive rounds; it returns at the first success.\<close>

fun history_retry ::
  "(string \<Rightarrow> hist_row list res) list \<Rightarrow> string \<Rightarrow> string \<Rightarrow> int \<Rightarrow> strategy \<Rightarrow> strategy option" where
  "history_retry [] sy tf n_bars st = None"
| "history_retry (q # qs) sy tf n_bars st =
     (case query_questdb q sy tf n_bars of
        None \<Rightarrow> history_retry qs sy tf n_bars st
      | Some df \<Rightarrow> Some (check_gap_fraction df sy tf (st\<lparr>st_dfs := dset (sy, tf) df (st_dfs st)\<rparr>)))"

section \<open>Subscribing and the heartbeat\<close>

text \<open>
  \<open>subscribe\<close> runs in a pool of one thread; leaving the \<open>with\<close> block of the pool waits for it. The
  arguments are how long \<open>subscribe\<close> takes (None: it never returns) and its outcome; the
  result is the outcome of the call and when it comes, None if it never does.
\<close>

definition run_subscribe :: "rat \<Rightarrow> rat option \<Rightarrow> unit res \<Rightarrow> (unit res \<times> rat) option" where
  "run_subscribe timeout_s duration outcome =
     (case duration of
        None \<Rightarrow> None
      | Some d \<Rightarrow> if d \<le> timeout_s then Some (outcome, d) else Some (Inl TimeoutError, d))"

text \<open>The freeze detector over its rounds (True: acknowledged in time); True when it sends SIGTERM.\<close>

fun heartbeat_loop :: "bool list \<Rightarrow> bool" where
  "heartbeat_loop [] = False"
| "heartbeat_loop (acked # rounds) = (if acked then heartbeat_loop rounds else True)"

section \<open>Bus silence\<close>

definition spawn_close :: "string \<times> f64 \<Rightarrow> strategy \<times> (string \<times> f64) list \<Rightarrow> strategy \<times> (string \<times> f64) list" where
  "spawn_close p acc =
     (case p of (sy, qty) \<Rightarrow> case acc of (st, threads) \<Rightarrow>
        if qty \<le> Fin 0 then (st, threads)
        else if sy \<in> st_in_flight st then (st, threads)
        else (st\<lparr>st_in_flight := insert sy (st_in_flight st)\<rparr>, threads @ [(sy, qty)]))"

definition timeout_spawn :: "(string, f64) dict \<Rightarrow> strategy \<Rightarrow> strategy \<times> (string \<times> f64) list" where
  "timeout_spawn pos st =
     (let st1 = st_metric (IncHeartbeatTimeout (st_name st)) st in
      if \<not> st_close_on_bus_timeout st1 \<or> \<not> st_has_client st1 then (st1, [])
      else fold spawn_close pos (st1, []))"

text \<open>The handler over a snapshot of the positions; the threads it starts run beside it.\<close>

definition on_bus_timeout :: "strategy \<Rightarrow> strategy \<times> (string \<times> f64) list" where
  "on_bus_timeout st = timeout_spawn (st_open_positions st) st"

definition bus_timeout_poll :: "rat \<Rightarrow> strategy \<Rightarrow> strategy \<times> (string \<times> f64) list" where
  "bus_timeout_poll now st =
     (if now - st_last_event_ts st \<ge> of_int (st_bus_timeout_seconds st) then on_bus_timeout st
      else (st, []))"

definition close_request :: "string \<Rightarrow> f64 \<Rightarrow> strategy \<Rightarrow> order_request" where
  "close_request sy qty st =
     \<lparr>or_strategy = st_name st, or_exchange = st_exchange st, or_symbol = sy, or_side = ''sell'',
      or_order_type = ''market'', or_order_role = ''exit'', or_size = qty, or_limit_price = None,
      or_stop_price = None, or_take_profit_price = None, or_client_order_id = [],
      or_paper_trading = st_paper_trading st\<rparr>"

text \<open>
  The closing thread over the outcomes of its placements (True is success): the requests it sent and,
  once it has returned, the final state; None while it is still retrying.
\<close>

fun close_attempts ::
  "string \<Rightarrow> f64 \<Rightarrow> bool list \<Rightarrow> strategy \<Rightarrow> order_request list \<times> strategy option" where
  "close_attempts sy qty [] st = ([], None)"
| "close_attempts sy qty (ok # oks) st =
     (if ok then ([close_request sy qty st],
         Some (st\<lparr>st_open_positions := dpop sy (st_open_positions st)\<rparr>))
      else case close_attempts sy qty oks st of (reqs, r) \<Rightarrow> (close_request sy qty st # reqs, r))"

definition leave_flight :: "string \<Rightarrow> strategy \<Rightarrow> strategy" where
  "leave_flight sy st = st\<lparr>st_in_flight := st_in_flight st - {sy}\<rparr>"

definition emergency_close_symbol ::
  "string \<Rightarrow> f64 \<Rightarrow> bool list \<Rightarrow> strategy \<Rightarrow> order_request list \<times> strategy option" where
  "emergency_close_symbol sy qty oks st =
     (if st_paper_trading st \<or> \<not> st_has_client st then ([], Some (leave_flight sy st))
      else case close_attempts sy qty oks st of (reqs, r) \<Rightarrow> (reqs, map_option (leave_flight sy) r))"


definition sample_bar :: bar_close where
  "sample_bar = \<lparr>bc_exchange = ''bybit'', bc_symbol = ''BTC'', bc_tf = ''1s'', bc_ts = 0,
     bc_open = Fin 1, bc_high = Fin 1, bc_low = Fin 1, bc_close = Fin 1, bc_volume = Fin 1,
     bc_quote_volume = Fin 1, bc_trade_count = 1, bc_is_complete = True\<rparr>"

definition sample_gap :: gap_marker where
  "sample_gap = \<lparr>gm_exchange = ''bybit'', gm_symbol = ''BTC'', gm_gap_cause = [], gm_ts = 0\<rparr>"

definition sample_strategy :: strategy where
  "sample_strategy = \<lparr>st_name = ''s'', st_min_lookback = 2, st_max_position_pct = Fin 1,
     st_paper_trading = False, st_bus_timeout_seconds = 60, st_close_on_bus_timeout = True,
     st_dfs = [], st_bar_handlers = [((''BTC'', ''1s''), 2)], st_signal_invalid = [],
     st_clean_bar_count = [], st_managed_positions = [], st_last_event_ts = 0,
     st_open_positions = [(''BTC'', Fin 1)], st_has_client = True, st_exchange = ''bybit'',
     st_in_flight = {}, st_funding_stream_keys = [], st_metrics = []\<rparr>"

section \<open>Gap recovery\<close>

text \<open>A bar as the event loop delivers it: the subclass hook, the clock and the bar.\<close>

type_synonym delivery = "(frame \<Rightarrow> frame \<times> exn option) \<times> rat \<times> bar_close"

definition deliver :: "delivery \<Rightarrow> strategy \<Rightarrow> strategy" where
  "deliver d st = snd (on_bar (fst d) (fst (snd d)) (snd (snd d)) st)"

definition bar_of :: "delivery \<Rightarrow> bar_close" where
  "bar_of d = snd (snd d)"

definition invalid :: "strategy \<Rightarrow> string \<Rightarrow> bool" where
  "invalid st sy = dget (st_signal_invalid st) sy False"

definition clean_bars :: "strategy \<Rightarrow> string \<Rightarrow> int" where
  "clean_bars st sy = dget (st_clean_bar_count st) sy 0"

lemma st_metric_fields [simp]:
  "st_signal_invalid (st_metric c st) = st_signal_invalid st"
  "st_clean_bar_count (st_metric c st) = st_clean_bar_count st"
  "st_min_lookback (st_metric c st) = st_min_lookback st"
  "st_bar_handlers (st_metric c st) = st_bar_handlers st"
  "st_dfs (st_metric c st) = st_dfs st"
  "st_name (st_metric c st) = st_name st"
  "st_in_flight (st_metric c st) = st_in_flight st"
  "st_open_positions (st_metric c st) = st_open_positions st"
  "st_paper_trading (st_metric c st) = st_paper_trading st"
  "st_has_client (st_metric c st) = st_has_client st"
  "st_close_on_bus_timeout (st_metric c st) = st_close_on_bus_timeout st"
  by (simp_all add: st_metric_def)

lemma wrapped_handler_fields [simp]:
  "st_signal_invalid (snd (wrapped_handler n sy df st)) = st_signal_invalid st"
  "st_clean_bar_count (snd (wrapped_handler n sy df st)) = st_clean_bar_count st"
  "st_min_lookback (snd (wrapped_handler n sy df st)) = st_min_lookback st"
  by (simp_all add: wrapped_handler_def)

lemma on_clean_bar_lookback [simp]: "st_min_lookback (on_clean_bar sy st) = st_min_lookback st"
  by (simp add: on_clean_bar_def Let_def)

lemma on_clean_bar_other [simp]:
  "sy' \<noteq> sy \<Longrightarrow> invalid (on_clean_bar sy st) sy' = invalid st sy'"
  "sy' \<noteq> sy \<Longrightarrow> clean_bars (on_clean_bar sy st) sy' = clean_bars st sy'"
  by (simp_all add: on_clean_bar_def Let_def invalid_def clean_bars_def dget_dset)

lemma on_clean_bar_same:
  "invalid (on_clean_bar sy st) sy \<longleftrightarrow> invalid st sy \<and> clean_bars st sy + 1 < st_min_lookback st"
  "invalid (on_clean_bar sy st) sy \<Longrightarrow> clean_bars (on_clean_bar sy st) sy = clean_bars st sy + 1"
  by (auto simp: on_clean_bar_def Let_def invalid_def clean_bars_def dget_dset split: if_splits)

lemma on_bar_gap_state:
  "invalid (deliver d st) sy = invalid (on_clean_bar (bc_symbol (bar_of d)) st) sy"
  "clean_bars (deliver d st) sy = clean_bars (on_clean_bar (bc_symbol (bar_of d)) st) sy"
  "st_min_lookback (deliver d st) = st_min_lookback st"
  by (simp_all add: deliver_def bar_of_def on_bar_def Let_def invalid_def clean_bars_def on_clean_bar_def
      split: option.splits)

definition bars_for :: "string \<Rightarrow> delivery list \<Rightarrow> int" where
  "bars_for sy ds = int (length (filter (\<lambda>d. bc_symbol (bar_of d) = sy) ds))"

lemma bars_for_Cons:
  "bars_for sy (d # ds) = (if bc_symbol (bar_of d) = sy then bars_for sy ds + 1 else bars_for sy ds)"
  "bars_for sy [] = 0" "0 \<le> bars_for sy ds"
  by (simp_all add: bars_for_def)

lemma gap_countdown:
  "invalid st sy \<Longrightarrow>
     invalid (fold deliver ds st) sy \<longleftrightarrow>
       bars_for sy ds = 0 \<or> clean_bars st sy + bars_for sy ds < st_min_lookback st"
  and valid_stays: "\<not> invalid st sy \<Longrightarrow> \<not> invalid (fold deliver ds st) sy"
proof (induction ds arbitrary: st)
  case Nil
  { case 1 then show ?case by (simp add: bars_for_Cons) }
  { case 2 then show ?case by simp }
next
  case (Cons d ds)
  { case 1
    show ?case
    proof (cases "bc_symbol (bar_of d) = sy")
      case False
      then show ?thesis using Cons.IH(1) [of "deliver d st"] 1
        by (simp add: on_bar_gap_state bars_for_Cons)
    next
      case True
      show ?thesis
      proof (cases "clean_bars st sy + 1 < st_min_lookback st")
        case t: True
        have i: "invalid (deliver d st) sy" using 1 t True
          by (simp add: on_bar_gap_state on_clean_bar_same)
        moreover have "clean_bars (deliver d st) sy = clean_bars st sy + 1"
          using i True by (simp add: on_bar_gap_state on_clean_bar_same)
        ultimately show ?thesis using Cons.IH(1) [of "deliver d st"] t True bars_for_Cons(3) [of sy ds]
          by (auto simp: on_bar_gap_state(3) bars_for_Cons)
      next
        case f: False
        have "\<not> invalid (deliver d st) sy" using f True
          by (simp add: on_bar_gap_state on_clean_bar_same)
        moreover have "0 \<le> bars_for sy ds" by (rule bars_for_Cons)
        ultimately show ?thesis using Cons.IH(2) [of "deliver d st"] f True
          by (simp add: bars_for_Cons(1))
      qed
    qed }
  { case 2
    then show ?case using Cons.IH(2) [of "deliver d st"]
      by (cases "bc_symbol (bar_of d) = sy") (simp_all add: on_bar_gap_state on_clean_bar_same) }
qed

lemma handle_gap_state:
  "invalid (handle_gap g st) sy \<longleftrightarrow> sy = gm_symbol g \<or> invalid st sy"
  "clean_bars (handle_gap g st) sy = (if sy = gm_symbol g then 0 else clean_bars st sy)"
  "st_min_lookback (handle_gap g st) = st_min_lookback st"
  by (simp_all add: handle_gap_def invalid_def clean_bars_def dget_dset)

text \<open>
  C15. After a gap a symbol's signal is invalid until \<open>min_lookback\<close> further bars of that symbol (at
  least one, any timeframe, whatever the hook does) have come, and valid from then on; every
  other symbol's flag is what it would have been without the gap.
\<close>
theorem gap_recovery_window:
  "(invalid (fold deliver ds (handle_gap g st)) (gm_symbol g) \<longleftrightarrow>
     bars_for (gm_symbol g) ds < max 1 (st_min_lookback st)) \<and>
   (sy \<noteq> gm_symbol g \<longrightarrow>
     invalid (fold deliver ds (handle_gap g st)) sy = invalid (fold deliver ds st) sy)"
proof (intro conjI impI)
  show "invalid (fold deliver ds (handle_gap g st)) (gm_symbol g) \<longleftrightarrow>
     bars_for (gm_symbol g) ds < max 1 (st_min_lookback st)"
    using gap_countdown [of "handle_gap g st" "gm_symbol g" ds] bars_for_Cons(3) [of "gm_symbol g" ds]
    by (auto simp: handle_gap_state)
next
  assume "sy \<noteq> gm_symbol g"
  then show "invalid (fold deliver ds (handle_gap g st)) sy = invalid (fold deliver ds st) sy"
    using gap_countdown [of "handle_gap g st" sy ds] gap_countdown [of st sy ds]
      valid_stays [of "handle_gap g st" sy ds] valid_stays [of st sy ds]
    by (cases "invalid st sy") (simp_all add: handle_gap_state)
qed

theorem gap_recovery_window_witness:
  "invalid (fold deliver [] (handle_gap sample_gap sample_strategy)) ''ETH'' = invalid sample_strategy ''ETH''"
  using gap_recovery_window [of "[]" "sample_gap" sample_strategy "''ETH''"] by (simp add: sample_gap_def)


text \<open>
  Gap invalidation does not hold back the handler: with enough history and no null value the bar that
  follows a gap calls it, although the signal is still invalid when more than one clean bar is
  needed; a strategy is protected only when its own handler asks for the flag.
\<close>
theorem gap_does_not_block_handler:
  assumes h: "map_of (st_bar_handlers st) (bc_symbol bar, bc_tf bar) = Some n"
    and sy: "bc_symbol bar = gm_symbol g"
    and len: "n \<le> int (length (fr_rows (dget (st_dfs st) (bc_symbol bar, bc_tf bar) empty_frame))) + 1"
    and cols: "fr_cols (dget (st_dfs st) (bc_symbol bar, bc_tf bar) empty_frame) = []"
    and bar: "\<not> list_ex is_nan [bc_open bar, bc_high bar, bc_low bar, bc_close bar, bc_volume bar,
       bc_quote_volume bar]"
    and lb: "1 < st_min_lookback st"
  shows "fst (on_bar (\<lambda>df. (df, None)) now bar (handle_gap g st)) = Called \<and>
    invalid (snd (on_bar (\<lambda>df. (df, None)) now bar (handle_gap g st))) (bc_symbol bar)"
proof
  have m: "map_of (map (\<lambda>((sy, tf), df). ((sy, tf), if sy = gm_symbol g then mark_last_gap df else df)) d)
      (s, t) = map_option (\<lambda>df. if s = gm_symbol g then mark_last_gap df else df) (map_of d (s, t))" for d s t
    by (induction d) auto
  have g: "fr_cols (mark_last_gap df) = fr_cols df" "length (fr_rows (mark_last_gap df)) = length (fr_rows df)" for df
    by (simp_all add: mark_last_gap_def)
  show "fst (on_bar (\<lambda>df. (df, None)) now bar (handle_gap g st)) = Called"
    using h len cols bar
    by (auto simp: on_bar_def Let_def handle_gap_def on_clean_bar_def wrapped_handler_def append_bar_def
        row_has_null_def dget_def m g empty_frame_def split: option.splits if_splits)
  show "invalid (snd (on_bar (\<lambda>df. (df, None)) now bar (handle_gap g st))) (bc_symbol bar)"
    using gap_recovery_window [of "[(\<lambda>df. (df, None), now, bar)]" g st] lb sy
    by (simp add: deliver_def bars_for_def bar_of_def)
qed

theorem gap_does_not_block_handler_witness:
  "fst (on_bar (\<lambda>df. (df, None)) 2 sample_bar (handle_gap sample_gap
     (snd (on_bar (\<lambda>df. (df, None)) 1 sample_bar sample_strategy)))) = Called"
proof -
  have "fr_cols (dget (st_dfs (snd (on_bar (\<lambda>df. (df, None)) 1 sample_bar sample_strategy)))
      (bc_symbol sample_bar, bc_tf sample_bar) empty_frame) = [] \<and>
    length (fr_rows (dget (st_dfs (snd (on_bar (\<lambda>df. (df, None)) 1 sample_bar sample_strategy)))
      (bc_symbol sample_bar, bc_tf sample_bar) empty_frame)) = 1 \<and>
    st_bar_handlers (snd (on_bar (\<lambda>df. (df, None)) 1 sample_bar sample_strategy)) = [((''BTC'', ''1s''), 2)] \<and>
    st_min_lookback (snd (on_bar (\<lambda>df. (df, None)) 1 sample_bar sample_strategy)) = 2"
    by (simp add: sample_bar_def sample_strategy_def on_bar_def Let_def on_clean_bar_def
        wrapped_handler_def append_bar_def empty_frame_def dget_def)
  then show ?thesis
    by (intro conjunct1 [OF gap_does_not_block_handler [where n = 2]])
       (simp_all add: sample_bar_def sample_gap_def is_nan_def)
qed

section \<open>Emergency close\<close>

lemma spawn_close_apply:
  "spawn_close (sy, qty) (st, threads) =
     (if qty \<le> Fin 0 \<or> sy \<in> st_in_flight st then (st, threads)
      else (st\<lparr>st_in_flight := insert sy (st_in_flight st)\<rparr>, threads @ [(sy, qty)]))"
  by (simp add: spawn_close_def)

lemma fold_spawn_close:
  "dinv pos \<Longrightarrow> fst ` set threads \<subseteq> st_in_flight st \<Longrightarrow>
   fold spawn_close pos (st, threads) =
     (let new = filter (\<lambda>(sy, q). \<not> q \<le> Fin 0 \<and> sy \<notin> st_in_flight st) pos
      in (st\<lparr>st_in_flight := st_in_flight st \<union> fst ` set new\<rparr>, threads @ new))"
proof (induction pos arbitrary: st threads)
  case Nil
  then show ?case by simp
next
  case (Cons p pos)
  obtain sy q where p: "p = (sy, q)" by force
  show ?case
  proof (cases "q \<le> Fin 0 \<or> sy \<in> st_in_flight st")
    case True
    then show ?thesis using Cons p by (auto simp: spawn_close_apply dinv_def Let_def)
  next
    case False
    have f: "filter (\<lambda>(s, q). \<not> q \<le> Fin 0 \<and> s \<noteq> sy \<and> s \<notin> st_in_flight st) pos =
        filter (\<lambda>(s, q). \<not> q \<le> Fin 0 \<and> s \<notin> st_in_flight st) pos"
      using Cons.prems p by (intro filter_cong) (auto simp: dinv_def rev_image_eqI)
    have "fold spawn_close pos (st\<lparr>st_in_flight := insert sy (st_in_flight st)\<rparr>, threads @ [(sy, q)]) =
        (let new = filter (\<lambda>(s, q). \<not> q \<le> Fin 0 \<and> s \<notin> st_in_flight st) pos
         in (st\<lparr>st_in_flight := insert sy (st_in_flight st) \<union> fst ` set new\<rparr>, (threads @ [(sy, q)]) @ new))"
      using Cons.IH [of "threads @ [(sy, q)]" "st\<lparr>st_in_flight := insert sy (st_in_flight st)\<rparr>"]
        Cons.prems p by (auto simp: dinv_def Let_def f simp del: set_filter)
    then show ?thesis using False p by (simp add: spawn_close_apply Let_def del: set_filter)
  qed
qed

text \<open>
  C16. A bus-silence poll starts at most one closing thread per symbol, none for a symbol that
  has one, and marks exactly the symbols it started; polling again before a thread ends starts nothing.
\<close>
theorem one_close_thread_per_symbol:
  assumes "dinv (st_open_positions st)"
  shows "distinct (map fst (snd (on_bus_timeout st))) \<and>
    fst ` set (snd (on_bus_timeout st)) \<inter> st_in_flight st = {} \<and>
    st_in_flight (fst (on_bus_timeout st)) = st_in_flight st \<union> fst ` set (snd (on_bus_timeout st)) \<and>
    snd (on_bus_timeout (fst (on_bus_timeout st))) = []"
proof -
  have d: "distinct (map fst (filter P pos))" if "dinv pos" for P and pos :: "(string, f64) dict"
    using that by (induction pos) (auto simp: dinv_def)
  have f: "fold spawn_close (st_open_positions st) (st_metric c st', []) =
     (let new = filter (\<lambda>(sy, q). \<not> q \<le> Fin 0 \<and> sy \<notin> st_in_flight st') (st_open_positions st)
      in ((st_metric c st')\<lparr>st_in_flight := st_in_flight st' \<union> fst ` set new\<rparr>, new))" for c st'
    using fold_spawn_close [OF assms, of "[]" "st_metric c st'"] by simp
  show ?thesis
    by (intro conjI; simp add: on_bus_timeout_def timeout_spawn_def Let_def f d assms del: set_filter)
       (force simp: filter_empty_conv)+
qed

theorem one_close_thread_per_symbol_witness:
  "distinct (map fst (snd (on_bus_timeout sample_strategy)))"
  using one_close_thread_per_symbol [of sample_strategy] by (simp add: sample_strategy_def dinv_def)

lemma close_attempts_result:
  "close_attempts sy qty oks st =
     (replicate (length (takeWhile Not oks) + (if True \<in> set oks then 1 else 0)) (close_request sy qty st),
      if True \<in> set oks then Some (st\<lparr>st_open_positions := dpop sy (st_open_positions st)\<rparr>) else None)"
  by (induction oks) auto






text \<open>
  The poll tests the in-flight set against a snapshot of the positions taken before: when the
  closing thread of a symbol succeeds in between, a second thread is started and sells the
  quantity again although no position is recorded.
\<close>
theorem close_race_sells_twice:
  assumes "st_close_on_bus_timeout st" "st_has_client st" "\<not> st_paper_trading st"
    and "st_open_positions st = [(sy, qty)]" "\<not> qty \<le> Fin 0"
    and "snd (emergency_close_symbol sy qty oks st) = Some st'"
  shows "st_open_positions st' = [] \<and>
    snd (timeout_spawn (st_open_positions st) st') = [(sy, qty)] \<and>
    fst (emergency_close_symbol sy qty [True] (fst (timeout_spawn (st_open_positions st) st'))) \<noteq> []"
  using assms
  by (auto simp: emergency_close_symbol_def close_attempts_result leave_flight_def timeout_spawn_def
      spawn_close_def split: if_splits)

theorem close_race_sells_twice_witness:
  "snd (timeout_spawn [(''BTC'', Fin 1)] (sample_strategy\<lparr>st_open_positions := []\<rparr>)) = [(''BTC'', Fin 1)]"
  using close_race_sells_twice [of sample_strategy "''BTC''" "Fin 1" "[True]"
      "sample_strategy\<lparr>st_open_positions := []\<rparr>"]
  by (simp add: sample_strategy_def emergency_close_symbol_def leave_flight_def)


section \<open>Subscribe timeout\<close>

text \<open>
  The subscribe timeout bounds nothing: whatever the limit, the call ends exactly when
  \<open>subscribe\<close> itself ends, and never if that never ends; the timeout only turns a late success into an error.
\<close>
theorem subscribe_timeout_does_not_interrupt:
  "map_option snd (run_subscribe timeout_s duration outcome) = duration \<and>
   (run_subscribe timeout_s duration outcome = None \<longleftrightarrow> duration = None)"
  by (simp add: run_subscribe_def split: option.splits)


text \<open>
  Coarse timeframes read the rows of a finer table unchanged: the history of 5m bars is that of 1m bars, and those
  of 1h, 4h, 1d and 1w are that of 15m bars.
\<close>
theorem coarse_history_is_fine_history:
  "history_query sy ''5m'' n = history_query sy ''1m'' n \<and>
   history_query sy ''1h'' n = history_query sy ''15m'' n \<and> history_query sy ''4h'' n = history_query sy ''15m'' n \<and>
   history_query sy ''1d'' n = history_query sy ''15m'' n \<and> history_query sy ''1w'' n = history_query sy ''15m'' n"
  by (simp add: history_query_def tf_table_def dget_def)

end
