(* ===== verification/Reconciliation.thy ===== *)
theory Reconciliation
  imports Base_Strategy Order_Worker
begin

text \<open>
  Startup reconciliation (\<open>strategy/reconciliation.py\<close>): the query for the orders the event table holds
  as live, their comparison with the exchange's open orders, what is restored into the worker and
  the strategy, the alerts for orphaned orders and the background confirmation loop. A row is what the
  query selects; a null cell is None. What the database and the exchange answer are arguments.
\<close>

section \<open>The query\<close>

record qrow =
  qr_order_id :: string
  qr_client_order_id :: "string option"
  qr_symbol :: string
  qr_side :: "string option"
  qr_order_type :: "string option"
  qr_requested_size :: "f64 option"
  qr_limit_price :: "f64 option"
  qr_signal_type :: "string option"
  qr_status :: "string option"

definition name_char :: "char \<Rightarrow> bool" where
  "name_char c \<longleftrightarrow> (let n = (of_char c :: nat) in
     65 \<le> n \<and> n \<le> 90 \<or> 97 \<le> n \<and> n \<le> 122 \<or> 48 \<le> n \<and> n \<le> 57 \<or> n = 95 \<or> n = 45)"

text \<open>The pattern's \<open>$\<close> also matches before a final newline.\<close>

definition valid_name :: "string \<Rightarrow> bool" where
  "valid_name s \<longleftrightarrow>
     (let t = (if s \<noteq> [] \<and> last s = CHR 0x0A then butlast s else s) in t \<noteq> [] \<and> list_all name_char t)"

definition nonterminal_query :: "string \<Rightarrow> string" where
  "nonterminal_query name =
     ''SELECT order_id, client_order_id, symbol, side, order_type, requested_size, '' @
     ''limit_price, signal_type, status FROM (SELECT order_id, client_order_id, symbol, side, '' @
     ''order_type, requested_size, limit_price, signal_type, status, ts FROM order_events '' @
     ''WHERE strategy = '' @ [CHR 0x27] @ name @ [CHR 0x27] @ '' LATEST ON ts PARTITION BY order_id) '' @
     ''WHERE status NOT IN ('' @ [CHR 0x27] @ ''filled'' @ [CHR 0x27] @ '','' @ [CHR 0x27] @ ''cancelled'' @
     [CHR 0x27] @ '','' @ [CHR 0x27] @ ''rejected'' @ [CHR 0x27] @ '','' @ [CHR 0x27] @ ''failed'' @
     [CHR 0x27] @ '') ORDER BY ts DESC''"

definition query_nonterminal :: "(string \<Rightarrow> qrow list res) \<Rightarrow> string \<Rightarrow> qrow list option" where
  "query_nonterminal run_query name =
     (if \<not> valid_name name then None
      else case run_query (nonterminal_query name) of Inl e \<Rightarrow> None | Inr rows \<Rightarrow> Some rows)"

section \<open>Restoring a row\<close>

definition py_str :: "string option \<Rightarrow> string" where
  "py_str s = (case s of None \<Rightarrow> ''None'' | Some t \<Rightarrow> t)"

definition build_from_row :: "qrow \<Rightarrow> string \<Rightarrow> (order_request \<times> placed_order) res" where
  "build_from_row row name =
     rbind (of_option TypeError (qr_requested_size row)) (\<lambda>sz. Inr
       (\<lparr>or_strategy = name, or_exchange = [], or_symbol = qr_symbol row, or_side = py_str (qr_side row),
         or_order_type = py_str (qr_order_type row), or_order_role = py_str (qr_signal_type row),
         or_size = sz, or_limit_price = qr_limit_price row, or_stop_price = None,
         or_take_profit_price = None, or_client_order_id = py_str (qr_client_order_id row),
         or_paper_trading = False\<rparr>,
        \<lparr>pl_order_id = qr_order_id row, pl_client_order_id = py_str (qr_client_order_id row),
         pl_status = ''placed'', pl_ts_exchange = 0\<rparr>))"

record alert =
  al_order_id :: string
  al_strategy :: string
  al_type :: string
  al_detail :: string

record recon =
  rc_strategy :: strategy
  rc_worker :: worker
  rc_alerts :: "alert list"
  rc_metrics :: "mcall list"
  rc_retry :: "string list option"

definition restore_row :: "qrow \<Rightarrow> recon \<Rightarrow> unit res \<times> recon" where
  "restore_row row r =
     (case build_from_row row (st_name (rc_strategy r)) of
        Inl e \<Rightarrow> (Inl e, r)
      | Inr (req, placed) \<Rightarrow>
          (Inr (), r\<lparr>rc_worker := restore_open_order (qr_order_id row) req placed (rc_worker r),
             rc_strategy := (rc_strategy r)\<lparr>st_open_positions :=
               dset (qr_symbol row) (or_size req) (st_open_positions (rc_strategy r))\<rparr>\<rparr>))"

text \<open>A loop whose body may raise: the state is kept up to the exception.\<close>

fun each :: "('a \<Rightarrow> 's \<Rightarrow> unit res \<times> 's) \<Rightarrow> 'a list \<Rightarrow> 's \<Rightarrow> unit res \<times> 's" where
  "each f [] s = (Inr (), s)"
| "each f (x # xs) s = (case f x s of (Inl e, s1) \<Rightarrow> (Inl e, s1) | (Inr _, s1) \<Rightarrow> each f xs s1)"

section \<open>Orphaned orders\<close>

definition orphan_detail :: "(f64 \<Rightarrow> string) \<Rightarrow> string \<Rightarrow> open_order \<Rightarrow> string" where
  "orphan_detail fr ex ord = ''exchange='' @ ex @ '' symbol='' @ oo_symbol ord @ '' order_id='' @
     oo_order_id ord @ '' qty='' @ fr (oo_size ord)"

definition detect_orphan :: "(f64 \<Rightarrow> string) \<Rightarrow> string \<Rightarrow> string set \<Rightarrow> open_order \<Rightarrow> recon \<Rightarrow> recon" where
  "detect_orphan fr ex known ord r =
     (if oo_order_id ord \<in> known then r
      else r\<lparr>rc_metrics := rc_metrics r @ [IncOrphanedOrder ex],
             rc_alerts := rc_alerts r @ [\<lparr>al_order_id = oo_order_id ord,
               al_strategy = st_name (rc_strategy r), al_type = ''orphaned_order'',
               al_detail = orphan_detail fr ex ord\<rparr>]\<rparr>)"

definition detect_orphaned_orders ::
  "(f64 \<Rightarrow> string) \<Rightarrow> string \<Rightarrow> string set \<Rightarrow> open_order list \<Rightarrow> recon \<Rightarrow> recon" where
  "detect_orphaned_orders fr ex known orders r = fold (detect_orphan fr ex known) orders r"

section \<open>Startup\<close>

definition force_subscribe :: "qrow list \<Rightarrow> strategy \<Rightarrow> strategy" where
  "force_subscribe rows st =
     (let subscribed = map (fst \<circ> fst) (st_bar_handlers st) in
      fold (\<lambda>sy st. if sy \<in> set subscribed then st
                     else st\<lparr>st_managed_positions := add_set sy (st_managed_positions st)\<rparr>)
        (map qr_symbol rows) st)"

definition run_startup_reconciliation ::
  "(f64 \<Rightarrow> string) \<Rightarrow> string \<Rightarrow> qrow list option \<Rightarrow> open_order list res \<Rightarrow> recon \<Rightarrow> unit res \<times> recon" where
  "run_startup_reconciliation fr ex questdb_result exchange_reply r =
     (let questdb_failed = (questdb_result = None);
          rows = (case questdb_result of None \<Rightarrow> [] | Some rs \<Rightarrow> rs);
          ids = map qr_order_id rows;
          finish = (\<lambda>s :: recon. (Inr (), s\<lparr>rc_strategy := force_subscribe rows (rc_strategy s)\<rparr>) :: unit res \<times> recon)
      in if st_paper_trading (rc_strategy r) then
           (case each restore_row rows r of (Inl e, s) \<Rightarrow> (Inl e, s) | (Inr _, s) \<Rightarrow> finish s)
         else case exchange_reply of
           Inl e \<Rightarrow>
             (case each restore_row rows r of
                (Inl e, s) \<Rightarrow> (Inl e, s)
              | (Inr _, s) \<Rightarrow> finish (if rows \<noteq> [] then s\<lparr>rc_retry := Some (remdups ids)\<rparr> else s))
         | Inr exchange_open \<Rightarrow>
             if questdb_failed then finish r
             else (case each restore_row
                      (filter (\<lambda>row. qr_order_id row \<in> oo_order_id ` set exchange_open) rows) r of
                     (Inl e, s) \<Rightarrow> (Inl e, s)
                   | (Inr _, s) \<Rightarrow> finish (detect_orphaned_orders fr ex (set ids) exchange_open s)))"

section \<open>Background confirmation\<close>

text \<open>
  The retry loop over the exchange's answers of its rounds: Some n when it returned after n rounds,
  None while orders remain.
\<close>

fun retry_reconciliation :: "string set \<Rightarrow> open_order list res list \<Rightarrow> nat option" where
  "retry_reconciliation remaining [] = (if remaining = {} then Some 0 else None)"
| "retry_reconciliation remaining (reply # replies) =
     (if remaining = {} then Some 0
      else map_option Suc
        (case reply of
           Inl e \<Rightarrow> retry_reconciliation remaining replies
         | Inr open_now \<Rightarrow> retry_reconciliation (remaining - oo_order_id ` set open_now) replies))"

section \<open>What a restart recovers\<close>

definition live_row :: "qrow \<Rightarrow> bool" where
  "live_row row \<longleftrightarrow> qr_requested_size row \<noteq> None"



lemma restore_row_ok:
  assumes "live_row row"
  obtains sz rp where "qr_requested_size row = Some sz" "fst (restore_row row r) = Inr ()"
    "w_open_orders (rc_worker (snd (restore_row row r))) = dset (qr_order_id row) rp (w_open_orders (rc_worker r))"
    "or_order_role (fst rp) = py_str (qr_signal_type row)"
    "st_open_positions (rc_strategy (snd (restore_row row r))) =
      dset (qr_symbol row) sz (st_open_positions (rc_strategy r))"
  using assms that
  by (auto simp: live_row_def restore_row_def build_from_row_def restore_open_order_def Let_def)

lemma restore_row_frame:
  "rc_alerts (snd (restore_row row r)) = rc_alerts r"
  "rc_metrics (snd (restore_row row r)) = rc_metrics r"
  "rc_retry (snd (restore_row row r)) = rc_retry r"
  "st_name (rc_strategy (snd (restore_row row r))) = st_name (rc_strategy r)"
  "st_bar_handlers (rc_strategy (snd (restore_row row r))) = st_bar_handlers (rc_strategy r)"
  "st_managed_positions (rc_strategy (snd (restore_row row r))) = st_managed_positions (rc_strategy r)"
  "st_close_on_bus_timeout (rc_strategy (snd (restore_row row r))) = st_close_on_bus_timeout (rc_strategy r)"
  "st_in_flight (rc_strategy (snd (restore_row row r))) = st_in_flight (rc_strategy r)"
  "w_position_qty (rc_worker (snd (restore_row row r))) = w_position_qty (rc_worker r)"
  by (simp_all add: restore_row_def restore_open_order_def Let_def split: sum.splits prod.splits)

lemma each_invariant:
  assumes "\<And>x s. x \<in> set xs \<Longrightarrow> P s \<Longrightarrow> P (snd (f x s))" "P s"
  shows "P (snd (each f xs s))"
  using assms
proof (induction xs arbitrary: s)
  case (Cons x xs)
  have "P (snd (f x s))" using Cons.prems by simp
  then show ?case using Cons by (cases "f x s"; cases "fst (f x s)") auto
qed simp

lemma each_frame:
  assumes "\<And>x s. g (snd (f x s)) = g s"
  shows "g (snd (each f xs s)) = g s"
  using each_invariant [of xs "\<lambda>t. g t = g s" f s] assms by simp

lemma each_restore_outcome:
  "fst (each restore_row rows r) = (if list_all live_row rows then Inr () else Inl TypeError)"
proof (induction rows arbitrary: r)
  case (Cons row rows)
  then show ?case
    by (cases "qr_requested_size row")
      (simp_all add: live_row_def restore_row_def build_from_row_def split: prod.splits)
qed simp

lemma each_restore_orders:
  "list_all live_row rows \<Longrightarrow>
     set (dkeys (w_open_orders (rc_worker (snd (each restore_row rows r))))) =
       set (dkeys (w_open_orders (rc_worker r))) \<union> qr_order_id ` set rows"
proof (induction rows arbitrary: r)
  case (Cons row rows)
  then have l: "live_row row" by simp
  show ?case
    using Cons.IH [of "snd (restore_row row r)"] Cons.prems
    by (cases "restore_row row r") (rule restore_row_ok [OF l, of r], auto)
qed simp

lemma list_all_dset: "P (k, v) \<Longrightarrow> list_all P d \<Longrightarrow> list_all P (dset k v d)"
  by (induction k v d rule: dset.induct) auto

text \<open>A row whose signal type reads back empty or null, as every row the worker writes.\<close>

definition unmarked :: "qrow \<Rightarrow> bool" where
  "unmarked row \<longleftrightarrow> qr_signal_type row = None \<or> qr_signal_type row = Some []"

definition no_entry :: "worker \<Rightarrow> bool" where
  "no_entry w \<longleftrightarrow> list_all (\<lambda>(oid, req, placed). or_order_role req \<noteq> ''entry'') (w_open_orders w)"

lemma no_entry_dedup: "no_entry w \<Longrightarrow> \<not> is_entry_dedup req w"
  by (auto simp: no_entry_def is_entry_dedup_def list_ex_iff list_all_iff)

lemma restore_no_entry:
  assumes "unmarked row" "no_entry (rc_worker r)"
  shows "no_entry (rc_worker (snd (restore_row row r)))"
proof (cases "live_row row")
  case True
  obtain sz rp where "w_open_orders (rc_worker (snd (restore_row row r))) =
      dset (qr_order_id row) rp (w_open_orders (rc_worker r))"
    "or_order_role (fst rp) = py_str (qr_signal_type row)"
    using True by (rule restore_row_ok)
  then show ?thesis using assms
    by (auto simp: no_entry_def unmarked_def py_str_def intro!: list_all_dset split: prod.splits)
next
  case False
  then show ?thesis using assms by (simp add: live_row_def restore_row_def build_from_row_def)
qed

text \<open>The end of a run adds no order: it only records symbols, alerts and the retry.\<close>

lemma detect_orphan_state:
  "rc_worker (detect_orphaned_orders fr ex known os r) = rc_worker r"
  "rc_strategy (detect_orphaned_orders fr ex known os r) = rc_strategy r"
  "map al_order_id (rc_alerts (detect_orphaned_orders fr ex known os r)) =
     map al_order_id (rc_alerts r) @ filter (\<lambda>i. i \<notin> known) (map oo_order_id os)"
  "rc_metrics (detect_orphaned_orders fr ex known os r) =
     rc_metrics r @ replicate (length (filter (\<lambda>i. i \<notin> known) (map oo_order_id os))) (IncOrphanedOrder ex)"
proof -
  show "rc_worker (detect_orphaned_orders fr ex known os r) = rc_worker r"
    "rc_strategy (detect_orphaned_orders fr ex known os r) = rc_strategy r"
    unfolding detect_orphaned_orders_def
    by (rule fold_unchanged, simp add: detect_orphan_def)+
  show "map al_order_id (rc_alerts (detect_orphaned_orders fr ex known os r)) =
     map al_order_id (rc_alerts r) @ filter (\<lambda>i. i \<notin> known) (map oo_order_id os)"
    unfolding detect_orphaned_orders_def
    by (induction os arbitrary: r) (simp_all add: detect_orphan_def)
  show "rc_metrics (detect_orphaned_orders fr ex known os r) =
     rc_metrics r @ replicate (length (filter (\<lambda>i. i \<notin> known) (map oo_order_id os))) (IncOrphanedOrder ex)"
    unfolding detect_orphaned_orders_def
    by (induction os arbitrary: r) (simp_all add: detect_orphan_def replicate_append_same)
qed

lemma fold_add_set:
  "set (fold (\<lambda>x acc. if x \<in> X then acc else add_set x acc) xs acc) = set acc \<union> (set xs - X)"
  by (induction xs arbitrary: acc) (auto simp: add_set_def)

lemma force_subscribe_state:
  "set (st_managed_positions (force_subscribe rows st)) =
     set (st_managed_positions st) \<union> (qr_symbol ` set rows - fst ` fst ` set (st_bar_handlers st))"
  "st_open_positions (force_subscribe rows st) = st_open_positions st"
  "st_name (force_subscribe rows st) = st_name st"
  "st_close_on_bus_timeout (force_subscribe rows st) = st_close_on_bus_timeout st"
  "st_in_flight (force_subscribe rows st) = st_in_flight st"
proof -
  have "st_managed_positions (fold (\<lambda>sy st. if sy \<in> X then st
      else st\<lparr>st_managed_positions := add_set sy (st_managed_positions st)\<rparr>) sys st) =
    fold (\<lambda>x acc. if x \<in> X then acc else add_set x acc) sys (st_managed_positions st)" for sys X
    by (induction sys arbitrary: st) auto
  then show "set (st_managed_positions (force_subscribe rows st)) =
     set (st_managed_positions st) \<union> (qr_symbol ` set rows - fst ` fst ` set (st_bar_handlers st))"
    by (simp add: force_subscribe_def Let_def fold_add_set image_comp)
  show "st_open_positions (force_subscribe rows st) = st_open_positions st"
    "st_name (force_subscribe rows st) = st_name st"
    "st_close_on_bus_timeout (force_subscribe rows st) = st_close_on_bus_timeout st"
    "st_in_flight (force_subscribe rows st) = st_in_flight st"
    unfolding force_subscribe_def Let_def by (rule fold_unchanged, simp)+
qed

lemma run_worker:
  obtains rows' where "set rows' \<subseteq> (case q of None \<Rightarrow> {} | Some rows \<Rightarrow> set rows)"
    "rc_worker (snd (run_startup_reconciliation fr ex q reply r)) = rc_worker (snd (each restore_row rows' r))"
proof -
  let ?rows = "case q of None \<Rightarrow> [] | Some rows \<Rightarrow> rows"
  let ?keep = "filter (\<lambda>row. qr_order_id row \<in> oo_order_id ` set (projr reply)) ?rows"
  have w: "rc_worker (snd (run_startup_reconciliation fr ex q reply r)) =
      rc_worker (snd (each restore_row
        (if st_paper_trading (rc_strategy r) \<or> isl reply then ?rows else if q = None then [] else ?keep) r))"
    by (cases reply) (auto simp: run_startup_reconciliation_def Let_def detect_orphan_state split: prod.splits sum.splits)
  show ?thesis by (rule that [OF _ w]) (auto split: option.splits)
qed

text \<open>
  C8. With the table and the exchange both answering, a live strategy with a fresh worker restores exactly the
  rows whose order is open on the exchange and raises one alert for every open order of the exchange
  that no row names, in the exchange's order; every symbol of a row is covered by a handler or becomes
  a managed symbol.
\<close>
theorem reconciliation_partitions_orders:
  assumes "\<not> st_paper_trading (rc_strategy r)" "w_open_orders (rc_worker r) = []"
    and "list_all live_row rows"
    and run: "run_startup_reconciliation fr ex (Some rows) (Inr open_now) r = (res, r')"
  shows "res = Inr () \<and>
    dom (map_of (w_open_orders (rc_worker r'))) = qr_order_id ` set rows \<inter> oo_order_id ` set open_now \<and>
    map al_order_id (rc_alerts r') = map al_order_id (rc_alerts r) @
      filter (\<lambda>i. i \<notin> qr_order_id ` set rows) (map oo_order_id open_now) \<and>
    qr_symbol ` set rows \<subseteq> fst ` fst ` set (st_bar_handlers (rc_strategy r)) \<union>
      set (st_managed_positions (rc_strategy r'))"
proof -
  define keep where "keep = filter (\<lambda>row. qr_order_id row \<in> oo_order_id ` set open_now) rows"
  define s where "s = snd (each restore_row keep r)"
  have l: "list_all live_row keep" using assms(3) by (auto simp: keep_def list_all_iff)
  have fs: "each restore_row keep r = (Inr (), s)"
    using each_restore_outcome [of keep r] l by (simp add: s_def prod_eq_iff)
  have fr: "rc_alerts s = rc_alerts r" "st_bar_handlers (rc_strategy s) = st_bar_handlers (rc_strategy r)"
    unfolding s_def by (rule each_frame, simp add: restore_row_frame)+
  have d: "set (dkeys (w_open_orders (rc_worker s))) = qr_order_id ` set keep"
    using each_restore_orders [OF l, of r] assms(2) by (simp add: s_def)
  have r': "res = Inr ()" "r' = (detect_orphaned_orders fr ex (set (map qr_order_id rows)) open_now s)
      \<lparr>rc_strategy := force_subscribe rows (rc_strategy s)\<rparr>"
    using run assms(1) fs by (auto simp: run_startup_reconciliation_def Let_def keep_def detect_orphan_state)
  have k: "qr_order_id ` set keep = qr_order_id ` set rows \<inter> oo_order_id ` set open_now"
    unfolding keep_def set_filter by blast
  have m: "set (st_managed_positions (rc_strategy r')) = set (st_managed_positions (rc_strategy s)) \<union>
      (qr_symbol ` set rows - fst ` fst ` set (st_bar_handlers (rc_strategy r)))"
    by (simp add: r' force_subscribe_state fr)
  show ?thesis
  proof (intro conjI)
    show "dom (map_of (w_open_orders (rc_worker r'))) = qr_order_id ` set rows \<inter> oo_order_id ` set open_now"
      using d unfolding k by (simp add: r' detect_orphan_state set_dkeys)
    show "map al_order_id (rc_alerts r') = map al_order_id (rc_alerts r) @
      filter (\<lambda>i. i \<notin> qr_order_id ` set rows) (map oo_order_id open_now)"
      by (simp add: r' detect_orphan_state fr)
    show "qr_symbol ` set rows \<subseteq> fst ` fst ` set (st_bar_handlers (rc_strategy r)) \<union>
      set (st_managed_positions (rc_strategy r'))"
      unfolding m by blast
  qed (rule r')
qed

text \<open>
  Entries restored after a restart do not block duplicates: rows whose signal type reads back empty or
  null, as every row of the worker does, restore orders with no entry role, so no later request is taken
  for a duplicate, even of an order that is open on the exchange.
\<close>
theorem restored_entries_not_deduplicated:
  assumes "\<forall>row\<in>set rows. unmarked row" "w_open_orders (rc_worker r) = []"
  shows "\<not> is_entry_dedup req (rc_worker (snd (run_startup_reconciliation fr ex (Some rows) reply r)))"
proof -
  obtain rows' where sub: "set rows' \<subseteq> set rows" and
    w: "rc_worker (snd (run_startup_reconciliation fr ex (Some rows) reply r)) = rc_worker (snd (each restore_row rows' r))"
    using run_worker [of "Some rows" fr ex reply r] by auto
  have "no_entry (rc_worker (snd (each restore_row rows' r)))"
  proof (rule each_invariant [where P = "\<lambda>s. no_entry (rc_worker s)"])
    show "no_entry (rc_worker (snd (restore_row row s)))" if "row \<in> set rows'" "no_entry (rc_worker s)" for row s
      using that sub assms(1) by (blast intro: restore_no_entry)
  qed (simp add: no_entry_def assms(2))
  then show ?thesis by (simp add: w no_entry_dedup)
qed

text \<open>
  Unfilled orders are taken for positions: one order the table holds as placed, of either side, is
  entered as an open position of its requested size, and the first bus silence starts a market sell of
  that size although the worker holds nothing.
\<close>
theorem unfilled_order_sold_on_silence:
  assumes "qr_requested_size row = Some qty" "\<not> qty \<le> Fin 0"
    and "st_close_on_bus_timeout (rc_strategy r)" "st_open_positions (rc_strategy r) = []"
    and "st_in_flight (rc_strategy r) = {}" "\<not> st_paper_trading (rc_strategy r)"
    and "w_position_qty (rc_worker r) = []"
    and run: "run_startup_reconciliation fr ex (Some [row]) (Inl e) r = (res, r')"
  shows "w_position_qty (rc_worker r') = [] \<and>
    snd (on_bus_timeout ((rc_strategy r')\<lparr>st_has_client := True\<rparr>)) = [(qr_symbol row, qty)]"
  using assms
  by (auto simp: run_startup_reconciliation_def Let_def restore_row_def build_from_row_def restore_open_order_def
      force_subscribe_state on_bus_timeout_def timeout_spawn_def spawn_close_apply st_metric_def)

text \<open>
  Reconciliation can raise although it promises never to: it ends with an exception exactly when a row it
  restores has no requested size, whatever else was answered.
\<close>
theorem reconciliation_raises_on_null_size:
  "fst (run_startup_reconciliation fr ex q reply r) =
     (if list_all live_row (case q of None \<Rightarrow> [] | Some rows \<Rightarrow>
           if st_paper_trading (rc_strategy r) \<or> isl reply then rows
           else filter (\<lambda>row. qr_order_id row \<in> oo_order_id ` set (projr reply)) rows)
      then Inr () else Inl TypeError)"
proof -
  have "fst (case each restore_row rows r of (Inl e, s) \<Rightarrow> (Inl e, s) | (Inr u, s) \<Rightarrow> (Inr (), F s)) =
      (if list_all live_row rows then Inr () else Inl TypeError)" for rows and F :: "recon \<Rightarrow> recon"
    using each_restore_outcome [of rows r] by (auto split: prod.splits sum.splits if_splits)
  then show ?thesis
    by (cases reply; cases q) (simp_all add: run_startup_reconciliation_def Let_def)
qed

text \<open>The ids reported open by some of the answers.\<close>

definition seen_open :: "open_order list res list \<Rightarrow> string set" where
  "seen_open replies = (\<Union>os\<in>{os. Inr os \<in> set replies}. oo_order_id ` set os)"

lemma seen_open_Cons:
  "seen_open (reply # replies) = (case reply of Inl e \<Rightarrow> {} | Inr os \<Rightarrow> oo_order_id ` set os) \<union> seen_open replies"
  by (cases reply) (auto simp: seen_open_def)

text \<open>
  C7. The background confirmation ends after exactly the first round by which every order it waits for has been reported
  open in some answer, failed rounds counting as rounds only; so an order that was filled or cancelled during
  the outage, which no answer ever reports open, keeps it polling for ever.
\<close>
theorem retry_ends_iff_all_seen_open:
  "(retry_reconciliation S replies = Some n \<longleftrightarrow>
     n \<le> length replies \<and> S \<subseteq> (\<Union>os\<in>{os. Inr os \<in> set (take n replies)}. oo_order_id ` set os) \<and>
     list_all (\<lambda>m. \<not> S \<subseteq> (\<Union>os\<in>{os. Inr os \<in> set (take m replies)}. oo_order_id ` set os)) [0..<n]) \<and>
   (retry_reconciliation S replies = None \<longleftrightarrow>
     \<not> S \<subseteq> (\<Union>os\<in>{os. Inr os \<in> set replies}. oo_order_id ` set os))"
proof -
  have some: "retry_reconciliation S replies = Some n \<longleftrightarrow>
      n \<le> length replies \<and> S \<subseteq> seen_open (take n replies) \<and> (\<forall>m<n. \<not> S \<subseteq> seen_open (take m replies))" for S n
  proof (induction replies arbitrary: S n)
    case Nil
    then show ?case by (auto simp: seen_open_def)
  next
    case (Cons reply replies)
    let ?ids = "case reply of Inl e \<Rightarrow> {} | Inr os \<Rightarrow> oo_order_id ` set os"
    show ?case
    proof (cases "S = {}")
      case True
      then show ?thesis by (cases n) auto
    next
      case False
      have r: "retry_reconciliation S (reply # replies) = map_option Suc (retry_reconciliation (S - ?ids) replies)"
        using False by (cases reply) simp_all
      show ?thesis
      proof (cases n)
        case 0
        then show ?thesis using False r by (simp add: seen_open_def)
      next
        case (Suc k)
        have d: "S \<subseteq> ?ids \<union> X \<longleftrightarrow> S - ?ids \<subseteq> X" for X by blast
        have "(\<forall>m<Suc k. \<not> S \<subseteq> seen_open (take m (reply # replies))) \<longleftrightarrow>
            (\<forall>m<k. \<not> S - ?ids \<subseteq> seen_open (take m replies))"
          using False unfolding All_less_Suc2 by (simp add: seen_open_Cons d) (simp add: seen_open_def)
        then show ?thesis
          unfolding r Suc using Cons.IH [of "S - ?ids" k] by (simp add: seen_open_Cons d)
      qed
    qed
  qed
  have "retry_reconciliation S replies = None \<longleftrightarrow> \<not> S \<subseteq> seen_open replies"
  proof (induction replies arbitrary: S)
    case Nil
    then show ?case by (simp add: seen_open_def)
  next
    case (Cons reply replies)
    show ?case
    proof (cases reply)
      case (Inl e)
      then show ?thesis using Cons [of S] by (auto simp: seen_open_Cons)
    next
      case (Inr os)
      then show ?thesis using Cons [of "S - oo_order_id ` set os"] by (auto simp: seen_open_Cons)
    qed
  qed
  moreover have "list_all P [0..<n] \<longleftrightarrow> (\<forall>m<n. P m)" for P by (auto simp: list_all_iff)
  ultimately show ?thesis using some [of S n] unfolding seen_open_def by simp
qed

section \<open>An order read back from the table\<close>

text \<open>
  The database is not part of the program: \<open>answer\<close> is the row the query returns for a row that was
  written. \<open>columns_answered\<close> is what is documented of it: a text column reads back as it was written,
  an empty one as empty or null; a number column as the number, a NaN as null.
\<close>

definition columns_answered :: "(order_event \<Rightarrow> qrow) \<Rightarrow> bool" where
  "columns_answered answer \<longleftrightarrow>
     (\<forall>e. qr_order_id (answer e) = oe_order_id e \<and> qr_symbol (answer e) = oe_symbol e \<and>
        py_str (qr_side (answer e)) \<in> (if oe_side e = [] then {[], ''None''} else {oe_side e}) \<and>
        py_str (qr_order_type (answer e)) \<in> (if oe_order_type e = [] then {[], ''None''} else {oe_order_type e}) \<and>
        py_str (qr_client_order_id (answer e)) \<in>
          (if oe_client_order_id e = [] then {[], ''None''} else {oe_client_order_id e}) \<and>
        py_str (qr_signal_type (answer e)) \<in> (if oe_signal_type e = [] then {[], ''None''} else {oe_signal_type e}) \<and>
        qr_requested_size (answer e) = (if is_nan (oe_requested_size e) then None else Some (oe_requested_size e)) \<and>
        qr_limit_price (answer e) = (if is_nan (oe_limit_price e) then None else Some (oe_limit_price e)))"

text \<open>
  The row handed over for a placed order, if it was written, rebuilds the order at a restart: strategy,
  symbol, side, type, size and both ids come back; the limit price comes back as zero for an order
  without one, and the role, the exchange and the protective prices are lost.
\<close>
theorem placed_row_restores:
  assumes "columns_answered answer"
    and placed: "place_reply t lat (Inr ()) req (Inr p) w = (Inr (), w1, Some p)"
    and texts: "or_side req \<noteq> []" "or_order_type req \<noteq> []" "pl_client_order_id p \<noteq> []"
    and nums: "\<not> is_nan (or_size req)" "\<not> is_nan (or_zero (or_limit_price req))"
  shows "\<exists>e req' p'. last (w_trace w1) = WRow e \<and>
    build_from_row (answer e) (or_strategy req) = Inr (req', p') \<and>
    or_strategy req' = or_strategy req \<and> or_symbol req' = or_symbol req \<and> or_side req' = or_side req \<and>
    or_order_type req' = or_order_type req \<and> or_size req' = or_size req \<and>
    pl_order_id p' = pl_order_id p \<and> pl_client_order_id p' = pl_client_order_id p \<and>
    or_limit_price req' = Some (or_zero (or_limit_price req)) \<and>
    or_order_role req' \<notin> {''entry'', ''exit'', ''stop''} \<and> or_exchange req' = [] \<and>
    or_stop_price req' = None \<and> or_take_profit_price req' = None"
proof -
  define e where "e = (base_event t req w)\<lparr>oe_order_id := pl_order_id p, oe_client_order_id := pl_client_order_id p,
    oe_ts_exchange := pl_ts_exchange p * 1000, oe_status := ''placed''\<rparr>"
  have l: "last (w_trace w1) = WRow e"
    using placed by (auto simp: place_reply_def write_order_event_def Let_def e_def split: if_splits)
  have f: "oe_order_id e = pl_order_id p" "oe_symbol e = or_symbol req" "oe_side e = or_side req"
    "oe_order_type e = or_order_type req" "oe_client_order_id e = pl_client_order_id p" "oe_signal_type e = []"
    "oe_requested_size e = or_size req" "oe_limit_price e = or_zero (or_limit_price req)"
    by (simp_all add: e_def base_event_def)
  have a: "qr_order_id (answer e) = pl_order_id p" "qr_symbol (answer e) = or_symbol req"
    "py_str (qr_side (answer e)) = or_side req" "py_str (qr_order_type (answer e)) = or_order_type req"
    "py_str (qr_client_order_id (answer e)) = pl_client_order_id p"
    "py_str (qr_signal_type (answer e)) \<in> {[], ''None''}"
    "qr_requested_size (answer e) = Some (or_size req)"
    "qr_limit_price (answer e) = Some (or_zero (or_limit_price req))"
    using assms(1) [unfolded columns_answered_def, rule_format, of e] texts nums
    unfolding f by (simp_all only: if_False simp_thms singleton_iff if_True)
  have "py_str (qr_signal_type (answer e)) \<notin> {''entry'', ''exit'', ''stop''}" using a(6) by auto
  then show ?thesis using l by (auto simp: build_from_row_def a(1-5,7,8))
qed

section \<open>Examples\<close>

definition sample_row :: qrow where
  "sample_row = \<lparr>qr_order_id = ''o1'', qr_client_order_id = Some ''c1'', qr_symbol = ''BTCUSDT'',
     qr_side = Some ''sell'', qr_order_type = Some ''limit'', qr_requested_size = Some (Fin 1),
     qr_limit_price = Some (Fin 2), qr_signal_type = None, qr_status = Some ''placed''\<rparr>"

definition sample_recon :: recon where
  "sample_recon = \<lparr>rc_strategy = sample_strategy\<lparr>st_open_positions := []\<rparr>, rc_worker = sample_worker,
     rc_alerts = [], rc_metrics = [], rc_retry = None\<rparr>"

lemma sample_recon_fields:
  "\<not> st_paper_trading (rc_strategy sample_recon)" "w_open_orders (rc_worker sample_recon) = []"
  "st_close_on_bus_timeout (rc_strategy sample_recon)" "st_open_positions (rc_strategy sample_recon) = []"
  "st_in_flight (rc_strategy sample_recon) = {}" "w_position_qty (rc_worker sample_recon) = []"
  by (simp_all add: sample_recon_def sample_strategy_def sample_worker_def worker_init_def)

theorem reconciliation_partitions_orders_witness:
  "fst (run_startup_reconciliation (\<lambda>x. []) ''bybit'' (Some [sample_row]) (Inr []) sample_recon) = Inr ()"
  using reconciliation_partitions_orders [OF sample_recon_fields(1,2), of "[sample_row]" "\<lambda>x. []" "''bybit''" "[]"]
  by (metis (no_types, lifting) list.pred_inject live_row_def option.distinct(1) prod.collapse
      qrow.select_convs(6) sample_row_def)

theorem restored_entries_not_deduplicated_witness:
  "\<not> is_entry_dedup sample_order
     (rc_worker (snd (run_startup_reconciliation (\<lambda>x. []) ''bybit'' (Some [sample_row]) (Inr []) sample_recon)))"
  by (rule restored_entries_not_deduplicated)
     (simp_all add: sample_recon_fields unmarked_def sample_row_def)

theorem unfilled_order_sold_on_silence_witness:
  "snd (on_bus_timeout ((rc_strategy (snd (run_startup_reconciliation (\<lambda>x. []) ''bybit'' (Some [sample_row])
     (Inl TimeoutError) sample_recon)))\<lparr>st_has_client := True\<rparr>)) = [(''BTCUSDT'', Fin 1)]"
proof -
  have "qr_requested_size sample_row = Some (Fin 1)" "qr_symbol sample_row = ''BTCUSDT''" "\<not> Fin 1 \<le> Fin 0"
    by (simp_all add: sample_row_def)
  then show ?thesis
    using unfilled_order_sold_on_silence [OF _ _ sample_recon_fields(3,4,5,1,6) prod.collapse [symmetric]] by simp
qed

definition sample_answer :: "order_event \<Rightarrow> qrow" where
  "sample_answer e =
     \<lparr>qr_order_id = oe_order_id e, qr_client_order_id = Some (oe_client_order_id e), qr_symbol = oe_symbol e,
      qr_side = Some (oe_side e), qr_order_type = Some (oe_order_type e),
      qr_requested_size = (if is_nan (oe_requested_size e) then None else Some (oe_requested_size e)),
      qr_limit_price = (if is_nan (oe_limit_price e) then None else Some (oe_limit_price e)),
      qr_signal_type = Some (oe_signal_type e), qr_status = Some (oe_status e)\<rparr>"

theorem placed_row_restores_witness:
  "\<exists>e req' p'. build_from_row (sample_answer e) ''ma'' = Inr (req', p') \<and> or_symbol req' = ''BTCUSDT'' \<and>
     or_order_role req' \<noteq> ''entry'' \<and> pl_order_id p' = ''o1''"
proof -
  have "columns_answered sample_answer" by (simp add: columns_answered_def sample_answer_def py_str_def)
  from placed_row_restores [OF this, of 0 "Fin 0" sample_order sample_placed sample_worker
    "fst (snd (place_reply 0 (Fin 0) (Inr ()) sample_order (Inr sample_placed) sample_worker))"]
  show ?thesis
    by (auto simp: place_reply_def sample_placed_def sample_order_def or_zero_def is_nan_def truthy_def Let_def)
qed

end
