(* ===== verification/Event_Bus.thy ===== *)
theory Event_Bus
  imports Base_Strategy "HOL-Library.Multiset"
begin

text \<open>
  The bus manager (\<open>bus/event_bus.py\<close>): the stream consumer with its backoff, routing of parsed events
  to the queue of every strategy with the drop-oldest rule, and the pub/sub dispatcher. A queue has
  the events in it and the put coroutines that were scheduled and have not run; what Redis
  answers is an argument. A callback is known by the number of the strategy instance that owns it.
\<close>

section \<open>State\<close>

record handle =
  h_name :: string
  h_instance :: nat
  h_queue :: "bus_event list"
  h_pending :: "bus_event list"
  h_maxsize :: nat
  h_loop_open :: bool
  h_ready :: bool

record bus =
  b_handles :: "(string, handle) dict"
  b_stream_keys :: "string list"
  b_started :: bool
  b_depth_override :: "nat option"
  b_ob_callbacks :: "(string, nat) dict"
  b_c1s_callbacks :: "(string, nat) dict"
  b_stop :: bool
  b_metrics :: "mcall list"
  b_sigterm :: bool

definition bus_init :: "nat option \<Rightarrow> bus" where
  "bus_init depth = \<lparr>b_handles = [], b_stream_keys = [], b_started = False, b_depth_override = depth,
     b_ob_callbacks = [], b_c1s_callbacks = [], b_stop = False, b_metrics = [], b_sigterm = False\<rparr>"

section \<open>Registration\<close>

definition add_stream :: "string \<Rightarrow> bus \<Rightarrow> unit res \<times> bus" where
  "add_stream key b =
     (if b_started b then (Inl RuntimeError, b)
      else (Inr (), b\<lparr>b_stream_keys := add_set key (b_stream_keys b)\<rparr>))"

definition register :: "handle \<Rightarrow> bus \<Rightarrow> unit res \<times> bus" where
  "register h b =
     (if b_started b then (Inl RuntimeError, b)
      else (Inr (), b\<lparr>b_handles := dset (h_name h) h (b_handles b)\<rparr>))"

definition dynamic_register :: "handle \<Rightarrow> bus \<Rightarrow> bus" where
  "dynamic_register h b = b\<lparr>b_handles := dset (h_name h) h (b_handles b)\<rparr>"

definition dynamic_deregister :: "string \<Rightarrow> bus \<Rightarrow> bus" where
  "dynamic_deregister name b = b\<lparr>b_handles := dpop name (b_handles b)\<rparr>"

definition provision_pubsub :: "string \<Rightarrow> string \<Rightarrow> nat \<Rightarrow> bus \<Rightarrow> bus" where
  "provision_pubsub name mode i b =
     (let b1 = (if mode \<in> {''full_stream'', ''both''}
                then b\<lparr>b_ob_callbacks := dset name i (b_ob_callbacks b)\<rparr> else b)
      in if mode \<in> {''snapshot_1s'', ''both''}
         then b1\<lparr>b_c1s_callbacks := dset name i (b_c1s_callbacks b1)\<rparr> else b1)"

definition deprovision_pubsub :: "string \<Rightarrow> bus \<Rightarrow> bus" where
  "deprovision_pubsub name b =
     b\<lparr>b_ob_callbacks := dpop name (b_ob_callbacks b), b_c1s_callbacks := dpop name (b_c1s_callbacks b)\<rparr>"

definition bus_start :: "bus \<Rightarrow> bus" where
  "bus_start b = b\<lparr>b_started := True\<rparr>"

definition bus_stop :: "bus \<Rightarrow> bus" where
  "bus_stop b = b\<lparr>b_stop := True\<rparr>"

section \<open>Delivery\<close>

text \<open>\<open>_drop_oldest\<close> and \<open>_enqueue\<close> work on one handle; the metric calls are the second component.\<close>

definition drop_oldest :: "handle \<times> mcall list \<Rightarrow> handle \<times> mcall list" where
  "drop_oldest s = (case s of (h, ms) \<Rightarrow>
     (case h_queue h of [] \<Rightarrow> (h, ms) | e # es \<Rightarrow> (h\<lparr>h_queue := es\<rparr>, ms @ [IncQueueDrop (h_name h)])))"

definition enqueue :: "bus_event \<Rightarrow> handle \<Rightarrow> handle" where
  "enqueue e h = (if h_loop_open h then h\<lparr>h_pending := h_pending h @ [e]\<rparr> else h)"

definition overflow_gap :: "int \<Rightarrow> bus_event" where
  "overflow_gap now = EGapMarker \<lparr>gm_exchange = [], gm_symbol = [], gm_gap_cause = ''queue_overflow'', gm_ts = now\<rparr>"

text \<open>
  \<open>_deliver\<close> is a sequence of calls on the queue of another thread's loop; the strategy's loop may run
  between any two of them.
\<close>

datatype bus_op = DropOldest | Enqueue bus_event

definition deliver_ops :: "nat \<Rightarrow> int \<Rightarrow> bus_event \<Rightarrow> handle \<Rightarrow> bus_op list" where
  "deliver_ops max_depth now e h =
     (if max_depth \<le> length (h_queue h) then [DropOldest, DropOldest, Enqueue (overflow_gap now)] else []) @
     [Enqueue e]"

fun run_op :: "bus_op \<Rightarrow> handle \<times> mcall list \<Rightarrow> handle \<times> mcall list" where
  "run_op DropOldest s = drop_oldest s"
| "run_op (Enqueue e) (h, ms) = (enqueue e h, ms)"

definition deliver_to :: "nat \<Rightarrow> int \<Rightarrow> bus_event \<Rightarrow> handle \<Rightarrow> handle \<times> mcall list" where
  "deliver_to max_depth now e h = fold run_op (deliver_ops max_depth now e h) (h, [])"

definition deliver_named :: "nat \<Rightarrow> int \<Rightarrow> bus_event \<Rightarrow> string \<Rightarrow> bus \<Rightarrow> bus" where
  "deliver_named max_depth now e name b =
     (case map_of (b_handles b) name of
        None \<Rightarrow> b
      | Some h \<Rightarrow> (case deliver_to max_depth now e h of
          (h1, ms) \<Rightarrow> b\<lparr>b_handles := dset name h1 (b_handles b), b_metrics := b_metrics b @ ms\<rparr>))"

definition depth_of :: "nat \<Rightarrow> bus \<Rightarrow> nat" where
  "depth_of setting b = (case b_depth_override b of None \<Rightarrow> setting | Some d \<Rightarrow> d)"

definition route :: "nat \<Rightarrow> int \<Rightarrow> string \<Rightarrow> entry \<Rightarrow> bus \<Rightarrow> bus" where
  "route setting now key entry b =
     (case fst (parse_stream_entry key entry) of
        None \<Rightarrow> b
      | Some e \<Rightarrow> fold (deliver_named (depth_of setting b) now e) (dkeys (b_handles b)) b)"

section \<open>The consumer\<close>

text \<open>
  A poll fails or returns a batch. Of each message: the stream, its entry (None when a field is not
  text), and whether the acknowledgement succeeds.
\<close>

datatype poll = PollError | Batch "(string \<times> entry option \<times> bool) list"

fun process_batch :: "nat \<Rightarrow> int \<Rightarrow> (string \<times> entry option \<times> bool) list \<Rightarrow> bus \<Rightarrow> bool \<times> bus" where
  "process_batch setting now [] b = (True, b)"
| "process_batch setting now ((key, None, ack) # msgs) b = (False, b)"
| "process_batch setting now ((key, Some entry, ack) # msgs) b =
     (let b1 = route setting now key entry b
      in if ack then process_batch setting now msgs b1 else (False, b1))"

definition emit_lag :: "bus \<Rightarrow> bus" where
  "emit_lag b = b\<lparr>b_metrics := b_metrics b @
     map (\<lambda>(name, h). SetConsumerLag (h_name h) (of_nat_f64 (length (h_queue h)))) (b_handles b)\<rparr>"

record consumer =
  c_backoff :: rat
  c_cap_hits :: nat
  c_sleeps :: "rat list"

definition consumer_init :: consumer where
  "consumer_init = \<lparr>c_backoff = 1, c_cap_hits = 0, c_sleeps = []\<rparr>"

text \<open>The error branch; True when the process is told to terminate.\<close>

definition consume_error :: "consumer \<Rightarrow> bool \<times> consumer" where
  "consume_error c =
     (let hits = (if c_backoff c \<ge> 60 then c_cap_hits c + 1 else 0);
          c1 = c\<lparr>c_cap_hits := hits\<rparr>
      in if hits \<ge> 3 then (True, c1)
         else (False, c1\<lparr>c_sleeps := c_sleeps c @ [c_backoff c], c_backoff := min (c_backoff c * 2) 60\<rparr>))"

definition consume_step :: "nat \<Rightarrow> int \<Rightarrow> poll \<Rightarrow> consumer \<times> bus \<Rightarrow> consumer \<times> bus" where
  "consume_step setting now p s =
     (case s of (c, b) \<Rightarrow>
        let c0 = c\<lparr>c_backoff := 1, c_cap_hits := 0\<rparr>;
            (ok, c1, b1) = (case p of
               PollError \<Rightarrow> (False, c, b)
             | Batch msgs \<Rightarrow> (case process_batch setting now msgs b of
                 (True, b1) \<Rightarrow> (True, c0, emit_lag b1)
               | (False, b1) \<Rightarrow> (False, c0, b1)))
        in if ok then (c1, b1)
           else case consume_error c1 of (kill, c2) \<Rightarrow> (c2, if kill then b1\<lparr>b_sigterm := True\<rparr> else b1))"

text \<open>The loop over the polls until it is stopped or has asked the process to terminate.\<close>

fun consume_loop :: "nat \<Rightarrow> (int \<times> poll) list \<Rightarrow> consumer \<times> bus \<Rightarrow> consumer \<times> bus" where
  "consume_loop setting [] s = s"
| "consume_loop setting ((now, p) # ps) s =
     (if b_stop (snd s) \<or> b_sigterm (snd s) then s else consume_loop setting ps (consume_step setting now p s))"

datatype group_reply = Created | BusyGroup | OtherReply | ConnectionLost

text \<open>One \<open>XGROUP CREATE\<close> per key until one fails for another reason than the group existing.\<close>

fun ensure_consumer_groups :: "(string \<Rightarrow> group_reply) \<Rightarrow> string list \<Rightarrow> unit res" where
  "ensure_consumer_groups reply [] = Inr ()"
| "ensure_consumer_groups reply (k # ks) =
     (case reply k of Created \<Rightarrow> ensure_consumer_groups reply ks
      | BusyGroup \<Rightarrow> ensure_consumer_groups reply ks
      | _ \<Rightarrow> Inl OtherError)"

text \<open>
  \<open>_run\<close>: the second component lists the strategies that were not ready in time and got a warning.
\<close>

definition bus_run :: "nat \<Rightarrow> (string \<Rightarrow> group_reply) \<Rightarrow> (int \<times> poll) list \<Rightarrow> bus \<Rightarrow> bus \<times> string list" where
  "bus_run setting reply polls b =
     ((if b_stream_keys b = [] then b
       else case ensure_consumer_groups reply (b_stream_keys b) of
         Inl e \<Rightarrow> b\<lparr>b_sigterm := True\<rparr>
       | Inr _ \<Rightarrow> snd (consume_loop setting polls (consumer_init, b))),
      map fst (filter (\<lambda>(name, h). \<not> h_ready h) (b_handles b)))"

section \<open>Pub/sub\<close>

text \<open>
  The callbacks a message reaches, in order; \<open>parsed\<close> is the decoded payload, None when it is no JSON.
  A callback that raises does not keep the message from the others.
\<close>

definition dispatch_pubsub :: "string \<Rightarrow> 'j option \<Rightarrow> bus \<Rightarrow> (nat \<times> 'j) list" where
  "dispatch_pubsub channel parsed b =
     (case parsed of
        None \<Rightarrow> []
      | Some payload \<Rightarrow>
          if starts_with ''orderbook:'' channel then map (\<lambda>(n, i). (i, payload)) (b_ob_callbacks b)
          else if starts_with ''candles1s:'' channel then map (\<lambda>(n, i). (i, payload)) (b_c1s_callbacks b)
          else [])"

text \<open>The reconnect loop over its connections (True: subscribed before the error); the waits it makes.\<close>

fun pubsub_waits :: "rat \<Rightarrow> bool list \<Rightarrow> rat list" where
  "pubsub_waits backoff [] = []"
| "pubsub_waits backoff (subscribed # conns) =
     (let b = (if subscribed then 1 else backoff) in min b 30 # pubsub_waits (min (b * 2) 30) conns)"

section \<open>One queue under interleaving\<close>

text \<open>
  The bus thread delivers, one call at a time; between its calls the strategy's loop runs scheduled puts
  (in any order) and takes events, until the loop closes, which may happen at any moment. An enqueue
  on a closed loop raises, is logged, and its event is gone. \<open>q_todo\<close> are the calls the delivery in progress
  has still to make. The other fields list the events sent (overflow markers included), dropped, lost at a
  closed loop and taken.
\<close>

record qsys =
  q_handle :: handle
  q_todo :: "bus_op list"
  q_metrics :: "mcall list"
  q_sent :: "bus_event list"
  q_dropped :: "bus_event list"
  q_lost :: "bus_event list"
  q_got :: "bus_event list"

fun enqueued :: "bus_op list \<Rightarrow> bus_event list" where
  "enqueued [] = []"
| "enqueued (DropOldest # ops) = enqueued ops"
| "enqueued (Enqueue e # ops) = e # enqueued ops"

inductive qstep :: "nat \<Rightarrow> qsys \<Rightarrow> qsys \<Rightarrow> bool" for max_depth :: nat where
  deliver: "q_todo s = [] \<Longrightarrow> ops = deliver_ops max_depth now e (q_handle s) \<Longrightarrow>
     qstep max_depth s (s\<lparr>q_todo := ops, q_sent := q_sent s @ enqueued ops\<rparr>)"
| drop: "q_todo s = DropOldest # ops \<Longrightarrow> run_op DropOldest (q_handle s, []) = (h, ms) \<Longrightarrow>
     qstep max_depth s (s\<lparr>q_handle := h, q_todo := ops, q_metrics := q_metrics s @ ms,
        q_dropped := q_dropped s @ take 1 (h_queue (q_handle s))\<rparr>)"
| enqueue: "q_todo s = Enqueue e # ops \<Longrightarrow> run_op (Enqueue e) (q_handle s, []) = (h, ms) \<Longrightarrow>
     qstep max_depth s (s\<lparr>q_handle := h, q_todo := ops, q_metrics := q_metrics s @ ms,
        q_lost := q_lost s @ (if h_loop_open (q_handle s) then [] else [e])\<rparr>)"
| put: "h_loop_open (q_handle s) \<Longrightarrow> h_pending (q_handle s) = xs @ e # ys \<Longrightarrow>
     h_maxsize (q_handle s) = 0 \<or> length (h_queue (q_handle s)) < h_maxsize (q_handle s) \<Longrightarrow>
     qstep max_depth s (s\<lparr>q_handle := (q_handle s)\<lparr>h_queue := h_queue (q_handle s) @ [e], h_pending := xs @ ys\<rparr>\<rparr>)"
| get: "h_loop_open (q_handle s) \<Longrightarrow> h_queue (q_handle s) = e # es \<Longrightarrow>
     qstep max_depth s (s\<lparr>q_handle := (q_handle s)\<lparr>h_queue := es\<rparr>, q_got := q_got s @ [e]\<rparr>)"
| close: "qstep max_depth s (s\<lparr>q_handle := (q_handle s)\<lparr>h_loop_open := False\<rparr>\<rparr>)"

definition q_start :: "handle \<Rightarrow> qsys" where
  "q_start h = \<lparr>q_handle = h, q_todo = [], q_metrics = [], q_sent = [], q_dropped = [], q_lost = [], q_got = []\<rparr>"

lemma drop_oldest_eq:
  "drop_oldest (h, ms) = (h\<lparr>h_queue := tl (h_queue h)\<rparr>,
     ms @ (if h_queue h = [] then [] else [IncQueueDrop (h_name h)]))"
  by (auto simp: drop_oldest_def split: list.splits)

lemma deliver_to_overflow:
  "h_loop_open h \<Longrightarrow> max_depth \<le> length (h_queue h) \<Longrightarrow> fst (deliver_to max_depth now e h) =
     h\<lparr>h_queue := drop 2 (h_queue h), h_pending := h_pending h @ [overflow_gap now, e]\<rparr>"
  by (cases "h_queue h"; cases "tl (h_queue h)")
     (auto simp: deliver_to_def deliver_ops_def drop_oldest_eq enqueue_def)

definition q_inv :: "handle \<Rightarrow> qsys \<Rightarrow> bool" where
  "q_inv h0 s \<longleftrightarrow>
     h_maxsize (q_handle s) = h_maxsize h0 \<and> h_name (q_handle s) = h_name h0 \<and>
     (h_loop_open (q_handle s) \<longrightarrow> q_lost s = []) \<and>
     (h_maxsize h0 = 0 \<or> length (h_queue (q_handle s)) \<le> h_maxsize h0) \<and>
     mset (q_sent s) = mset (q_got s) + mset (h_queue (q_handle s)) + mset (h_pending (q_handle s)) +
       mset (q_dropped s) + mset (q_lost s) + mset (enqueued (q_todo s)) \<and>
     q_metrics s = replicate (length (q_dropped s)) (IncQueueDrop (h_name h0))"

lemma q_inv_step: "qstep d s t \<Longrightarrow> q_inv h0 s \<Longrightarrow> q_inv h0 t"
proof (induction rule: qstep.induct)
  case (deliver s ops now e)
  then show ?case by (simp add: q_inv_def)
next
  case (drop s ops h ms)
  then show ?case
    by (cases "h_queue (q_handle s)") (auto simp: q_inv_def drop_oldest_eq replicate_append_same)
next
  case (enqueue s e ops h ms)
  then show ?case by (auto simp: q_inv_def enqueue_def)
next
  case (put s xs e ys)
  then show ?case by (auto simp: q_inv_def)
next
  case (get s e es)
  then show ?case by (auto simp: q_inv_def)
next
  case (close s)
  then show ?case by (simp add: q_inv_def)
qed

text \<open>
  C4. Whatever the interleaving of the bus thread's single drops and enqueues with the puts and gets of the
  strategy's loop and with the closing of that loop, a queue never exceeds its capacity, and every event
  sent is exactly one of: taken, queued, scheduled, dropped with one metric call each, still to be
  enqueued by the delivery in progress, or lost because the loop was closed; nothing is
  duplicated, and nothing is lost that way while the loop is open.
\<close>
theorem queue_accounts_for_every_event:
  assumes "(qstep max_depth)\<^sup>*\<^sup>* (q_start h) s" "h_queue h = []" "h_pending h = []"
  shows "(h_maxsize h = 0 \<or> length (h_queue (q_handle s)) \<le> h_maxsize h) \<and>
    mset (q_sent s) = mset (q_got s) + mset (h_queue (q_handle s)) + mset (h_pending (q_handle s)) +
      mset (q_dropped s) + mset (q_lost s) + mset (enqueued (q_todo s)) \<and>
    q_metrics s = replicate (length (q_dropped s)) (IncQueueDrop (h_name h)) \<and>
    (h_loop_open (q_handle s) \<longrightarrow> q_lost s = [])"
proof -
  have "q_inv h (q_start h)" using assms by (simp add: q_inv_def q_start_def)
  with assms(1) have "q_inv h s"
    by (induction rule: rtranclp_induct) (auto intro: q_inv_step)
  then show ?thesis by (simp add: q_inv_def)
qed

text \<open>
  An overflow goes unnoticed: a full queue loses its two oldest events and the marker that replaces them
  names no symbol, so a strategy that handles it invalidates no symbol at all.
\<close>
theorem overflow_invalidates_no_symbol:
  assumes "max_depth \<le> length (h_queue h)" "h_loop_open h" "sy \<noteq> []"
  shows "\<exists>gap. h_pending (fst (deliver_to max_depth now e h)) = h_pending h @ [EGapMarker gap, e] \<and>
    h_queue (fst (deliver_to max_depth now e h)) = drop 2 (h_queue h) \<and>
    invalid (handle_gap gap st) sy = invalid st sy \<and>
    map_of (st_dfs (handle_gap gap st)) (sy, tf) = map_of (st_dfs st) (sy, tf)"
proof -
  define gap where "gap = \<lparr>gm_exchange = [], gm_symbol = [], gm_gap_cause = ''queue_overflow'', gm_ts = now\<rparr>"
  have m: "map_of (map (\<lambda>((s, t), df). ((s, t), if s = [] then mark_last_gap df else df)) d) (sy, tf) =
      map_of d (sy, tf)" for d :: "(string \<times> string, frame) dict"
    using assms(3) by (induction d) auto
  have "h_pending (fst (deliver_to max_depth now e h)) = h_pending h @ [EGapMarker gap, e]"
    "h_queue (fst (deliver_to max_depth now e h)) = drop 2 (h_queue h)"
    by (simp_all add: deliver_to_overflow [OF assms(2,1)] overflow_gap_def gap_def)
  moreover have "invalid (handle_gap gap st) sy = invalid st sy"
    using assms(3) by (simp add: handle_gap_state gap_def)
  moreover have "map_of (st_dfs (handle_gap gap st)) (sy, tf) = map_of (st_dfs st) (sy, tf)"
    by (simp add: handle_gap_def gap_def m)
  ultimately show ?thesis by blast
qed

section \<open>Backoff\<close>

definition poll_ok :: "poll \<Rightarrow> bool" where
  "poll_ok p = (case p of PollError \<Rightarrow> False | Batch msgs \<Rightarrow> list_all (\<lambda>(k, e, ack). e \<noteq> None \<and> ack) msgs)"

text \<open>The failures in a row; a batch that was read and fails counts as the first.\<close>

definition streak :: "nat \<Rightarrow> poll \<Rightarrow> nat" where
  "streak n p = (if poll_ok p then 0 else if p = PollError then n + 1 else 1)"

definition level :: "nat \<Rightarrow> rat \<times> nat" where
  "level n = ([(1, 0), (2, 0), (4, 0), (8, 0), (16, 0), (32, 0), (60, 0), (60, 1), (60, 2)] ! n)"

lemma process_batch_ok: "fst (process_batch setting now msgs b) = list_all (\<lambda>(k, e, ack). e \<noteq> None \<and> ack) msgs"
  by (induction setting now msgs b rule: process_batch.induct) (auto simp: Let_def)

lemma deliver_named_frame:
  "b_stop (deliver_named d now e n b) = b_stop b" "b_sigterm (deliver_named d now e n b) = b_sigterm b"
  by (simp_all add: deliver_named_def split: option.splits prod.splits)

lemma route_frame: "b_stop (route d now k e b) = b_stop b" "b_sigterm (route d now k e b) = b_sigterm b"
proof -
  have "b_stop (fold (deliver_named d now ev) ns b) = b_stop b \<and> b_sigterm (fold (deliver_named d now ev) ns b) = b_sigterm b"
    for d ev ns by (induction ns arbitrary: b) (simp_all add: deliver_named_frame)
  then show "b_stop (route d now k e b) = b_stop b" "b_sigterm (route d now k e b) = b_sigterm b"
    by (simp_all add: route_def split: option.splits)
qed

lemma process_batch_frame:
  "b_stop (snd (process_batch setting now msgs b)) = b_stop b"
  "b_sigterm (snd (process_batch setting now msgs b)) = b_sigterm b"
  by (induction setting now msgs b rule: process_batch.induct) (auto simp: Let_def route_frame)

lemma emit_lag_frame: "b_stop (emit_lag b) = b_stop b" "b_sigterm (emit_lag b) = b_sigterm b"
  by (simp_all add: emit_lag_def)

lemma consume_error_level:
  assumes "n < 9" "(c_backoff c, c_cap_hits c) = level n"
  shows "fst (consume_error c) \<longleftrightarrow> n = 8"
    and "n < 8 \<Longrightarrow> (c_backoff (snd (consume_error c)), c_cap_hits (snd (consume_error c))) = level (n + 1)"
proof -
  have "n \<in> {0, 1, 2, 3, 4, 5, 6, 7, 8}" using assms(1) by auto
  then show "fst (consume_error c) \<longleftrightarrow> n = 8"
    "n < 8 \<Longrightarrow> (c_backoff (snd (consume_error c)), c_cap_hits (snd (consume_error c))) = level (n + 1)"
    using assms(2) by (auto simp: consume_error_def Let_def level_def nth_Cons')
qed

lemma consume_step_level:
  assumes n: "n < 9" and l: "(c_backoff c, c_cap_hits c) = level n" and b: "\<not> b_sigterm b"
  shows "(b_sigterm (snd (consume_step setting now p (c, b))) \<longleftrightarrow> streak n p = 9) \<and>
    b_stop (snd (consume_step setting now p (c, b))) = b_stop b \<and>
    (streak n p < 9 \<longrightarrow> (c_backoff (fst (consume_step setting now p (c, b))),
      c_cap_hits (fst (consume_step setting now p (c, b)))) = level (streak n p))"
proof (cases p)
  case PollError
  obtain kill c2 where k: "consume_error c = (kill, c2)" by force
  show ?thesis
    using consume_error_level [OF n l] n b by (auto simp: PollError consume_step_def k streak_def poll_ok_def)
next
  case (Batch msgs)
  let ?c0 = "c\<lparr>c_backoff := 1, c_cap_hits := 0\<rparr>"
  have l0: "(c_backoff ?c0, c_cap_hits ?c0) = level 0" by (simp add: level_def)
  obtain ok b1 where pb: "process_batch setting now msgs b = (ok, b1)" by force
  have f: "b_stop b1 = b_stop b" "\<not> b_sigterm b1" "ok \<longleftrightarrow> poll_ok p"
    using process_batch_frame [of setting now msgs b] process_batch_ok [of setting now msgs b] pb b
    by (simp_all add: Batch poll_ok_def)
  show ?thesis
  proof (cases ok)
    case True
    then show ?thesis using f l0 by (simp add: Batch consume_step_def pb emit_lag_frame streak_def)
  next
    case False
    obtain kill c2 where k: "consume_error ?c0 = (kill, c2)" by force
    have "\<not> kill" "(c_backoff c2, c_cap_hits c2) = level 1"
      using consume_error_level [of 0, OF _ l0] k by simp_all
    then show ?thesis using False f
      by (simp add: Batch consume_step_def pb k streak_def)
  qed
qed

lemma consume_loop_ended: "b_stop (snd s) \<or> b_sigterm (snd s) \<Longrightarrow> consume_loop setting ps s = s"
  by (cases ps) auto

lemma consume_loop_level:
  assumes "n < 9" "(c_backoff c, c_cap_hits c) = level n" "\<not> b_sigterm b" "\<not> b_stop b"
  shows "b_sigterm (snd (consume_loop setting ps (c, b))) \<longleftrightarrow>
    (\<exists>k. foldl streak n (map snd (take k ps)) = 9)"
  using assms
proof (induction ps arbitrary: n c b)
  case Nil
  then show ?case by auto
next
  case (Cons q ps)
  obtain now p where q: "q = (now, p)" by force
  obtain c1 b1 where st: "consume_step setting now p (c, b) = (c1, b1)" by force
  note lv = consume_step_level [OF Cons.prems(1,2,3), of setting now p, unfolded st]
  have ex: "(\<exists>k. foldl streak n (map snd (take k (q # ps))) = 9) \<longleftrightarrow>
      (\<exists>k. foldl streak (streak n p) (map snd (take k ps)) = 9)"
  proof
    assume "\<exists>k. foldl streak n (map snd (take k (q # ps))) = 9"
    then obtain k where "foldl streak n (map snd (take k (q # ps))) = 9" ..
    then show "\<exists>k. foldl streak (streak n p) (map snd (take k ps)) = 9"
      using Cons.prems(1) q by (cases k) auto
  next
    assume "\<exists>k. foldl streak (streak n p) (map snd (take k ps)) = 9"
    then obtain k where "foldl streak (streak n p) (map snd (take k ps)) = 9" ..
    then have "foldl streak n (map snd (take (Suc k) (q # ps))) = 9" using q by simp
    then show "\<exists>k. foldl streak n (map snd (take k (q # ps))) = 9" ..
  qed
  show ?case
  proof (cases "streak n p = 9")
    case True
    then have "b_sigterm b1" using lv by simp
    then have "b_sigterm (snd (consume_loop setting (q # ps) (c, b)))"
      using Cons.prems q st by (simp add: consume_loop_ended)
    moreover have "foldl streak (streak n p) (map snd (take 0 ps)) = 9" using True by simp
    ultimately show ?thesis unfolding ex by blast
  next
    case False
    then have "streak n p < 9" using Cons.prems(1) by (auto simp: streak_def split: if_splits)
    then show ?thesis using Cons.IH [of "streak n p" c1 b1] lv Cons.prems q st ex by simp
  qed
qed

text \<open>
  The consumer asks the process to terminate exactly when nine polls in a row fail, a successful one
  starting the count afresh; the waits before that add up to 183 seconds.
\<close>
theorem consumer_gives_up_after_nine_failures:
  "\<not> b_sigterm b \<Longrightarrow> \<not> b_stop b \<Longrightarrow>
   (b_sigterm (snd (consume_loop setting ps (consumer_init, b))) \<longleftrightarrow>
      (\<exists>k. foldl streak 0 (map snd (take k ps)) = 9)) \<and>
   sum_list (c_sleeps (fst (consume_loop setting (replicate 9 (0, PollError)) (consumer_init, b)))) = 183"
proof
  assume "\<not> b_sigterm b" "\<not> b_stop b"
  then show "b_sigterm (snd (consume_loop setting ps (consumer_init, b))) \<longleftrightarrow>
      (\<exists>k. foldl streak 0 (map snd (take k ps)) = 9)"
    by (intro consume_loop_level) (simp_all add: consumer_init_def level_def)
next
  assume "\<not> b_sigterm b" "\<not> b_stop b"
  then show "sum_list (c_sleeps (fst (consume_loop setting (replicate 9 (0, PollError)) (consumer_init, b)))) = 183"
    by (simp add: numeral_eq_Suc consume_step_def consume_error_def consumer_init_def Let_def)
qed

text \<open>
  A failing message takes the rest of its batch with it: what follows it is never routed, whatever it
  is, although the group already counts it as delivered to this consumer and only new messages are read.
\<close>
theorem batch_tail_lost:
  assumes "\<not> poll_ok (Batch [m])"
  shows "consume_step setting now (Batch (xs @ m # ys)) s = consume_step setting now (Batch (xs @ [m])) s"
proof -
  have "process_batch setting now (xs @ m # ys) b = process_batch setting now (xs @ [m]) b" for b
    using assms
    by (induction setting now xs b rule: process_batch.induct; cases m; cases "fst (snd m)")
       (auto simp: poll_ok_def Let_def)
  then show ?thesis by (simp add: consume_step_def split: prod.splits)
qed

section \<open>Examples\<close>

definition sample_handle :: handle where
  "sample_handle = \<lparr>h_name = ''s'', h_instance = 0, h_queue = [], h_pending = [], h_maxsize = 2,
     h_loop_open = True, h_ready = True\<rparr>"

text \<open>
  A history with every kind of step: an event is queued, the next one overflows the queue of depth 1 and
  replaces it with a marker, the marker is taken, the loop closes and a third event is lost.
\<close>

definition sample_event :: "int \<Rightarrow> bus_event" where
  "sample_event t = overflow_gap t"

definition q_of ::
  "bus_event list \<Rightarrow> bus_event list \<Rightarrow> bool \<Rightarrow> bus_op list \<Rightarrow> nat \<Rightarrow>
   bus_event list \<times> bus_event list \<times> bus_event list \<times> bus_event list \<Rightarrow> qsys" where
  "q_of queue pending opened todo n ev = (case ev of (sent, dropped, lost, got) \<Rightarrow>
     \<lparr>q_handle = sample_handle\<lparr>h_queue := queue, h_pending := pending, h_loop_open := opened\<rparr>, q_todo = todo,
      q_metrics = replicate n (IncQueueDrop ''s''), q_sent = sent, q_dropped = dropped, q_lost = lost,
      q_got = got\<rparr>)"

lemma sample_history:
  fixes a b c g :: bus_event
  defines "a \<equiv> sample_event 1" and "b \<equiv> sample_event 2" and "c \<equiv> sample_event 3" and "g \<equiv> overflow_gap 9"
  shows "(qstep 1)\<^sup>*\<^sup>* (q_start sample_handle) (q_of [] [b] False [] 1 ([a, g, b, c], [a], [c], [g]))"
proof -
  have s0: "q_start sample_handle = q_of [] [] True [] 0 ([], [], [], [])"
    by (simp add: q_start_def q_of_def sample_handle_def)
  have "qstep 1 (q_of [] [] True [] 0 ([], [], [], [])) (q_of [] [] True [Enqueue a] 0 ([a], [], [], []))"
    using qstep.deliver [of "q_of [] [] True [] 0 ([], [], [], [])" _ 1 9 a]
    by (simp add: q_of_def deliver_ops_def)
  moreover have "qstep 1 (q_of [] [] True [Enqueue a] 0 ([a], [], [], [])) (q_of [] [a] True [] 0 ([a], [], [], []))"
    using qstep.enqueue [of "q_of [] [] True [Enqueue a] 0 ([a], [], [], [])" a "[]"]
    by (simp add: q_of_def enqueue_def)
  moreover have "qstep 1 (q_of [] [a] True [] 0 ([a], [], [], [])) (q_of [a] [] True [] 0 ([a], [], [], []))"
    using qstep.put [of "q_of [] [a] True [] 0 ([a], [], [], [])" "[]" a "[]"]
    by (simp add: q_of_def sample_handle_def)
  moreover have "qstep 1 (q_of [a] [] True [] 0 ([a], [], [], []))
      (q_of [a] [] True [DropOldest, DropOldest, Enqueue g, Enqueue b] 0 ([a, g, b], [], [], []))"
    using qstep.deliver [of "q_of [a] [] True [] 0 ([a], [], [], [])" _ 1 9 b]
    by (simp add: q_of_def deliver_ops_def g_def)
  moreover have "qstep 1 (q_of [a] [] True [DropOldest, DropOldest, Enqueue g, Enqueue b] 0 ([a, g, b], [], [], []))
      (q_of [] [] True [DropOldest, Enqueue g, Enqueue b] 1 ([a, g, b], [a], [], []))"
    using qstep.drop [of "q_of [a] [] True [DropOldest, DropOldest, Enqueue g, Enqueue b] 0 ([a, g, b], [], [], [])"
        "[DropOldest, Enqueue g, Enqueue b]" "sample_handle\<lparr>h_queue := [], h_pending := [], h_loop_open := True\<rparr>"
        "[IncQueueDrop ''s'']" 1]
    by (simp add: q_of_def drop_oldest_eq sample_handle_def)
  moreover have "qstep 1 (q_of [] [] True [DropOldest, Enqueue g, Enqueue b] 1 ([a, g, b], [a], [], []))
      (q_of [] [] True [Enqueue g, Enqueue b] 1 ([a, g, b], [a], [], []))"
    using qstep.drop [of "q_of [] [] True [DropOldest, Enqueue g, Enqueue b] 1 ([a, g, b], [a], [], [])" "[Enqueue g, Enqueue b]"]
    by (simp add: q_of_def drop_oldest_eq)
  moreover have "qstep 1 (q_of [] [] True [Enqueue g, Enqueue b] 1 ([a, g, b], [a], [], []))
      (q_of [] [g] True [Enqueue b] 1 ([a, g, b], [a], [], []))"
    using qstep.enqueue [of "q_of [] [] True [Enqueue g, Enqueue b] 1 ([a, g, b], [a], [], [])" g "[Enqueue b]"]
    by (simp add: q_of_def enqueue_def)
  moreover have "qstep 1 (q_of [] [g] True [Enqueue b] 1 ([a, g, b], [a], [], []))
      (q_of [] [g, b] True [] 1 ([a, g, b], [a], [], []))"
    using qstep.enqueue [of "q_of [] [g] True [Enqueue b] 1 ([a, g, b], [a], [], [])" b "[]"]
    by (simp add: q_of_def enqueue_def)
  moreover have "qstep 1 (q_of [] [g, b] True [] 1 ([a, g, b], [a], [], [])) (q_of [g] [b] True [] 1 ([a, g, b], [a], [], []))"
    using qstep.put [of "q_of [] [g, b] True [] 1 ([a, g, b], [a], [], [])" "[]" g "[b]"]
    by (simp add: q_of_def sample_handle_def)
  moreover have "qstep 1 (q_of [g] [b] True [] 1 ([a, g, b], [a], [], [])) (q_of [] [b] True [] 1 ([a, g, b], [a], [], [g]))"
    using qstep.get [of "q_of [g] [b] True [] 1 ([a, g, b], [a], [], [])" g "[]"]
    by (simp add: q_of_def sample_handle_def)
  moreover have "qstep 1 (q_of [] [b] True [] 1 ([a, g, b], [a], [], [g])) (q_of [] [b] False [] 1 ([a, g, b], [a], [], [g]))"
    using qstep.close [of 1 "q_of [] [b] True [] 1 ([a, g, b], [a], [], [g])"] by (simp add: q_of_def)
  moreover have "qstep 1 (q_of [] [b] False [] 1 ([a, g, b], [a], [], [g]))
      (q_of [] [b] False [Enqueue c] 1 ([a, g, b, c], [a], [], [g]))"
    using qstep.deliver [of "q_of [] [b] False [] 1 ([a, g, b], [a], [], [g])" _ 1 9 c]
    by (simp add: q_of_def deliver_ops_def)
  moreover have "qstep 1 (q_of [] [b] False [Enqueue c] 1 ([a, g, b, c], [a], [], [g]))
      (q_of [] [b] False [] 1 ([a, g, b, c], [a], [c], [g]))"
    using qstep.enqueue [of "q_of [] [b] False [Enqueue c] 1 ([a, g, b, c], [a], [], [g])" c "[]"
        "sample_handle\<lparr>h_queue := [], h_pending := [b], h_loop_open := False\<rparr>" "[]" 1]
    by (simp add: q_of_def enqueue_def)
  ultimately show ?thesis unfolding s0
    by (meson converse_rtranclp_into_rtranclp rtranclp.rtrancl_refl)
qed

theorem queue_accounts_for_every_event_witness:
  "\<exists>s. (qstep 1)\<^sup>*\<^sup>* (q_start sample_handle) s \<and> q_dropped s = [sample_event 1] \<and> q_lost s = [sample_event 3] \<and>
     mset (q_sent s) = {#overflow_gap 9, sample_event 2, sample_event 1, sample_event 3#} \<and>
     q_metrics s = [IncQueueDrop ''s'']"
  using queue_accounts_for_every_event [OF sample_history] sample_history
  by (auto simp: q_of_def sample_handle_def intro!: exI)

theorem overflow_invalidates_no_symbol_witness:
  "\<exists>gap. invalid (handle_gap gap sample_strategy) ''BTC'' = invalid sample_strategy ''BTC''"
  using overflow_invalidates_no_symbol [of 1 "sample_handle\<lparr>h_queue := [overflow_gap 0]\<rparr>" "''BTC''"
      0 "overflow_gap 0" sample_strategy "''1s''"]
  by (auto simp: sample_handle_def)

theorem consumer_gives_up_after_nine_failures_witness:
  "sum_list (c_sleeps (fst (consume_loop 5 (replicate 9 (0, PollError)) (consumer_init, bus_init None)))) = 183"
  using consumer_gives_up_after_nine_failures [of "bus_init None" 5 "[]"] by (simp add: bus_init_def)

theorem batch_tail_lost_witness:
  "consume_step 5 0 (Batch [(''k'', None, True), (''k'', Some [], True)]) (consumer_init, bus_init None) =
   consume_step 5 0 (Batch [(''k'', None, True)]) (consumer_init, bus_init None)"
  using batch_tail_lost [of "(''k'', None, True)" 5 0 "[]" "[(''k'', Some [], True)]"] by (simp add: poll_ok_def)

end
