(* ===== verification/Registry.thy ===== *)
theory Registry
  imports Event_Bus Reconciliation
begin

text \<open>
  The strategy registry (\<open>strategy/registry.py\<close>): loading strategy files, the file watcher with hot
  reload, the watchdog with its backoff, and the status report. A strategy thread is a number; which
  threads run and which stop events are set is part of the state. Importing a file, the answers a startup
  reconciliation gets and what the handler table holds when it is read are arguments.
\<close>

section \<open>Loading files\<close>

text \<open>The import of a file: an exception with its type name, or the strategy classes it defines.\<close>

datatype import_result = ImportFails string | Classes "string list"

definition import_strategy_class :: "string \<Rightarrow> import_result \<Rightarrow> string option \<times> mcall list" where
  "import_strategy_class file r =
     (case r of
        ImportFails exc_name \<Rightarrow> (None, [IncStrategyLoadFailure file exc_name])
      | Classes cs \<Rightarrow>
          (case cs of
             [] \<Rightarrow> (None, [IncStrategyLoadFailure file ''no_class_found''])
           | [c] \<Rightarrow> (Some c, [])
           | _ \<Rightarrow> (None, [IncStrategyLoadFailure file ''multiple_classes''])))"

text \<open>The two passes over the directory, given as its files in sorted order (None: no such directory).\<close>

definition first_pass :: "(string \<times> import_result) list \<Rightarrow> (string \<times> string) list \<times> mcall list" where
  "first_pass files =
     (concat (map (\<lambda>(f, r). case fst (import_strategy_class f r) of None \<Rightarrow> [] | Some c \<Rightarrow> [(f, c)]) files),
      concat (map (\<lambda>(f, r). snd (import_strategy_class f r)) files))"

definition is_duplicate :: "(string \<times> string) list \<Rightarrow> string \<Rightarrow> bool" where
  "is_duplicate cands c \<longleftrightarrow> 1 < length (filter (\<lambda>(f, c'). c' = c) cands)"

definition scan_directory ::
  "(string \<times> import_result) list option \<Rightarrow> (string, string) dict \<times> mcall list" where
  "scan_directory dir =
     (case dir of
        None \<Rightarrow> ([], [])
      | Some files \<Rightarrow>
          (case first_pass files of (cands, ms) \<Rightarrow>
             fold (\<lambda>(f, c) (d, ms). if is_duplicate cands c
                     then (d, ms @ [IncStrategyLoadFailure f ''duplicate_class_name''])
                     else (dset c f d, ms)) cands ([], ms)))"

section \<open>The watcher's state\<close>

record settings =
  se_exchange :: string
  se_queue_max_depth :: nat
  se_portfolio_value_usd :: f64
  se_max_order_notional_usd :: f64
  se_circuit_breaker :: "breaker option"

record watcher =
  fw_bus :: bus
  fw_loaded :: "(string, string \<times> nat \<times> rat) dict"
  fw_backoff :: "(string, rat \<times> nat \<times> rat) dict"
  fw_pending_restart :: "string list"
  fw_strategy_instances :: "(string, strategy) dict"
  fw_started_at :: "(string, rat) dict"
  fw_threads :: nat
  fw_running :: "nat set"
  fw_stop_events :: "nat set"
  fw_metrics :: "mcall list"

definition watcher_init :: "bus \<Rightarrow> watcher" where
  "watcher_init b = \<lparr>fw_bus = b, fw_loaded = [], fw_backoff = [], fw_pending_restart = [],
     fw_strategy_instances = [], fw_started_at = [], fw_threads = 0, fw_running = {}, fw_stop_events = {},
     fw_metrics = []\<rparr>"

definition fw_metric :: "mcall \<Rightarrow> watcher \<Rightarrow> watcher" where
  "fw_metric c w = w\<lparr>fw_metrics := fw_metrics w @ [c]\<rparr>"

definition on_bus :: "(bus \<Rightarrow> bus) \<Rightarrow> watcher \<Rightarrow> watcher" where
  "on_bus f w = w\<lparr>fw_bus := f (fw_bus w)\<rparr>"

section \<open>Loading one strategy\<close>

text \<open>
  What one load meets: the constructed strategy and its order book mode, the answers of the
  reconciliation, and the handler table as it is when it is read (the strategy's thread fills it at the same
  time; a change during the iteration raises), the file's time stamp and the clock.
\<close>

record load_env =
  le_strategy :: "strategy res"
  le_mode :: string
  le_rows :: "qrow list option"
  le_open_orders :: "open_order list res"
  le_handlers_seen :: "(string \<times> string) list res"
  le_funding_seen :: "string list"
  le_mtime :: "rat option"
  le_now :: rat

definition load_recon :: "(f64 \<Rightarrow> string) \<Rightarrow> settings \<Rightarrow> string \<Rightarrow> load_env \<Rightarrow> strategy \<Rightarrow> unit res \<times> recon" where
  "load_recon fr se name env st =
     run_startup_reconciliation fr (se_exchange se) (le_rows env) (le_open_orders env)
       \<lparr>rc_strategy = st,
        rc_worker = worker_init name (st_max_position_pct st) (st_paper_trading st)
          (se_portfolio_value_usd se) (se_max_order_notional_usd se) (se_circuit_breaker se) True,
        rc_alerts = [], rc_metrics = [], rc_retry = None\<rparr>"

definition create_handle :: "string \<Rightarrow> nat \<Rightarrow> settings \<Rightarrow> handle" where
  "create_handle name i se = \<lparr>h_name = name, h_instance = i, h_queue = [], h_pending = [],
     h_maxsize = se_queue_max_depth se, h_loop_open = True, h_ready = False\<rparr>"

definition stream_keys_of :: "string \<Rightarrow> (string \<times> string) list \<Rightarrow> string list \<Rightarrow> string list \<Rightarrow> string list" where
  "stream_keys_of ex handlers managed funding =
     remdups (concat (map (\<lambda>(sy, tf). [''candles:close:'' @ ex @ '':'' @ sy @ '':'' @ tf,
                                        ''candles:ob:'' @ ex @ '':'' @ sy]) handlers) @
              concat (map (\<lambda>sy. [''candles:close:'' @ ex @ '':'' @ sy @ '':1s'',
                                 ''candles:ob:'' @ ex @ '':'' @ sy]) managed) @ funding)"

text \<open>\<open>_load_new\<close>; every exception ends it with no stream keys and the state reached so far.\<close>

definition load_new ::
  "(f64 \<Rightarrow> string) \<Rightarrow> settings \<Rightarrow> string \<Rightarrow> string \<Rightarrow> load_env \<Rightarrow> bool \<Rightarrow> watcher \<Rightarrow> string list \<times> watcher" where
  "load_new fr se name path env pre_start w =
     (case le_strategy env of
        Inl e \<Rightarrow> ([], w)
      | Inr st0 \<Rightarrow>
          (case load_recon fr se name env st0 of
             (Inl e, rc) \<Rightarrow> ([], w\<lparr>fw_metrics := fw_metrics w @ rc_metrics rc\<rparr>)
           | (Inr _, rc) \<Rightarrow>
               let st = (rc_strategy rc)\<lparr>st_has_client := True, st_exchange := se_exchange se\<rparr>;
                   i = fw_threads w;
                   h = create_handle name i se;
                   w1 = w\<lparr>fw_metrics := fw_metrics w @ rc_metrics rc, fw_threads := i + 1,
                          fw_running := insert i (fw_running w)\<rparr>;
                   w2 = (if le_mode env \<noteq> ''none'' then on_bus (provision_pubsub name (le_mode env) i) w1 else w1)
               in case le_handlers_seen env of
                    Inl e \<Rightarrow> ([], w2)
                  | Inr hs \<Rightarrow>
                      let keys = stream_keys_of (se_exchange se) hs (st_managed_positions st) (le_funding_seen env);
                          mtime = (case le_mtime env of None \<Rightarrow> 0 | Some t \<Rightarrow> t);
                          w3 = w2\<lparr>fw_loaded := dset name (path, i, mtime) (fw_loaded w2),
                                 fw_strategy_instances := dset name st (fw_strategy_instances w2),
                                 fw_started_at := dset name (le_now env) (fw_started_at w2)\<rparr>
                      in if pre_start
                         then (case register h (fw_bus w3) of
                                 (Inl e, b) \<Rightarrow> ([], w3\<lparr>fw_bus := b\<rparr>)
                               | (Inr _, b) \<Rightarrow> (keys, w3\<lparr>fw_bus := b\<rparr>))
                         else (keys, on_bus (dynamic_register h) w3)))"

section \<open>Unloading, reloading, crashing\<close>

text \<open>
  \<open>_stop_thread\<close>: sets the event and joins. A thread cannot join itself; otherwise the join ends with the
  thread gone or, after the timeout, with the thread left running (\<open>exits\<close>).
\<close>

definition stop_thread :: "nat option \<Rightarrow> (nat \<Rightarrow> bool) \<Rightarrow> nat \<Rightarrow> watcher \<Rightarrow> unit res \<times> watcher" where
  "stop_thread caller exits i w =
     (let w1 = w\<lparr>fw_stop_events := insert i (fw_stop_events w)\<rparr> in
      if caller = Some i then (Inl RuntimeError, w1)
      else (Inr (), if exits i then w1\<lparr>fw_running := fw_running w1 - {i}\<rparr> else w1))"

definition unload :: "(nat \<Rightarrow> bool) \<Rightarrow> string \<Rightarrow> watcher \<Rightarrow> watcher" where
  "unload exits name w =
     (case map_of (fw_loaded w) name of
        None \<Rightarrow> w
      | Some (path, i, mtime) \<Rightarrow>
          let w1 = on_bus (deprovision_pubsub name)
                 (w\<lparr>fw_loaded := dpop name (fw_loaded w),
                    fw_strategy_instances := dpop name (fw_strategy_instances w),
                    fw_started_at := dpop name (fw_started_at w)\<rparr>)
          in on_bus (dynamic_deregister name) (snd (stop_thread None exits i w1)))"

definition hot_reload ::
  "(f64 \<Rightarrow> string) \<Rightarrow> settings \<Rightarrow> (nat \<Rightarrow> bool) \<Rightarrow> string \<Rightarrow> string \<Rightarrow> load_env \<Rightarrow> watcher \<Rightarrow> watcher" where
  "hot_reload fr se exits name path env w = snd (load_new fr se name path env False (unload exits name w))"

definition backoff_sequence :: "rat list" where
  "backoff_sequence = [5, 10, 30, 60]"

text \<open>The crash handler up to its sleep, and after it (the import of the file and the load are arguments).\<close>

definition crash_begin :: "string \<Rightarrow> watcher \<Rightarrow> watcher \<times> (string \<times> rat \<times> nat) option" where
  "crash_begin name w =
     (case map_of (fw_loaded w) name of
        None \<Rightarrow> (w, None)
      | Some (path, i, mtime) \<Rightarrow>
          let (backoff_s, restart_count, last) = dget (fw_backoff w) name (hd backoff_sequence, 0, 0);
              w1 = w\<lparr>fw_loaded := dpop name (fw_loaded w),
                     fw_strategy_instances := dpop name (fw_strategy_instances w),
                     fw_started_at := dpop name (fw_started_at w),
                     fw_pending_restart := add_set name (fw_pending_restart w)\<rparr>;
              w2 = fw_metric (SetStrategyBackoff name (fl backoff_s)) (fw_metric (IncStrategyRestart name)
                     (fw_metric (ResetStrategyGauges name) w1))
          in (on_bus (dynamic_deregister name \<circ> deprovision_pubsub name) w2, Some (path, backoff_s, restart_count)))"

definition crash_end ::
  "(f64 \<Rightarrow> string) \<Rightarrow> settings \<Rightarrow> string \<Rightarrow> string \<Rightarrow> nat \<Rightarrow> import_result \<Rightarrow> load_env \<Rightarrow> rat \<Rightarrow> watcher \<Rightarrow> watcher" where
  "crash_end fr se name path restart_count imp env now w =
     (let next_backoff = backoff_sequence ! (min (restart_count + 1) (length backoff_sequence - 1));
          w1 = w\<lparr>fw_backoff := dset name (next_backoff, restart_count + 1, now) (fw_backoff w)\<rparr>;
          (cls, ms) = import_strategy_class path imp;
          w2 = w1\<lparr>fw_metrics := fw_metrics w1 @ ms\<rparr>;
          w3 = (case cls of None \<Rightarrow> w2 | Some c \<Rightarrow> snd (load_new fr se name path env False w2))
      in w3\<lparr>fw_pending_restart := removeAll name (fw_pending_restart w3)\<rparr>)"

text \<open>The watchdog's poll: the loaded strategies whose thread ended without being stopped.\<close>

definition crashed_strategies :: "watcher \<Rightarrow> string list" where
  "crashed_strategies w = map fst (filter (\<lambda>(name, path, i, mtime).
     i \<notin> fw_running w \<and> i \<notin> fw_stop_events w) (fw_loaded w))"

section \<open>The file watcher's poll\<close>

definition initial_scan ::
  "(f64 \<Rightarrow> string) \<Rightarrow> settings \<Rightarrow> (string \<Rightarrow> load_env) \<Rightarrow> (string \<times> import_result) list option \<Rightarrow> watcher \<Rightarrow>
   string list \<times> watcher" where
  "initial_scan fr se env dir w =
     (case scan_directory dir of (valid, ms) \<Rightarrow>
        fold (\<lambda>(name, path) (keys, w). case load_new fr se name path (env name) True w of
                 (ks, w1) \<Rightarrow> (remdups (keys @ ks), w1)) valid ([], w\<lparr>fw_metrics := fw_metrics w @ ms\<rparr>))"

text \<open>
  The three loops of \<open>_rescan\<close>; the second and third start from the names that were loaded when the poll
  began. \<open>stat\<close> is the time stamp of a path (None: the file is gone).
\<close>

definition rescan_removed :: "(nat \<Rightarrow> bool) \<Rightarrow> string list \<Rightarrow> watcher \<Rightarrow> watcher" where
  "rescan_removed exits names w = fold (unload exits) names w"

definition rescan_new ::
  "(f64 \<Rightarrow> string) \<Rightarrow> settings \<Rightarrow> (string \<Rightarrow> load_env) \<Rightarrow> (string \<times> string) list \<Rightarrow> watcher \<Rightarrow> watcher" where
  "rescan_new fr se env items w = fold (\<lambda>(name, path) w. snd (load_new fr se name path (env name) False w)) items w"

definition rescan_modified ::
  "(f64 \<Rightarrow> string) \<Rightarrow> settings \<Rightarrow> (nat \<Rightarrow> bool) \<Rightarrow> (string \<Rightarrow> load_env) \<Rightarrow> (string \<Rightarrow> rat option) \<Rightarrow>
   (string \<times> string) \<Rightarrow> watcher \<Rightarrow> unit res \<times> watcher" where
  "rescan_modified fr se exits env stat item w =
     (case item of (name, path) \<Rightarrow>
        case map_of (fw_loaded w) name of
          None \<Rightarrow> (Inl KeyError, w)
        | Some (old_path, i, old_mtime) \<Rightarrow>
            if old_path = path then
              (case stat path of
                 None \<Rightarrow> (Inr (), w)
               | Some new_mtime \<Rightarrow>
                   (Inr (), if new_mtime \<noteq> old_mtime then hot_reload fr se exits name path (env name) w else w))
            else (Inr (), w))"

definition rescan ::
  "(f64 \<Rightarrow> string) \<Rightarrow> settings \<Rightarrow> (nat \<Rightarrow> bool) \<Rightarrow> (string \<Rightarrow> load_env) \<Rightarrow> (string \<Rightarrow> rat option) \<Rightarrow>
   (string \<times> import_result) list option \<Rightarrow> watcher \<Rightarrow> unit res \<times> watcher" where
  "rescan fr se exits env stat dir w =
     (case scan_directory dir of (valid, ms) \<Rightarrow>
        let w0 = w\<lparr>fw_metrics := fw_metrics w @ ms\<rparr>;
            loaded = dkeys (fw_loaded w0);
            w1 = rescan_removed exits (filter (\<lambda>n. n \<notin> set (dkeys valid)) loaded) w0;
            w2 = rescan_new fr se env (filter (\<lambda>(n, p). n \<notin> set loaded \<and> n \<notin> set (fw_pending_restart w1)) valid) w1
        in each (rescan_modified fr se exits env stat) (filter (\<lambda>(n, p). n \<in> set loaded) valid) w2)"

section \<open>Status and teardown\<close>

datatype status = Running | Restarting | Stopped

definition get_strategy_statuses :: "watcher \<Rightarrow> (string, status) dict" where
  "get_strategy_statuses w =
     (let d = map (\<lambda>(name, path, i, mtime). (name,
                if name \<in> set (fw_pending_restart w) then Restarting
                else if i \<in> fw_running w \<and> i \<notin> fw_stop_events w then Running else Stopped)) (fw_loaded w)
      in fold (\<lambda>name d. if name \<in> set (dkeys d) then d else dset name Restarting d) (fw_pending_restart w) d)"

record detail =
  dt_name :: string
  dt_status :: status
  dt_started_at :: "rat option"
  dt_exchange :: "string option"
  dt_symbol_tf :: "(string \<times> string) option"
  dt_min_lookback :: "int option"
  dt_max_position_pct :: "f64 option"
  dt_paper_trading :: "bool option"

text \<open>\<open>primary\<close> is what an instance without handlers declares itself (\<open>_primary_symbol\<close>, \<open>_primary_tf\<close>).\<close>

definition get_strategy_details :: "(strategy \<Rightarrow> (string \<times> string) option) \<Rightarrow> watcher \<Rightarrow> detail list" where
  "get_strategy_details primary w =
     map (\<lambda>(name, status). let inst = map_of (fw_strategy_instances w) name in
            \<lparr>dt_name = name, dt_status = status, dt_started_at = map_of (fw_started_at w) name,
             dt_exchange = map_option st_exchange inst,
             dt_symbol_tf = (case inst of None \<Rightarrow> None
                | Some st \<Rightarrow> (case st_bar_handlers st of [] \<Rightarrow> primary st | (k, _) # _ \<Rightarrow> Some k)),
             dt_min_lookback = map_option st_min_lookback inst,
             dt_max_position_pct = map_option st_max_position_pct inst,
             dt_paper_trading = map_option st_paper_trading inst\<rparr>)
       (get_strategy_statuses w)"

definition stop_one :: "nat option \<Rightarrow> (nat \<Rightarrow> bool) \<Rightarrow> string \<Rightarrow> watcher \<Rightarrow> unit res \<times> watcher" where
  "stop_one caller exits name w =
     (let w1 = on_bus (deprovision_pubsub name) w in
      case map_of (fw_loaded w1) name of
        None \<Rightarrow> (Inl KeyError, w1)
      | Some (path, i, mtime) \<Rightarrow>
          (case stop_thread caller exits i (w1\<lparr>fw_loaded := dpop name (fw_loaded w1)\<rparr>) of
             (Inl e, w2) \<Rightarrow> (Inl e, w2)
           | (Inr _, w2) \<Rightarrow> (Inr (), on_bus (dynamic_deregister name) w2)))"

text \<open>\<open>stop_all\<close>, called from the thread \<open>caller\<close> (None: none of the strategy threads).\<close>

definition fw_stop_all :: "nat option \<Rightarrow> (nat \<Rightarrow> bool) \<Rightarrow> watcher \<Rightarrow> unit res \<times> watcher" where
  "fw_stop_all caller exits w = each (stop_one caller exits) (dkeys (fw_loaded w)) w"

section \<open>The strategy's event loop\<close>

text \<open>The handler of a funding rate belongs to the subclass; \<open>None\<close> events are the queue's timeouts.\<close>

definition loop_event ::
  "(frame \<Rightarrow> frame \<times> exn option) \<Rightarrow> rat \<Rightarrow> bus_event \<Rightarrow> strategy \<Rightarrow> strategy" where
  "loop_event add_indicators now e st =
     (case e of
        EBarClose bar \<Rightarrow> snd (on_bar add_indicators now bar st)
      | EGapMarker gap \<Rightarrow> handle_gap gap st
      | EFundingRate fr \<Rightarrow> st\<lparr>st_last_event_ts := now\<rparr>
      | _ \<Rightarrow> st)"

text \<open>
  The loop over the queue's answers; a failing subscribe ends it before it is ready. The result is whether
  it became ready, the state and the number of heartbeat acknowledgements.
\<close>

definition run_strategy_event_loop ::
  "unit res \<Rightarrow> (frame \<Rightarrow> frame \<times> exn option) \<Rightarrow> (rat \<times> bus_event option) list \<Rightarrow> strategy \<Rightarrow> bool \<times> strategy \<times> nat" where
  "run_strategy_event_loop subscribed add_indicators answers st =
     (case subscribed of
        Inl e \<Rightarrow> (False, st, 0)
      | Inr _ \<Rightarrow> (True,
          fold (\<lambda>(now, ev) st. case ev of None \<Rightarrow> st | Some e \<Rightarrow> loop_event add_indicators now e st) answers st,
          length answers))"

section \<open>Scanning\<close>

definition accepted_classes :: "(string \<times> import_result) list \<Rightarrow> (string \<times> string) list" where
  "accepted_classes files = concat (map (\<lambda>(f, r). case r of Classes [c] \<Rightarrow> [(f, c)] | _ \<Rightarrow> []) files)"

lemma first_pass_classes: "fst (first_pass files) = accepted_classes files"
  unfolding first_pass_def accepted_classes_def fst_conv
  by (intro arg_cong [of _ _ concat] map_cong refl)
     (auto simp: import_strategy_class_def split: import_result.splits list.splits)

lemma first_pass_count: "length (snd (first_pass files)) + length (accepted_classes files) = length files"
  by (induction files)
     (auto simp: first_pass_def accepted_classes_def import_strategy_class_def split: import_result.splits list.splits)

lemma scan_fold:
  "fold (\<lambda>(f, c) (d, ms). if P c then (d, ms @ [IncStrategyLoadFailure f ''duplicate_class_name'']) else (dset c f d, ms))
     cands (d, ms) =
   (fold (\<lambda>(f, c). dset c f) (filter (\<lambda>(f, c). \<not> P c) cands) d,
    ms @ map (\<lambda>(f, c). IncStrategyLoadFailure f ''duplicate_class_name'') (filter (\<lambda>(f, c). P c) cands))"
  by (induction cands arbitrary: d ms) auto

lemma fold_dset_distinct:
  "distinct (map snd xs) \<Longrightarrow> set (map snd xs) \<inter> set (dkeys d) = {} \<Longrightarrow>
     fold (\<lambda>(f, c). dset c f) xs d = d @ map (\<lambda>(f, c). (c, f)) xs"
proof (induction xs arbitrary: d)
  case (Cons x xs)
  obtain f c where x: "x = (f, c)" by force
  have "c \<notin> set (dkeys d)" using Cons.prems x by auto
  then have "dset c f d = d @ [(c, f)]" by (induction d) (auto simp: dkeys_def)
  then show ?case using Cons x by (auto simp: dkeys_def)
qed simp

lemma unique_distinct: "distinct (map snd (filter (\<lambda>(f, c). \<not> is_duplicate cands c) cands))"
proof -
  have "distinct (map snd (filter (\<lambda>(f, c). \<not> 1 < length (filter (\<lambda>(f, c'). c' = c) (ys @ xs))) xs))"
    for xs ys :: "(string \<times> string) list"
  proof (induction xs arbitrary: ys)
    case (Cons x xs)
    obtain f c where x: "x = (f, c)" by force
    have IH: "distinct (map snd (filter (\<lambda>(f, c). \<not> 1 < length (filter (\<lambda>(f, c'). c' = c) (ys @ x # xs))) xs))"
      using Cons.IH [of "ys @ [x]"] by simp
    have "c \<notin> snd ` set xs" if "\<not> 1 < length (filter (\<lambda>(f, c'). c' = c) (ys @ x # xs))"
    proof
      assume "c \<in> snd ` set xs"
      then have "filter (\<lambda>(f, c'). c' = c) xs \<noteq> []" by (auto simp: filter_empty_conv)
      then show False using that x by simp
    qed
    then show ?case using IH x by auto
  qed simp
  from this [of "[]" cands] show ?thesis by (simp add: is_duplicate_def)
qed

text \<open>
  A scan accepts a file exactly when it is the only one whose one strategy class has its name; every file of
  the directory is either accepted or counted as a load failure, once.
\<close>
theorem scan_accepts_unique_classes:
  assumes "distinct (map fst files)"
  shows "(map_of (fst (scan_directory (Some files))) c = Some f \<longleftrightarrow>
      (f, Classes [c]) \<in> set files \<and> (\<forall>f'. (f', Classes [c]) \<in> set files \<longrightarrow> f' = f)) \<and>
    length (fst (scan_directory (Some files))) + length (snd (scan_directory (Some files))) = length files"
proof -
  define cands where "cands = accepted_classes files"
  obtain ms where fp: "first_pass files = (cands, ms)"
    using first_pass_classes [of files] by (metis cands_def prod.collapse)
  have d: "fst (scan_directory (Some files)) = map (\<lambda>(f, c). (c, f)) (filter (\<lambda>(f, c). \<not> is_duplicate cands c) cands)"
    and m: "snd (scan_directory (Some files)) = ms @ map (\<lambda>(f, c). IncStrategyLoadFailure f ''duplicate_class_name'')
        (filter (\<lambda>(f, c). is_duplicate cands c) cands)"
    using unique_distinct [of cands] by (simp_all add: scan_directory_def fp scan_fold fold_dset_distinct)
  have mem: "(f, c) \<in> set cands \<longleftrightarrow> (f, Classes [c]) \<in> set files" for f c
    by (auto simp: cands_def accepted_classes_def split: import_result.splits list.splits)
  have df: "distinct (map fst cands)"
  proof -
    have "distinct (map fst (accepted_classes fs)) \<and> fst ` set (accepted_classes fs) \<subseteq> fst ` set fs"
      if "distinct (map fst fs)" for fs
      using that
    proof (induction fs)
      case (Cons x fs)
      obtain f r where x: "x = (f, r)" by force
      have "accepted_classes (x # fs) = (case r of Classes [c] \<Rightarrow> [(f, c)] | _ \<Rightarrow> []) @ accepted_classes fs"
        by (simp add: accepted_classes_def x)
      then show ?case using Cons x by (auto split: import_result.splits list.splits)
    qed (simp add: accepted_classes_def)
    then show ?thesis using assms by (simp add: cands_def)
  qed
  have dup: "\<not> is_duplicate cands c \<longleftrightarrow> (\<forall>f'. (f', c) \<in> set cands \<longrightarrow> f' = f)" if "(f, c) \<in> set cands" for f c
  proof -
    have e: "filter (\<lambda>(f', c'). c' = c) cands \<noteq> []" using that by (auto simp: filter_empty_conv)
    have "length (filter (\<lambda>(f', c'). c' = c) cands) = card (set (filter (\<lambda>(f', c'). c' = c) cands))"
      using df by (simp add: distinct_card [symmetric] distinct_map)
    moreover have "(card (set (filter (\<lambda>(f', c'). c' = c) cands)) \<le> 1) \<longleftrightarrow> (\<forall>f'. (f', c) \<in> set cands \<longrightarrow> f' = f)"
      using that by (auto simp: card_le_Suc0_iff_eq)
    ultimately show ?thesis by (auto simp: is_duplicate_def)
  qed
  have "map_of (fst (scan_directory (Some files))) c = Some f \<longleftrightarrow>
      (f, c) \<in> set (filter (\<lambda>(f, c). \<not> is_duplicate cands c) cands)"
    unfolding d using unique_distinct [of cands]
    by (subst map_of_eq_Some_iff) (force simp: comp_def case_prod_unfold)+
  then have "map_of (fst (scan_directory (Some files))) c = Some f \<longleftrightarrow>
      (f, Classes [c]) \<in> set files \<and> (\<forall>f'. (f', Classes [c]) \<in> set files \<longrightarrow> f' = f)"
    using dup [of f c] mem by auto
  moreover have "length (filter (\<lambda>(f, c). \<not> is_duplicate cands c) cands) + length (filter (\<lambda>(f, c). is_duplicate cands c) cands) = length cands"
    using sum_length_filter_compl [of "\<lambda>(f, c). is_duplicate cands c" cands] by (simp add: case_prod_unfold)
  ultimately show ?thesis
    using first_pass_count [of files] by (simp add: d m fp cands_def [symmetric])
qed


section \<open>The registry and the bus agree\<close>

text \<open>
  The bus routes to exactly the loaded strategies, to the very thread that is loaded; a thread belongs
  to one strategy only and the strategy objects are those of the loaded names.
\<close>

definition thread_of :: "watcher \<Rightarrow> string \<Rightarrow> nat option" where
  "thread_of w name = map_option (\<lambda>(path, i, mtime). i) (map_of (fw_loaded w) name)"

definition reg_inv :: "watcher \<Rightarrow> bool" where
  "reg_inv w \<longleftrightarrow>
     (\<forall>name. map_option h_instance (map_of (b_handles (fw_bus w)) name) = thread_of w name) \<and>
     (\<forall>name i. thread_of w name = Some i \<longrightarrow> i < fw_threads w) \<and>
     (\<forall>name name' i. thread_of w name = Some i \<longrightarrow> thread_of w name' = Some i \<longrightarrow> name = name') \<and>
     (\<forall>name. map_of (fw_strategy_instances w) name = None \<longleftrightarrow> thread_of w name = None)"

lemma on_bus_fields [simp]:
  "fw_loaded (on_bus f w) = fw_loaded w" "fw_threads (on_bus f w) = fw_threads w"
  "fw_strategy_instances (on_bus f w) = fw_strategy_instances w" "fw_bus (on_bus f w) = f (fw_bus w)"
  "fw_backoff (on_bus f w) = fw_backoff w" "fw_running (on_bus f w) = fw_running w"
  "fw_stop_events (on_bus f w) = fw_stop_events w" "fw_pending_restart (on_bus f w) = fw_pending_restart w"
  "fw_started_at (on_bus f w) = fw_started_at w"
  by (simp_all add: on_bus_def)

lemma fw_metric_fields [simp]:
  "fw_loaded (fw_metric c w) = fw_loaded w" "fw_threads (fw_metric c w) = fw_threads w"
  "fw_strategy_instances (fw_metric c w) = fw_strategy_instances w" "fw_bus (fw_metric c w) = fw_bus w"
  "fw_backoff (fw_metric c w) = fw_backoff w" "fw_pending_restart (fw_metric c w) = fw_pending_restart w"
  by (simp_all add: fw_metric_def)

lemma pubsub_fields [simp]:
  "b_handles (provision_pubsub n m i b) = b_handles b" "b_handles (deprovision_pubsub n b) = b_handles b"
  "b_started (provision_pubsub n m i b) = b_started b" "b_started (deprovision_pubsub n b) = b_started b"
  "b_handles (dynamic_register h b) = dset (h_name h) h (b_handles b)"
  "b_handles (dynamic_deregister n b) = dpop n (b_handles b)"
  by (simp_all add: provision_pubsub_def deprovision_pubsub_def dynamic_register_def dynamic_deregister_def Let_def)

text \<open>The two ways the books change: a name gets a fresh thread, or a name goes.\<close>

lemma reg_inv_add:
  assumes "reg_inv w" "fw_loaded w' = dset name (path, i, m) (fw_loaded w)" "fw_threads w \<le> i" "i < fw_threads w'"
    "b_handles (fw_bus w') = dset name h (b_handles (fw_bus w))" "h_instance h = i"
    "fw_strategy_instances w' = dset name st (fw_strategy_instances w)"
  shows "reg_inv w'"
proof -
  have t: "thread_of w' n = (if n = name then Some i else thread_of w n)" for n
    by (simp add: thread_of_def assms)
  have lt: "thread_of w n = Some j \<Longrightarrow> j < i" for n j
    using assms(1,3) by (fastforce simp: reg_inv_def)
  show ?thesis
    unfolding reg_inv_def
  proof (intro conjI allI impI)
    show "map_option h_instance (map_of (b_handles (fw_bus w')) n) = thread_of w' n" for n
      using assms(1,6) by (simp add: t assms(5) reg_inv_def)
    show "j < fw_threads w'" if "thread_of w' n = Some j" for n j
      using that lt [of n j] assms(4) by (auto simp: t split: if_splits)
    show "n = n'" if "thread_of w' n = Some j" "thread_of w' n' = Some j" for n n' j
      using that lt [of n j] lt [of n' j] assms(1) by (auto simp: t reg_inv_def split: if_splits)
    show "(map_of (fw_strategy_instances w') n = None) = (thread_of w' n = None)" for n
      using assms(1) by (simp add: t assms(7) reg_inv_def)
  qed
qed

lemma reg_inv_remove:
  assumes "reg_inv w" "fw_loaded w' = dpop name (fw_loaded w)" "fw_threads w' = fw_threads w"
    "b_handles (fw_bus w') = dpop name (b_handles (fw_bus w))"
    "fw_strategy_instances w' = dpop name (fw_strategy_instances w)"
  shows "reg_inv w'"
proof -
  have t: "thread_of w' n = (if n = name then None else thread_of w n)" for n
    by (simp add: thread_of_def assms)
  show ?thesis
    unfolding reg_inv_def
  proof (intro conjI allI impI)
    show "map_option h_instance (map_of (b_handles (fw_bus w')) n) = thread_of w' n" for n
      using assms(1) by (simp add: t assms(4) reg_inv_def)
    show "j < fw_threads w'" if "thread_of w' n = Some j" for n j
      using that assms(1,3) by (auto simp: t reg_inv_def split: if_splits)
    show "n = n'" if "thread_of w' n = Some j" "thread_of w' n' = Some j" for n n' j
      using that assms(1) by (auto simp: t reg_inv_def split: if_splits)
    show "(map_of (fw_strategy_instances w') n = None) = (thread_of w' n = None)" for n
      using assms(1) by (simp add: t assms(5) reg_inv_def)
  qed
qed

lemma reg_inv_same:
  assumes "reg_inv w" "fw_loaded w' = fw_loaded w" "fw_threads w \<le> fw_threads w'"
    "b_handles (fw_bus w') = b_handles (fw_bus w)" "fw_strategy_instances w' = fw_strategy_instances w"
  shows "reg_inv w'"
  using assms by (fastforce simp: reg_inv_def thread_of_def)

lemma load_new_inv:
  assumes "reg_inv w" "pre_start \<longrightarrow> \<not> b_started (fw_bus w)"
  shows "reg_inv (snd (load_new fr se name path env pre_start w))"
proof (cases "\<exists>st0 rc hs. le_strategy env = Inr st0 \<and> load_recon fr se name env st0 = (Inr (), rc) \<and> le_handlers_seen env = Inr hs")
  case True
  then obtain st0 rc hs where e: "le_strategy env = Inr st0" "load_recon fr se name env st0 = (Inr (), rc)"
    "le_handlers_seen env = Inr hs" by blast
  show ?thesis
    by (rule reg_inv_add [OF assms(1), where i = "fw_threads w" and h = "create_handle name (fw_threads w) se"])
      (use assms(2) e in \<open>auto simp: load_new_def Let_def register_def create_handle_def\<close>)
next
  case False
  show ?thesis
    by (rule reg_inv_same [OF assms(1)])
      (use False in \<open>auto simp: load_new_def Let_def split: sum.splits prod.splits\<close>)
qed


lemma stop_thread_fields [simp]:
  "fw_loaded (snd (stop_thread c ex i w)) = fw_loaded w" "fw_threads (snd (stop_thread c ex i w)) = fw_threads w"
  "fw_strategy_instances (snd (stop_thread c ex i w)) = fw_strategy_instances w"
  "fw_bus (snd (stop_thread c ex i w)) = fw_bus w" "fw_backoff (snd (stop_thread c ex i w)) = fw_backoff w"
  by (simp_all add: stop_thread_def Let_def)

lemma unload_inv: "reg_inv w \<Longrightarrow> reg_inv (unload exits name w)"
  by (cases "map_of (fw_loaded w) name")
     (auto simp: unload_def Let_def intro: reg_inv_remove)

lemma crash_begin_inv: "reg_inv w \<Longrightarrow> reg_inv (fst (crash_begin name w))"
  by (cases "map_of (fw_loaded w) name")
     (auto simp: crash_begin_def Let_def split: prod.splits intro: reg_inv_remove)

lemma crash_end_inv:
  assumes "reg_inv w"
  shows "reg_inv (crash_end fr se name path n imp env now w)"
proof -
  define w2 where "w2 = w\<lparr>fw_backoff := dset name
      (backoff_sequence ! min (n + 1) (length backoff_sequence - 1), n + 1, now) (fw_backoff w),
    fw_metrics := fw_metrics w @ snd (import_strategy_class path imp)\<rparr>"
  define w3 where "w3 = (case fst (import_strategy_class path imp) of None \<Rightarrow> w2
      | Some c \<Rightarrow> snd (load_new fr se name path env False w2))"
  have "reg_inv w2" by (rule reg_inv_same [OF assms]) (simp_all add: w2_def)
  then have "reg_inv w3" by (auto simp: w3_def split: option.splits intro: load_new_inv)
  then have "reg_inv (w3\<lparr>fw_pending_restart := removeAll name (fw_pending_restart w3)\<rparr>)"
    by (rule reg_inv_same) simp_all
  then show ?thesis
    by (simp add: crash_end_def Let_def w3_def w2_def case_prod_unfold cong: option.case_cong)
qed

text \<open>What can happen to the registry while the service runs, other than a stop from a strategy's own thread.\<close>

inductive rstep :: "watcher \<Rightarrow> watcher \<Rightarrow> bool" where
  load: "rstep w (snd (load_new fr se name path env False w))"
| load_early: "\<not> b_started (fw_bus w) \<Longrightarrow> rstep w (snd (load_new fr se name path env True w))"
| start: "rstep w (on_bus bus_start w)"
| unload: "rstep w (unload exits name w)"
| reload: "rstep w (hot_reload fr se exits name path env w)"
| crash: "rstep w (fst (crash_begin name w))"
| restart: "rstep w (crash_end fr se name path n imp env now w)"
| poll: "rstep w (snd (rescan fr se exits env' stat dir w))"
| thread_ends: "rstep w (w\<lparr>fw_running := fw_running w - {i}\<rparr>)"
| route: "rstep w (on_bus (Event_Bus.route d t k e) w)"

lemma route_instances:
  "map_option h_instance (map_of (b_handles (Event_Bus.route d t k e b)) n) = map_option h_instance (map_of (b_handles b) n)"
proof -
  have enq: "h_instance (enqueue ev h) = h_instance h" for ev h by (simp add: enqueue_def)
  have dt: "h_instance (fst (deliver_to d t ev h)) = h_instance h" for d ev h
    by (auto simp: deliver_to_def deliver_ops_def drop_oldest_eq enq)
  have one: "map_option h_instance (map_of (b_handles (deliver_named d t ev m b)) n) =
      map_option h_instance (map_of (b_handles b) n)" for d ev m b
    using dt [of d ev] by (auto simp: deliver_named_def split: option.splits prod.splits) (metis fst_conv)+
  have "map_option h_instance (map_of (b_handles (fold (deliver_named d t ev) ns b)) n) =
      map_option h_instance (map_of (b_handles b) n)" for d ev ns
    by (induction ns arbitrary: b) (simp_all add: one)
  then show ?thesis by (simp add: Event_Bus.route_def split: option.splits)
qed

lemma rescan_inv: "reg_inv w \<Longrightarrow> reg_inv (snd (rescan fr se exits env stat dir w))"
proof -
  assume i: "reg_inv w"
  obtain valid ms where v: "scan_directory dir = (valid, ms)" by force
  define w0 where "w0 = w\<lparr>fw_metrics := fw_metrics w @ ms\<rparr>"
  have w0: "reg_inv w0" by (rule reg_inv_same [OF i]) (simp_all add: w0_def)
  have w1: "reg_inv (rescan_removed exits names w0)" for names
    unfolding rescan_removed_def by (rule fold_invariant [where P = reg_inv, OF w0]) (rule unload_inv)
  have w2: "reg_inv (rescan_new fr se env items w)" if "reg_inv w" for items w
    unfolding rescan_new_def by (rule fold_invariant [where P = reg_inv, OF that]) (auto intro: load_new_inv)
  have one: "reg_inv (snd (rescan_modified fr se exits env stat item w))" if "reg_inv w" for item w
    using that by (auto simp: rescan_modified_def hot_reload_def split: prod.splits option.splits
        intro: load_new_inv unload_inv)
  show ?thesis
    unfolding rescan_def v Let_def prod.case w0_def [symmetric]
    by (rule each_invariant) (auto intro: one w1 w2)
qed

lemma rstep_inv: "rstep w w' \<Longrightarrow> reg_inv w \<Longrightarrow> reg_inv w'"
proof (induction rule: rstep.induct)
  case (start w)
  then show ?case by (rule reg_inv_same) (simp_all add: bus_start_def)
next
  case (reload w fr se exits name path env)
  then show ?case by (auto simp: hot_reload_def intro: load_new_inv unload_inv)
next
  case (thread_ends w i)
  then show ?case by (rule reg_inv_same) simp_all
next
  case (route w d t k e)
  then show ?case by (simp add: reg_inv_def route_instances thread_of_def)
qed (auto intro: load_new_inv unload_inv crash_begin_inv crash_end_inv rescan_inv)

text \<open>
  C5. Through any history of loads, reloads, crashes, restarts and polls the bus routes to exactly the loaded
  strategies and to the thread that is loaded under the name; no thread serves two names, and the
  strategy objects are those of the loaded names.
\<close>
theorem bus_and_registry_agree:
  assumes "rstep\<^sup>*\<^sup>* (watcher_init (bus_init depth)) w"
  shows "map_option h_instance (map_of (b_handles (fw_bus w)) name) = thread_of w name \<and>
    (thread_of w name = Some i \<longrightarrow> thread_of w name' = Some i \<longrightarrow> name = name') \<and>
    (map_of (fw_strategy_instances w) name = None \<longleftrightarrow> thread_of w name = None)"
proof -
  have "reg_inv (watcher_init (bus_init depth))"
    by (simp add: reg_inv_def watcher_init_def bus_init_def thread_of_def)
  with assms have "reg_inv w" by (induction rule: rtranclp_induct) (auto intro: rstep_inv)
  then show ?thesis unfolding reg_inv_def by blast
qed

section \<open>Backoff\<close>

lemma load_new_backoff [simp]: "fw_backoff (snd (load_new fr se name path env pre w)) = fw_backoff w"
  by (auto simp: load_new_def Let_def split: sum.splits prod.splits)

lemma unload_backoff [simp]: "fw_backoff (unload exits name w) = fw_backoff w"
  by (auto simp: unload_def Let_def split: option.splits prod.splits)

lemma rescan_backoff [simp]: "fw_backoff (snd (rescan fr se exits env stat dir w)) = fw_backoff w"
proof -
  have r: "fw_backoff (fold (unload exits) ns w) = fw_backoff w" for ns w
    by (rule fold_unchanged) simp
  have n: "fw_backoff (rescan_new fr se env items w) = fw_backoff w" for items w
    unfolding rescan_new_def by (rule fold_unchanged) auto
  have m: "fw_backoff (snd (rescan_modified fr se exits env stat item w)) = fw_backoff w" for item w
    by (auto simp: rescan_modified_def hot_reload_def split: prod.splits option.splits)
  show ?thesis
    by (simp add: rescan_def Let_def case_prod_unfold each_frame [of fw_backoff, OF m] n rescan_removed_def r)
qed



section \<open>Where the books go wrong\<close>

text \<open>
  A load that fails after the thread was started leaks it: when the handler table changes under the
  iteration, the strategy is reported as not loaded while its thread runs with no stop event, and the
  next poll starts a second one.
\<close>
theorem failed_load_leaks_thread:
  assumes "le_strategy env = Inr st" "fst (load_recon fr se name env st) = Inr ()"
    and "le_handlers_seen env = Inl RuntimeError" "thread_of w name = None"
    and "le_strategy env2 = Inr st2" "fst (load_recon fr se name env2 st2) = Inr ()" "le_handlers_seen env2 = Inr hs"
    and "\<forall>j\<in>fw_stop_events w. j < fw_threads w"
    and "w1 = snd (load_new fr se name path env False w)"
    and "w2 = snd (load_new fr se name path env2 False w1)"
  shows "thread_of w1 name = None \<and> fw_threads w \<in> fw_running w1 \<and>
    thread_of w2 name = Some (fw_threads w + 1) \<and>
    {fw_threads w, fw_threads w + 1} \<subseteq> fw_running w2 - fw_stop_events w2"
proof -
  obtain rc rc2 where r: "load_recon fr se name env st = (Inr (), rc)" "load_recon fr se name env2 st2 = (Inr (), rc2)"
    using assms(2,6) by (metis prod.collapse)
  have w1: "thread_of w1 name = None" "fw_running w1 = insert (fw_threads w) (fw_running w)"
    "fw_threads w1 = fw_threads w + 1" "fw_stop_events w1 = fw_stop_events w"
    using assms(1,3,4) r by (simp_all add: assms(9) load_new_def Let_def thread_of_def)
  have w2: "thread_of w2 name = Some (fw_threads w1)" "fw_running w2 = insert (fw_threads w1) (fw_running w1)"
    "fw_stop_events w2 = fw_stop_events w1"
    using assms(5,7) r by (simp_all add: assms(10) load_new_def Let_def thread_of_def)
  show ?thesis using assms(8) by (auto simp: w1 w2)
qed

lemma each_append: "each f (xs @ ys) s = (case each f xs s of (Inl e, t) \<Rightarrow> (Inl e, t) | (Inr _, t) \<Rightarrow> each f ys t)"
  by (induction xs arbitrary: s) (auto split: prod.splits sum.splits)

lemma stop_prefix:
  assumes "dinv (fw_loaded w)" "fw_loaded w = xs @ ys" "\<forall>(n, p, j, m)\<in>set xs. caller \<noteq> Some j"
  shows "\<exists>w'. each (stop_one caller exits) (dkeys xs) w = (Inr (), w') \<and> fw_loaded w' = ys \<and>
     fw_stop_events w' = fw_stop_events w \<union> (\<lambda>(n, p, j, m). j) ` set xs \<and>
     b_handles (fw_bus w') = filter (\<lambda>(n, h). n \<notin> set (dkeys xs)) (b_handles (fw_bus w))"
  using assms
proof (induction xs arbitrary: w)
  case (Cons x xs)
  obtain n p j m where x: "x = (n, p, j, m)" by (metis prod_cases4)
  have n: "n \<notin> fst ` set (xs @ ys)" and d: "dinv (xs @ ys)" using Cons.prems x by (auto simp: dinv_def)
  then have dp: "dpop n (fw_loaded w) = xs @ ys"
    using Cons.prems(2) x dpop_absent [of n "xs @ ys"] by (auto simp: dkeys_def)
  obtain w1 where s: "stop_one caller exits n w = (Inr (), w1)" and
    w1: "fw_loaded w1 = xs @ ys" "fw_stop_events w1 = insert j (fw_stop_events w)"
      "b_handles (fw_bus w1) = dpop n (b_handles (fw_bus w))"
    using Cons.prems(2,3) dp x by (auto simp: stop_one_def stop_thread_def Let_def)
  have "\<exists>w'. each (stop_one caller exits) (dkeys xs) w1 = (Inr (), w') \<and> fw_loaded w' = ys \<and>
     fw_stop_events w' = fw_stop_events w1 \<union> (\<lambda>(n, p, j, m). j) ` set xs \<and>
     b_handles (fw_bus w') = filter (\<lambda>(n, h). n \<notin> set (dkeys xs)) (b_handles (fw_bus w1))"
    using Cons.prems(3) d w1 by (intro Cons.IH) auto
  then show ?case
    by (auto simp: x s w1 dpop_def filter_filter conj_commute split_beta)
qed simp

text \<open>
  A stop from outside the strategies stops them all; the one the circuit breaker asks for runs in the
  thread of the strategy that lost, which cannot join itself: the call raises there, that strategy stays on
  the bus, and every strategy loaded after it goes on trading.
\<close>
theorem trip_stops_only_earlier_strategies:
  assumes "dinv (fw_loaded w)" "fw_loaded w = xs @ (name, path, i, mtime) # ys"
    and "\<forall>(n, p, j, m)\<in>set xs. j \<noteq> i" "map_of (b_handles (fw_bus w)) name = Some h"
  shows "fst (fw_stop_all None exits w) = Inr () \<and> fw_loaded (snd (fw_stop_all None exits w)) = [] \<and>
    fst (fw_stop_all (Some i) exits w) = Inl RuntimeError \<and>
    fw_loaded (snd (fw_stop_all (Some i) exits w)) = ys \<and>
    fw_stop_events (snd (fw_stop_all (Some i) exits w)) =
      fw_stop_events w \<union> insert i ((\<lambda>(n, p, j, m). j) ` set xs) \<and>
    map_of (b_handles (fw_bus (snd (fw_stop_all (Some i) exits w)))) name = Some h"
proof -
  obtain w0 where "each (stop_one None exits) (dkeys (fw_loaded w)) w = (Inr (), w0)" "fw_loaded w0 = []"
    using stop_prefix [of w "fw_loaded w" "[]" None exits] assms(1) by auto
  moreover obtain w1 where e: "each (stop_one (Some i) exits) (dkeys xs) w = (Inr (), w1)" and
    w1: "fw_loaded w1 = (name, path, i, mtime) # ys" "fw_stop_events w1 = fw_stop_events w \<union> (\<lambda>(n, p, j, m). j) ` set xs"
      "b_handles (fw_bus w1) = filter (\<lambda>(n, h). n \<notin> set (dkeys xs)) (b_handles (fw_bus w))"
    using stop_prefix [OF assms(1,2), of "Some i" exits] assms(3) by fastforce
  have n: "name \<notin> set (dkeys xs)" "name \<notin> set (dkeys ys)" using assms(1,2) by (auto simp: dinv_def dkeys_def)
  have f: "map_of (filter (\<lambda>(n, h). n \<notin> X) d) name = map_of d name" if "name \<notin> X" for X and d :: "(string, handle) dict"
    using that by (induction d) auto
  obtain w2 where s: "stop_one (Some i) exits name w1 = (Inl RuntimeError, w2)" and
    w2: "fw_loaded w2 = ys" "fw_stop_events w2 = insert i (fw_stop_events w1)" "b_handles (fw_bus w2) = b_handles (fw_bus w1)"
    using w1(1) n(2) by (auto simp: stop_one_def stop_thread_def Let_def dpop_absent)
  have "fw_stop_all (Some i) exits w = (Inl RuntimeError, w2)"
    using e s by (simp add: fw_stop_all_def assms(2) dkeys_def each_append)
  ultimately show ?thesis using assms(4) n(1) by (simp add: fw_stop_all_def w2 w1 f)
qed

text \<open>
  The watchdog can kill the file watcher: when a strategy crashes while a poll is waiting for another load,
  the poll's last loop looks the name up and raises; the loop has no handler, so no file change is seen again.
\<close>
theorem crash_during_poll_ends_file_watcher:
  assumes "crash_begin name w = (w1, Some r)" "(name, path) \<in> set items"
    and "distinct (map fst items)"
  shows "fst (each (rescan_modified fr se exits env stat) items w1) = Inl KeyError"
proof -
  have keep: "map_of (fw_loaded (snd (rescan_modified fr se exits env stat (n, p) w))) name = None"
    if "map_of (fw_loaded w) name = None" "n \<noteq> name" for n p w
    using that
    by (auto simp: rescan_modified_def hot_reload_def load_new_def unload_def register_def Let_def
        split: option.splits prod.splits sum.splits)
  have err: "fst (rescan_modified fr se exits env stat item w) \<in> {Inr (), Inl KeyError}" for item w
    by (auto simp: rescan_modified_def split: prod.splits option.splits)
  have "map_of (fw_loaded w1) name = None"
    using assms(1) by (auto simp: crash_begin_def Let_def split: option.splits prod.splits)
  then show ?thesis using assms(2)
  proof (induction items arbitrary: w1)
    case (Cons item items)
    obtain n p where i: "item = (n, p)" by force
    obtain r w2 where s: "rescan_modified fr se exits env stat item w1 = (r, w2)" by force
    show ?case
    proof (cases r)
      case (Inl e)
      then show ?thesis using err [of item w1] s by simp
    next
      case (Inr u)
      then have "n \<noteq> name" using Cons.prems(1) s i by (auto simp: rescan_modified_def)
      then have "map_of (fw_loaded w2) name = None" using keep [of w1 n p] Cons.prems(1) s i by simp
      then show ?thesis using Cons.IH [of w2] Cons.prems(2) s i Inr \<open>n \<noteq> name\<close> by simp
    qed
  qed simp
qed


section \<open>Examples\<close>

definition sample_env :: load_env where
  "sample_env = \<lparr>le_strategy = Inr (sample_strategy\<lparr>st_paper_trading := True\<rparr>), le_mode = ''none'',
     le_rows = Some [], le_open_orders = Inr [], le_handlers_seen = Inr [(''BTC'', ''1s'')],
     le_funding_seen = [], le_mtime = Some 1, le_now = 0\<rparr>"

definition sample_settings :: settings where
  "sample_settings = \<lparr>se_exchange = ''bybit'', se_queue_max_depth = 100, se_portfolio_value_usd = Fin 1000,
     se_max_order_notional_usd = Fin 0, se_circuit_breaker = None\<rparr>"

definition sample_watcher :: watcher where
  "sample_watcher = watcher_init (bus_init None)"

definition loaded_watcher :: watcher where
  "loaded_watcher = snd (load_new (\<lambda>x. []) sample_settings ''Ma'' ''ma.py'' sample_env False sample_watcher)"

lemma sample_load: "fst (load_recon fr sample_settings name sample_env (sample_strategy\<lparr>st_paper_trading := True\<rparr>)) = Inr ()"
  by (simp add: load_recon_def run_startup_reconciliation_def sample_env_def Let_def)

lemma loaded_watcher_fields:
  "fw_loaded loaded_watcher = [(''Ma'', ''ma.py'', 0, 1)]" "fw_backoff loaded_watcher = []"
  "b_handles (fw_bus loaded_watcher) = [(''Ma'', create_handle ''Ma'' 0 sample_settings)]"
proof -
  obtain rc where "load_recon (\<lambda>x. []) sample_settings ''Ma'' sample_env (sample_strategy\<lparr>st_paper_trading := True\<rparr>) = (Inr (), rc)"
    using sample_load by (metis prod.collapse)
  then show "fw_loaded loaded_watcher = [(''Ma'', ''ma.py'', 0, 1)]" "fw_backoff loaded_watcher = []"
    "b_handles (fw_bus loaded_watcher) = [(''Ma'', create_handle ''Ma'' 0 sample_settings)]"
    by (simp_all add: loaded_watcher_def load_new_def sample_env_def Let_def sample_watcher_def watcher_init_def
        bus_init_def create_handle_def)
qed

theorem scan_accepts_unique_classes_witness:
  "map_of (fst (scan_directory (Some [(''a.py'', Classes [''A'']), (''b.py'', ImportFails ''SyntaxError'')]))) ''A'' = Some ''a.py''"
  using scan_accepts_unique_classes [of "[(''a.py'', Classes [''A'']), (''b.py'', ImportFails ''SyntaxError'')]" "''A''" "''a.py''"]
  by simp

theorem bus_and_registry_agree_witness:
  "map_option h_instance (map_of (b_handles (fw_bus loaded_watcher)) ''Ma'') = thread_of loaded_watcher ''Ma''"
proof -
  have "rstep\<^sup>*\<^sup>* (watcher_init (bus_init None)) loaded_watcher"
    unfolding loaded_watcher_def sample_watcher_def by (intro r_into_rtranclp rstep.load)
  then show ?thesis using bus_and_registry_agree by blast
qed


theorem failed_load_leaks_thread_witness:
  "\<exists>w2. {0, 1} \<subseteq> fw_running w2 - fw_stop_events w2 \<and> thread_of w2 ''Ma'' = Some 1"
proof -
  have h: "le_strategy sample_env = Inr (sample_strategy\<lparr>st_paper_trading := True\<rparr>)"
    "le_strategy (sample_env\<lparr>le_handlers_seen := Inl RuntimeError\<rparr>) = Inr (sample_strategy\<lparr>st_paper_trading := True\<rparr>)"
    "le_handlers_seen sample_env = Inr [(''BTC'', ''1s'')]"
    by (simp_all add: sample_env_def)
  have l: "fst (load_recon fr sample_settings name (sample_env\<lparr>le_handlers_seen := Inl RuntimeError\<rparr>)
      (sample_strategy\<lparr>st_paper_trading := True\<rparr>)) = Inr ()" for fr name
    using sample_load [of fr name] by (simp add: load_recon_def)
  show ?thesis
    using failed_load_leaks_thread [where fr = "\<lambda>x. []" and name = "''Ma''" and w = sample_watcher and path = "''ma.py''",
        OF h(2) l _ _ h(1) sample_load h(3) _ refl refl]
    by (auto simp: sample_watcher_def watcher_init_def thread_of_def)
qed

theorem trip_stops_only_earlier_strategies_witness:
  "fst (fw_stop_all (Some 0) (\<lambda>i. True) loaded_watcher) = Inl RuntimeError"
  using trip_stops_only_earlier_strategies [of loaded_watcher "[]" "''Ma''" "''ma.py''" 0 1 "[]"
      "create_handle ''Ma'' 0 sample_settings" "\<lambda>i. True"]
  by (simp add: loaded_watcher_fields dinv_def)

theorem crash_during_poll_ends_file_watcher_witness:
  "fst (each (rescan_modified (\<lambda>x. []) sample_settings (\<lambda>i. True) (\<lambda>n. sample_env) (\<lambda>p. Some 2) )
     [(''Ma'', ''ma.py'')] (fst (crash_begin ''Ma'' loaded_watcher))) = Inl KeyError"
proof -
  obtain w1 r where "crash_begin ''Ma'' loaded_watcher = (w1, Some r)"
    by (auto simp: crash_begin_def loaded_watcher_fields Let_def split: prod.splits)
  then show ?thesis by (simp del: each.simps add: crash_during_poll_ends_file_watcher)
qed

end
