(* ===== verification/Signals.thy ===== *)
theory Signals
  imports Exchange
begin

text \<open>
  The trading signals (\<open>strategy/signals/\<close>): pure functions from a data frame, or a funding rate, to an
  action with a confidence and a reason. A column is the list of its values, NaN for a missing one. The
  rolling statistics of pandas (exponential mean, mean, standard deviation) are arguments.
\<close>

section \<open>Results\<close>

datatype action = Buy | Sell | HoldAct

record signal =
  sg_action :: action
  sg_confidence :: f64
  sg_reason :: string

text \<open>The constructor checks its confidence.\<close>

definition signal_result :: "action \<Rightarrow> f64 \<Rightarrow> string \<Rightarrow> signal res" where
  "signal_result act conf reason =
     (if Fin 0 \<le> conf \<and> conf \<le> Fin 1
      then Inr \<lparr>sg_action = act, sg_confidence = conf, sg_reason = reason\<rparr>
      else Inl ValueError)"

definition hold_insufficient :: signal where
  "hold_insufficient = \<lparr>sg_action = HoldAct, sg_confidence = Fin 0, sg_reason = ''insufficient_data''\<rparr>"

record sframe =
  sf_len :: nat
  sf_cols :: "(string, f64 list) dict"

definition col_ok :: "string \<Rightarrow> sframe \<Rightarrow> bool" where
  "col_ok c df \<longleftrightarrow> (case map_of (sf_cols df) c of None \<Rightarrow> True | Some xs \<Rightarrow> length xs = sf_len df)"

text \<open>\<open>xs.iloc[-k]\<close>.\<close>

definition iloc_end :: "f64 list \<Rightarrow> nat \<Rightarrow> f64 res" where
  "iloc_end xs k = (if 0 < k \<and> k \<le> length xs then Inr (xs ! (length xs - k)) else Inl IndexError)"

text \<open>Division of numpy scalars, which does not raise.\<close>

definition np_div :: "f64 \<Rightarrow> f64 \<Rightarrow> f64" where
  "np_div x y = (if y = Fin 0 then (if is_nan x \<or> x = Fin 0 then NaN else if x < Fin 0 then NInf else PInf)
     else fdiv x y)"

section \<open>Funding rate\<close>

definition funding_rate_arb_signal :: "f64 \<Rightarrow> f64 \<Rightarrow> signal res" where
  "funding_rate_arb_signal funding_rate threshold_bps =
     (if threshold_bps \<le> Fin 0 then signal_result HoldAct (Fin 0) ''invalid_threshold''
      else let threshold = fdiv threshold_bps (Fin 10000) in
        if funding_rate > threshold then
          rbind (py_div funding_rate threshold) (\<lambda>q. signal_result Sell (py_min q (Fin 1)) ''high_positive_funding'')
        else if funding_rate < - threshold then
          rbind (py_div \<bar>funding_rate\<bar> threshold) (\<lambda>q. signal_result Buy (py_min q (Fin 1)) ''high_negative_funding'')
        else signal_result HoldAct (Fin 0) ''rate_below_threshold'')"

section \<open>Moving average crossover\<close>

definition ma_confidence :: "f64 \<Rightarrow> f64 \<Rightarrow> f64" where
  "ma_confidence curr_fast curr_slow =
     (if \<not> feq curr_slow (Fin 0)
      then py_min (np_div \<bar>curr_fast - curr_slow\<bar> (curr_slow * fl (1 / 100) + fl (1 / 10 ^ 9))) (Fin 1)
      else Fin 0)"

definition ma_decide :: "f64 \<Rightarrow> f64 \<Rightarrow> f64 \<Rightarrow> f64 \<Rightarrow> signal res" where
  "ma_decide prev_fast prev_slow curr_fast curr_slow =
     (let confidence = ma_confidence curr_fast curr_slow in
      if prev_fast \<le> prev_slow \<and> curr_fast > curr_slow then signal_result Buy confidence ''ma_cross_up''
      else if prev_slow \<le> prev_fast \<and> curr_fast < curr_slow then signal_result Sell confidence ''ma_cross_down''
      else signal_result HoldAct confidence ''no_cross'')"

definition ma_cross_signal :: "(int \<Rightarrow> f64 list \<Rightarrow> f64 list) \<Rightarrow> sframe \<Rightarrow> int \<Rightarrow> int \<Rightarrow> signal res" where
  "ma_cross_signal ewm df fast slow =
     (if fast < 1 \<or> slow < 1 then Inr hold_insufficient
      else case map_of (sf_cols df) ''close'' of
        None \<Rightarrow> Inr hold_insufficient
      | Some close \<Rightarrow>
          if int (sf_len df) < slow + 1 then Inr hold_insufficient
          else if list_all is_nan close then Inr hold_insufficient
          else let fast_ema = ewm fast close; slow_ema = ewm slow close in
            rbind (iloc_end fast_ema 1) (\<lambda>curr_fast. rbind (iloc_end slow_ema 1) (\<lambda>curr_slow.
              if is_nan curr_fast \<or> is_nan curr_slow then Inr hold_insufficient
              else rbind (iloc_end fast_ema 2) (\<lambda>prev_fast. rbind (iloc_end slow_ema 2) (\<lambda>prev_slow.
                ma_decide prev_fast prev_slow curr_fast curr_slow)))))"

section \<open>RSI crossover\<close>

definition rsi_decide :: "f64 \<Rightarrow> f64 \<Rightarrow> f64 \<Rightarrow> f64 \<Rightarrow> signal res" where
  "rsi_decide oversold overbought prev cur =
     (if prev < oversold \<and> oversold \<le> cur then
        signal_result Buy (py_min (np_div (cur - prev) (oversold + fl (1 / 10 ^ 9))) (Fin 1)) ''rsi_oversold_recovery''
      else if prev > overbought \<and> overbought \<ge> cur then
        signal_result Sell (py_min (np_div (prev - cur) (Fin 100 - overbought + fl (1 / 10 ^ 9))) (Fin 1))
          ''rsi_overbought_reversal''
      else signal_result HoldAct (Fin 0) ''rsi_no_cross'')"

definition rsi_signal :: "sframe \<Rightarrow> int \<Rightarrow> f64 \<Rightarrow> f64 \<Rightarrow> signal res" where
  "rsi_signal df period oversold overbought =
     (case map_of (sf_cols df) (''RSI_'' @ int_str period) of
        None \<Rightarrow> Inr hold_insufficient
      | Some rsi \<Rightarrow>
          if int (sf_len df) < period + 1 then Inr hold_insufficient
          else if list_all is_nan rsi then Inr hold_insufficient
          else rbind (iloc_end rsi 2) (\<lambda>prev. rbind (iloc_end rsi 1) (\<lambda>cur.
            if is_nan prev \<or> is_nan cur then Inr hold_insufficient
            else rsi_decide oversold overbought prev cur)))"

section \<open>Order flow imbalance\<close>

text \<open>\<open>fmt\<close> is the two-decimal text of the score.\<close>

definition ofi_decide :: "(f64 \<Rightarrow> string) \<Rightarrow> f64 \<Rightarrow> f64 \<Rightarrow> signal res" where
  "ofi_decide fmt threshold z =
     rbind (py_div \<bar>z\<bar> (threshold * Fin 2)) (\<lambda>q.
       let confidence = py_min q (Fin 1); reason = ''ofi_z='' @ fmt z in
       if z > threshold then signal_result Buy confidence reason
       else if z < - threshold then signal_result Sell confidence reason
       else signal_result HoldAct confidence reason)"

definition is_inf :: "f64 \<Rightarrow> bool" where
  "is_inf x \<longleftrightarrow> x = PInf \<or> x = NInf"

definition ofi_signal ::
  "(f64 list \<Rightarrow> f64) \<Rightarrow> (f64 list \<Rightarrow> f64) \<Rightarrow> (f64 \<Rightarrow> string) \<Rightarrow> sframe \<Rightarrow> int \<Rightarrow> f64 \<Rightarrow> signal res" where
  "ofi_signal mean_of std_of fmt df lookback threshold =
     (if lookback < 2 then Inr hold_insufficient
      else case map_of (sf_cols df) ''ofi'' of
        None \<Rightarrow> Inr hold_insufficient
      | Some col \<Rightarrow>
          rbind (iloc_end col 1) (\<lambda>latest.
            if is_nan latest then Inr hold_insufficient
            else let ofi = filter (\<lambda>x. \<not> is_nan x) col in
              if int (length ofi) < lookback then Inr hold_insufficient
              else let recent = filter (\<lambda>x. \<not> is_inf x) (drop (length ofi - nat lookback) ofi) in
                if int (length recent) < lookback then Inr hold_insufficient
                else let mean = mean_of recent; std = std_of recent in
                  if \<not> (std > Fin 0) then signal_result HoldAct (Fin 0) ''zero_variance''
                  else ofi_decide fmt threshold (np_div (last ofi - mean) std)))"

section \<open>Lemmas\<close>


section \<open>Funding\<close>

lemma ratio_capped: "0 < b \<Longrightarrow> b < a \<Longrightarrow> py_min (fl (a / b)) (Fin 1) = Fin 1"
proof -
  assume "0 < b" "b < a"
  then have "fl 1 \<le> fl (a / b)" by (intro fl_mono) simp
  then have "Fin 1 \<le> fl (a / b)" by simp
  then show ?thesis by (cases "fl (a / b)") (auto simp: py_min_def)
qed

lemma ratio_capped_minus: "0 < b \<Longrightarrow> a < - b \<Longrightarrow> py_min (fl (- (a / b))) (Fin 1) = Fin 1"
  using ratio_capped [of b "- a"] by simp

lemma py_min_inf: "py_min PInf (Fin 1) = Fin 1"
  by (simp add: py_min_def)

text \<open>
  For every usable threshold the funding signal returns: it sells above the threshold, buys below its
  negation and holds otherwise, and whenever it acts its confidence is exactly 1, so the grading of the
  confidence never shows.
\<close>
theorem funding_signal_is_all_or_nothing:
  assumes "\<not> bps \<le> Fin 0" "Fin 0 < fdiv bps (Fin 10000)"
  shows "\<exists>s. funding_rate_arb_signal rate bps = Inr s \<and>
    (sg_action s = Sell \<longleftrightarrow> rate > fdiv bps (Fin 10000)) \<and>
    (sg_action s = Buy \<longleftrightarrow> rate < - fdiv bps (Fin 10000)) \<and>
    (sg_action s \<noteq> HoldAct \<longrightarrow> sg_confidence s = Fin 1)"
proof -
  define t where "t = fdiv bps (Fin 10000)"
  have t: "Fin 0 < t" using assms(2) by (simp add: t_def)
  have nz: "t \<noteq> Fin 0" using t by auto
  have up: "py_min (fdiv rate t) (Fin 1) = Fin 1" if "t < rate"
    using that t by (cases t; cases rate) (auto simp: ratio_capped ratio_capped_minus inf_sgn_def py_min_inf)
  have dn: "py_min (fdiv \<bar>rate\<bar> t) (Fin 1) = Fin 1" if "rate < - t"
    using that t by (cases t; cases rate) (auto simp: ratio_capped ratio_capped_minus inf_sgn_def py_min_inf)
  have both: "\<not> (t < rate \<and> rate < - t)" using t by (cases t; cases rate) auto
  show ?thesis
    using assms(1) up dn both
    by (auto simp: funding_rate_arb_signal_def Let_def t_def [symmetric] py_div_def nz signal_result_def)
qed

theorem funding_signal_is_all_or_nothing_witness:
  "\<exists>s. funding_rate_arb_signal (Fin (1/2)) (Fin 10000) = Inr s \<and> sg_action s \<noteq> Buy"
  using funding_signal_is_all_or_nothing [of "Fin 10000" "Fin (1/2)"] by fastforce

section \<open>Crossover\<close>






lemma int_str_zero: "int_str 0 = ''0''"
proof -
  have "digit_char 0 = CHR ''0''" by code_simp
  then show ?thesis by (simp add: int_str_def nat_str.simps)
qed

text \<open>
  The signal functions that promise never to raise do: a crossover on a negative series, an RSI of
  period 0 on one row, an order flow signal on an empty column, and one with threshold 0.
\<close>
theorem signals_can_raise:
  "ma_cross_signal (\<lambda>n xs. if n = 1 then xs else [Fin (-2), Fin (-2), Fin (-2)])
     \<lparr>sf_len = 3, sf_cols = [(''close'', [Fin (-2), Fin (-2), Fin (-1)])]\<rparr> 1 2 = Inl ValueError \<and>
   rsi_signal \<lparr>sf_len = 1, sf_cols = [(''RSI_0'', [Fin 50])]\<rparr> 0 (Fin 30) (Fin 70) = Inl IndexError \<and>
   ofi_signal (\<lambda>xs. Fin 0) (\<lambda>xs. Fin 1) (\<lambda>z. []) \<lparr>sf_len = 0, sf_cols = [(''ofi'', [])]\<rparr> 2 (Fin 1) = Inl IndexError \<and>
   ofi_signal (\<lambda>xs. Fin 0) (\<lambda>xs. Fin 1) (\<lambda>z. []) \<lparr>sf_len = 2, sf_cols = [(''ofi'', [Fin 1, Fin 2])]\<rparr> 2 (Fin 0) =
     Inl ZeroDivisionError"
  apply (intro conjI)
  subgoal by code_simp
  subgoal by (simp add: rsi_signal_def int_str_zero iloc_end_def is_nan_def)
  subgoal by (simp add: ofi_signal_def iloc_end_def)
  subgoal by (simp add: ofi_signal_def iloc_end_def is_nan_def is_inf_def ofi_decide_def py_div_def Let_def)
  done

end
