(* ===== verification/Bots.thy ===== *)
theory Bots
  imports Signals Base_Strategy
begin

text \<open>
  The strategies of the repository (\<open>strategies/active/\<close>, \<open>strategies/inactive/\<close>): the flip bots
  (EMA and MA crossover, order flow), the RSI and funding bots, the one-second test bots and the
  backtest test strategy. A bot posts orders; what it posted is part of its state. A signal that
  raises ends the handler with the exception.
\<close>

section \<open>Configurations\<close>

record bot_config =
  cf_min_lookback :: int
  cf_max_position_pct :: f64
  cf_stop_loss_pct :: f64
  cf_paper_trading :: bool
  cf_bus_timeout_seconds :: int
  cf_close_on_bus_timeout :: bool
  cf_orderbook_mode :: string
  cf_symbol :: string
  cf_tf :: string

definition ma_cross_config :: bot_config where
  "ma_cross_config = \<lparr>cf_min_lookback = 50, cf_max_position_pct = fl (5 / 100), cf_stop_loss_pct = fl (3 / 100),
     cf_paper_trading = True, cf_bus_timeout_seconds = 300, cf_close_on_bus_timeout = False,
     cf_orderbook_mode = ''none'', cf_symbol = ''BTCUSDT'', cf_tf = ''1m''\<rparr>"

definition ema_cross_config :: bot_config where
  "ema_cross_config = \<lparr>cf_min_lookback = 22, cf_max_position_pct = fl (5 / 100), cf_stop_loss_pct = fl (2 / 100),
     cf_paper_trading = True, cf_bus_timeout_seconds = 300, cf_close_on_bus_timeout = False,
     cf_orderbook_mode = ''none'', cf_symbol = ''BTC-USDT'', cf_tf = ''1m''\<rparr>"

definition ofi_config :: bot_config where
  "ofi_config = \<lparr>cf_min_lookback = 200, cf_max_position_pct = fl (5 / 100), cf_stop_loss_pct = fl (2 / 100),
     cf_paper_trading = True, cf_bus_timeout_seconds = 30, cf_close_on_bus_timeout = True,
     cf_orderbook_mode = ''none'', cf_symbol = ''BTCUSDT'', cf_tf = ''1s''\<rparr>"

definition rsi_config :: bot_config where
  "rsi_config = \<lparr>cf_min_lookback = 20, cf_max_position_pct = fl (5 / 100), cf_stop_loss_pct = fl (2 / 100),
     cf_paper_trading = True, cf_bus_timeout_seconds = 300, cf_close_on_bus_timeout = False,
     cf_orderbook_mode = ''none'', cf_symbol = ''BTCUSDT'', cf_tf = ''1m''\<rparr>"

definition funding_config :: bot_config where
  "funding_config = \<lparr>cf_min_lookback = 1, cf_max_position_pct = fl (2 / 100), cf_stop_loss_pct = fl (5 / 100),
     cf_paper_trading = True, cf_bus_timeout_seconds = 300, cf_close_on_bus_timeout = True,
     cf_orderbook_mode = ''none'', cf_symbol = ''BTCUSDT'', cf_tf = []\<rparr>"

definition test_config :: bot_config where
  "test_config = \<lparr>cf_min_lookback = 1, cf_max_position_pct = fl (1 / 100), cf_stop_loss_pct = fl (5 / 100),
     cf_paper_trading = True, cf_bus_timeout_seconds = 120, cf_close_on_bus_timeout = False,
     cf_orderbook_mode = ''snapshot_1s'', cf_symbol = ''BTC-USDT'', cf_tf = ''1s''\<rparr>"

definition bot_order :: "bot_config \<Rightarrow> string \<Rightarrow> string \<Rightarrow> string \<Rightarrow> string \<Rightarrow> string \<Rightarrow> f64 option \<Rightarrow> order_request" where
  "bot_order cf name ex side order_type role limit =
     \<lparr>or_strategy = name, or_exchange = ex, or_symbol = cf_symbol cf, or_side = side,
      or_order_type = order_type, or_order_role = role, or_size = cf_max_position_pct cf,
      or_limit_price = limit, or_stop_price = None, or_take_profit_price = None,
      or_client_order_id = [], or_paper_trading = cf_paper_trading cf\<rparr>"

text \<open>What a \<open>subscribe\<close> of the bar bots does: load the history, then register the handler.\<close>

definition bar_bot_subscribe ::
  "bot_config \<Rightarrow> (string \<Rightarrow> hist_row list res) \<Rightarrow> bool \<Rightarrow> strategy \<Rightarrow> strategy" where
  "bar_bot_subscribe cf run_query loop_open st =
     register_bar_handler (cf_symbol cf) (cf_tf cf)
       (snd (snd (get_history run_query loop_open (cf_symbol cf) (cf_tf cf) (cf_min_lookback cf) st)))"

definition funding_bot_subscribe :: "strategy \<Rightarrow> strategy" where
  "funding_bot_subscribe st = register_funding_rate_handler ''bybit'' (cf_symbol funding_config) st"

section \<open>Flip bots\<close>

datatype side = Long | Short

record flip_bot =
  fb_cfg :: bot_config
  fb_name :: string
  fb_exchange :: string
  fb_has_worker :: bool
  fb_current_side :: "side option"
  fb_posts :: "order_request list"

definition flip_post :: "string \<Rightarrow> string \<Rightarrow> flip_bot \<Rightarrow> flip_bot" where
  "flip_post sd role b =
     b\<lparr>fb_posts := fb_posts b @ [bot_order (fb_cfg b) (fb_name b) (fb_exchange b) sd ''market'' role None]\<rparr>"

definition target_side :: "action \<Rightarrow> side" where
  "target_side act = (if act = Buy then Long else Short)"

definition flip_act :: "action \<Rightarrow> flip_bot \<Rightarrow> flip_bot" where
  "flip_act act b =
     (if act = HoldAct then b
      else if fb_current_side b = Some (target_side act) then b
      else if fb_exchange b = [] then b
      else if \<not> fb_has_worker b then b
      else let b1 = (case fb_current_side b of
                 Some Long \<Rightarrow> (flip_post ''sell'' ''exit'' b)\<lparr>fb_current_side := None\<rparr>
               | Some Short \<Rightarrow> (flip_post ''buy'' ''exit'' b)\<lparr>fb_current_side := None\<rparr>
               | None \<Rightarrow> b)
           in (flip_post (if act = Buy then ''buy'' else ''sell'') ''entry'' b1)
                \<lparr>fb_current_side := Some (target_side act)\<rparr>)"

definition flip_on_bar :: "bool \<Rightarrow> signal res \<Rightarrow> flip_bot \<Rightarrow> unit res \<times> flip_bot" where
  "flip_on_bar signal_invalid sig b =
     (if signal_invalid then (Inr (), b)
      else case sig of Inl e \<Rightarrow> (Inl e, b) | Inr s \<Rightarrow> (Inr (), flip_act (sg_action s) b))"

definition ma_cross_on_bar ::
  "(int \<Rightarrow> f64 list \<Rightarrow> f64 list) \<Rightarrow> bool \<Rightarrow> sframe \<Rightarrow> flip_bot \<Rightarrow> unit res \<times> flip_bot" where
  "ma_cross_on_bar ewm invalidated df b = flip_on_bar invalidated (ma_cross_signal ewm df 20 50) b"

definition ema_cross_on_bar ::
  "(int \<Rightarrow> f64 list \<Rightarrow> f64 list) \<Rightarrow> bool \<Rightarrow> sframe \<Rightarrow> flip_bot \<Rightarrow> unit res \<times> flip_bot" where
  "ema_cross_on_bar ewm invalidated df b = flip_on_bar invalidated (ma_cross_signal ewm df 9 21) b"

definition ofi_on_bar ::
  "(f64 list \<Rightarrow> f64) \<Rightarrow> (f64 list \<Rightarrow> f64) \<Rightarrow> (f64 \<Rightarrow> string) \<Rightarrow> bool \<Rightarrow> sframe \<Rightarrow> flip_bot \<Rightarrow> unit res \<times> flip_bot" where
  "ofi_on_bar mean_of std_of fmt invalidated df b =
     flip_on_bar invalidated (ofi_signal mean_of std_of fmt df (cf_min_lookback (fb_cfg b)) (fl (6 / 10))) b"

definition flip_handle_gap :: "gap_marker \<Rightarrow> flip_bot \<times> strategy \<Rightarrow> flip_bot \<times> strategy" where
  "flip_handle_gap gap s = (case s of (b, st) \<Rightarrow> (b\<lparr>fb_current_side := None\<rparr>, handle_gap gap st))"

section \<open>RSI and funding bots\<close>

definition rsi_on_bar :: "bool \<Rightarrow> sframe \<Rightarrow> flip_bot \<Rightarrow> unit res \<times> flip_bot" where
  "rsi_on_bar signal_invalid df b =
     (if signal_invalid then (Inr (), b)
      else case rsi_signal df 14 (Fin 30) (Fin 70) of
        Inl e \<Rightarrow> (Inl e, b)
      | Inr s \<Rightarrow> (Inr (),
          if sg_action s = HoldAct then b
          else if fb_exchange b = [] then b
          else if \<not> fb_has_worker b then b
          else flip_post (if sg_action s = Buy then ''buy'' else ''sell'') ''entry'' b))"

definition funding_handle :: "funding_rate \<Rightarrow> flip_bot \<Rightarrow> unit res \<times> flip_bot" where
  "funding_handle ev b =
     (case funding_rate_arb_signal (fr_funding_rate ev) (Fin 10) of
        Inl e \<Rightarrow> (Inl e, b)
      | Inr s \<Rightarrow> (Inr (),
          if sg_action s = HoldAct then b
          else if \<not> fb_has_worker b then b
          else b\<lparr>fb_posts := fb_posts b @
                 [(bot_order (fb_cfg b) (fb_name b) (if fb_exchange b = [] then ''bybit'' else fb_exchange b)
                     (if sg_action s = Buy then ''buy'' else ''sell'') ''market'' ''entry'' None)
                    \<lparr>or_symbol := fr_symbol ev\<rparr>]\<rparr>))"

section \<open>One-second test bots\<close>

record hold_bot =
  hb_name :: string
  hb_exchange :: string
  hb_bars_held :: nat
  hb_entry_side :: "string option"
  hb_close_buf :: "f64 list"
  hb_posts :: "order_request list"

definition hold_bars :: nat where
  "hold_bars = 5"

definition hold_post :: "string \<Rightarrow> string \<Rightarrow> string \<Rightarrow> f64 option \<Rightarrow> hold_bot \<Rightarrow> hold_bot" where
  "hold_post sd order_type role limit b =
     b\<lparr>hb_posts := hb_posts b @ [bot_order test_config (hb_name b) (hb_exchange b) sd order_type role limit]\<rparr>"

text \<open>The payload of a candle is a JSON object.\<close>

definition payload_symbol_ok :: "json \<Rightarrow> bool" where
  "payload_symbol_ok p = (jget p ''symbol'' JNull = Inr (JStr (cf_symbol test_config)))"

text \<open>\<open>float(payload.get("close") or 0.0)\<close>.\<close>

definition payload_close :: "json \<Rightarrow> f64 res" where
  "payload_close p = rbind (jget p ''close'' JNull) (\<lambda>c. if jtruthy c then jfloat c else Inr (Fin 0))"

definition market_on_candle :: "json \<Rightarrow> hold_bot \<Rightarrow> unit res \<times> hold_bot" where
  "market_on_candle p b =
     (Inr (),
      if \<not> payload_symbol_ok p then b
      else case hb_entry_side b of
        None \<Rightarrow> (hold_post ''buy'' ''market'' ''entry'' None b)\<lparr>hb_entry_side := Some ''buy'', hb_bars_held := 0\<rparr>
      | Some sd \<Rightarrow>
          let b1 = b\<lparr>hb_bars_held := hb_bars_held b + 1\<rparr> in
          if hb_bars_held b1 \<ge> hold_bars
          then (hold_post ''sell'' ''market'' ''exit'' None b1)\<lparr>hb_entry_side := None\<rparr> else b1)"

definition offset_pct :: f64 where
  "offset_pct = fl (5 / 10000)"

definition limit_on_candle :: "json \<Rightarrow> hold_bot \<Rightarrow> unit res \<times> hold_bot" where
  "limit_on_candle p b =
     (if \<not> payload_symbol_ok p then (Inr (), b)
      else case payload_close p of
        Inl e \<Rightarrow> (Inl e, b)
      | Inr close \<Rightarrow> (Inr (),
          if feq close (Fin 0) then b
          else case hb_entry_side b of
            None \<Rightarrow> (hold_post ''buy'' ''limit'' ''entry'' (Some (py_round (close * (Fin 1 - offset_pct)) 2)) b)
                     \<lparr>hb_entry_side := Some ''buy'', hb_bars_held := 0\<rparr>
          | Some sd \<Rightarrow>
              let b1 = b\<lparr>hb_bars_held := hb_bars_held b + 1\<rparr> in
              if hb_bars_held b1 \<ge> hold_bars
              then (hold_post ''sell'' ''limit'' ''exit'' (Some (py_round (close * (Fin 1 + offset_pct)) 2)) b1)
                     \<lparr>hb_entry_side := None\<rparr>
              else b1))"

definition max_history :: nat where
  "max_history = 60"

text \<open>\<open>ema\<close> is the last value of the pandas-ta average of the buffer, None when it has none.\<close>

definition pandas_on_candle :: "(f64 list \<Rightarrow> f64 option) \<Rightarrow> json \<Rightarrow> hold_bot \<Rightarrow> unit res \<times> hold_bot" where
  "pandas_on_candle ema p b =
     (if \<not> payload_symbol_ok p then (Inr (), b)
      else case payload_close p of
        Inl e \<Rightarrow> (Inl e, b)
      | Inr close \<Rightarrow> (Inr (),
          if feq close (Fin 0) then b
          else let buf = hb_close_buf b @ [close];
                   b1 = b\<lparr>hb_close_buf := drop (length buf - max_history) buf\<rparr>
          in if length (hb_close_buf b1) < 4 then b1
             else case ema (hb_close_buf b1) of
               None \<Rightarrow> b1
             | Some avg \<Rightarrow>
                 if is_nan avg then b1
                 else case hb_entry_side b1 of
                   None \<Rightarrow> let sd = (if close > avg then ''buy'' else ''sell'') in
                     (hold_post sd ''market'' ''entry'' None b1)\<lparr>hb_entry_side := Some sd, hb_bars_held := 0\<rparr>
                 | Some sd \<Rightarrow>
                     let b2 = b1\<lparr>hb_bars_held := hb_bars_held b1 + 1\<rparr> in
                     if hb_bars_held b2 \<ge> hold_bars
                     then (hold_post (if sd = ''buy'' then ''sell'' else ''buy'') ''market'' ''exit'' None b2)
                            \<lparr>hb_entry_side := None\<rparr>
                     else b2))"

section \<open>The backtest test strategy\<close>

datatype bt_action = BtBuy f64 | BtClose

record momentum =
  mm_order_pending :: bool
  mm_bars_held :: nat

text \<open>One \<open>next\<close>, given the bar, whether a position is held and the cash; the order it sends.\<close>

definition momentum_next ::
  "f64 \<Rightarrow> f64 \<Rightarrow> bool \<Rightarrow> f64 \<Rightarrow> momentum \<Rightarrow> bt_action option res \<times> momentum" where
  "momentum_next op close in_position cash m =
     (if mm_order_pending m then (Inr None, m)
      else if \<not> in_position then
        (if close > op then
           (case py_div (cash * fl (5 / 100)) close of
              Inl e \<Rightarrow> (Inl e, m)
            | Inr sz \<Rightarrow>
                if sz > Fin 0 then (Inr (Some (BtBuy sz)), m\<lparr>mm_order_pending := True, mm_bars_held := 0\<rparr>)
                else (Inr None, m))
         else (Inr None, m))
      else let m1 = m\<lparr>mm_bars_held := mm_bars_held m + 1\<rparr> in
        if mm_bars_held m1 \<ge> 3 then (Inr (Some BtClose), m1\<lparr>mm_order_pending := True\<rparr>) else (Inr None, m1))"

text \<open>\<open>notify_order\<close>: True for the final statuses.\<close>

definition momentum_notify :: "bool \<Rightarrow> momentum \<Rightarrow> momentum" where
  "momentum_notify final m = (if final then m\<lparr>mm_order_pending := False\<rparr> else m)"

section \<open>Exposure\<close>

text \<open>The net number of units bought by a list of orders: the abstract position of a bot.\<close>

definition exposure :: "order_request list \<Rightarrow> int" where
  "exposure reqs = sum_list (map (\<lambda>r. if or_side r = ''buy'' then 1 else -1) reqs)"

definition side_exposure :: "side option \<Rightarrow> int" where
  "side_exposure s = (case s of None \<Rightarrow> 0 | Some Long \<Rightarrow> 1 | Some Short \<Rightarrow> -1)"

lemma exposure_append [simp]: "exposure (xs @ ys) = exposure xs + exposure ys"
  by (simp add: exposure_def)

lemma bot_order_role [simp]: "or_order_role (bot_order cf n ex sd t role l) = role"
  by (simp add: bot_order_def)

lemma exposure_order [simp]:
  "exposure [] = 0"
  "exposure (bot_order cf n ex sd t role l # rs) = (if sd = ''buy'' then 1 else -1) + exposure rs"
  by (simp_all add: exposure_def bot_order_def)

text \<open>The abstract machine: an action moves the position to its side, a hold leaves it.\<close>

definition abs_step :: "action \<Rightarrow> int \<Rightarrow> int" where
  "abs_step act e = (case act of Buy \<Rightarrow> 1 | Sell \<Rightarrow> -1 | HoldAct \<Rightarrow> e)"

definition flip_ready :: "flip_bot \<Rightarrow> bool" where
  "flip_ready b \<longleftrightarrow> fb_exchange b \<noteq> [] \<and> fb_has_worker b"

lemma flip_act_fields [simp]: "flip_ready (flip_act act b) = flip_ready b"
  by (simp add: flip_act_def flip_ready_def flip_post_def Let_def split: option.splits side.splits)

lemma flip_act_exposure:
  assumes "flip_ready b" "exposure (fb_posts b) = k + side_exposure (fb_current_side b)"
  shows "side_exposure (fb_current_side (flip_act act b)) = abs_step act (side_exposure (fb_current_side b))"
    and "exposure (fb_posts (flip_act act b)) = k + side_exposure (fb_current_side (flip_act act b))"
proof -
  have r: "fb_exchange b \<noteq> []" "fb_has_worker b" using assms(1) by (simp_all add: flip_ready_def)
  have "side_exposure (fb_current_side (flip_act act b)) = abs_step act (side_exposure (fb_current_side b)) \<and>
    exposure (fb_posts (flip_act act b)) = k + side_exposure (fb_current_side (flip_act act b))"
  proof (cases "fb_current_side b")
    case None
    then show ?thesis using assms(2) r
      by (cases act) (simp_all add: flip_act_def flip_post_def side_exposure_def abs_step_def target_side_def)
  next
    case (Some s)
    then show ?thesis using assms(2) r
      by (cases act; cases s) (simp_all add: flip_act_def flip_post_def side_exposure_def abs_step_def target_side_def)
  qed
  then show "side_exposure (fb_current_side (flip_act act b)) = abs_step act (side_exposure (fb_current_side b))"
    "exposure (fb_posts (flip_act act b)) = k + side_exposure (fb_current_side (flip_act act b))" by auto
qed

definition flip_run :: "action list \<Rightarrow> flip_bot \<Rightarrow> flip_bot" where
  "flip_run acts b = fold flip_act acts b"

lemma flip_run_exposure:
  assumes "flip_ready b" "exposure (fb_posts b) = k + side_exposure (fb_current_side b)"
  shows "flip_ready (flip_run acts b) \<and>
    side_exposure (fb_current_side (flip_run acts b)) = fold abs_step acts (side_exposure (fb_current_side b)) \<and>
    exposure (fb_posts (flip_run acts b)) = k + side_exposure (fb_current_side (flip_run acts b))"
  using assms
proof (induction acts arbitrary: b)
  case (Cons act acts)
  have "flip_ready (flip_act act b)" using Cons.prems(1) by simp
  then show ?case
    using Cons.IH [of "flip_act act b"] flip_act_exposure [OF Cons.prems, of act] by (simp add: flip_run_def)
qed (simp add: flip_run_def)

text \<open>
  C3. The flip bots refine the position machine: for every sequence of signals the orders a bot that
  started flat has posted add up to the position of the abstract machine, which is long after a buy, short
  after a sell and unchanged by a hold.
\<close>
theorem flip_bot_refines_position:
  assumes "flip_ready b" "fb_current_side b = None" "fb_posts b = []"
  shows "exposure (fb_posts (flip_run acts b)) = fold abs_step acts 0 \<and>
    side_exposure (fb_current_side (flip_run acts b)) = fold abs_step acts 0"
  using flip_run_exposure [OF assms(1), of 0 acts] assms(2,3) by (simp add: side_exposure_def)

text \<open>
  A gap makes a flip bot forget its position without closing it: n rounds of a buy signal and a
  gap leave n units bought, the recorded side flat and not one exit order.
\<close>
theorem gap_leaves_position_open:
  assumes "flip_ready b" "fb_current_side b = None" "fb_posts b = []"
  shows "let b' = ((\<lambda>b. fst (flip_handle_gap gap (flip_act Buy b, st))) ^^ n) b in
    exposure (fb_posts b') = int n \<and> fb_current_side b' = None \<and>
    (\<forall>r\<in>set (fb_posts b'). or_order_role r = ''entry'')"
proof -
  let ?f = "\<lambda>b. fst (flip_handle_gap gap (flip_act Buy b, st))"
  have one: "flip_ready (?f b) \<and> fb_current_side (?f b) = None \<and>
      fb_posts (?f b) = fb_posts b @ [bot_order (fb_cfg b) (fb_name b) (fb_exchange b) ''buy'' ''market'' ''entry'' None]"
    if "flip_ready b" "fb_current_side b = None" for b
    using that by (simp add: flip_handle_gap_def flip_act_def flip_post_def flip_ready_def)
  have "flip_ready ((?f ^^ n) b) \<and> fb_current_side ((?f ^^ n) b) = None \<and>
      exposure (fb_posts ((?f ^^ n) b)) = int n \<and> (\<forall>r\<in>set (fb_posts ((?f ^^ n) b)). or_order_role r = ''entry'')"
    by (induction n) (use assms one in \<open>auto\<close>)
  then show ?thesis by (simp add: Let_def)
qed

section \<open>The test bot's cycle\<close>

definition market_run :: "json list \<Rightarrow> hold_bot \<Rightarrow> hold_bot" where
  "market_run ps b = fold (\<lambda>p b. snd (market_on_candle p b)) ps b"

text \<open>
  The market test bot trades in cycles of six candles of its symbol: from flat, 6n candles post
  exactly n entries, each followed by its exit, and leave it flat.
\<close>
theorem market_bot_cycle:
  assumes "list_all payload_symbol_ok ps" "length ps = 6 * n" "hb_entry_side b = None"
  shows "hb_posts (market_run ps b) = hb_posts b @ concat (replicate n
      [bot_order test_config (hb_name b) (hb_exchange b) ''buy'' ''market'' ''entry'' None,
       bot_order test_config (hb_name b) (hb_exchange b) ''sell'' ''market'' ''exit'' None]) \<and>
    hb_entry_side (market_run ps b) = None"
  using assms
proof (induction n arbitrary: ps b)
  case 0
  then show ?case by (simp add: market_run_def)
next
  case (Suc n)
  obtain p1 p2 p3 p4 p5 p6 qs where ps: "ps = [p1, p2, p3, p4, p5, p6] @ qs"
  proof -
    have "length ps = Suc (Suc (Suc (Suc (Suc (Suc (6 * n))))))" using Suc.prems(2) by simp
    then show ?thesis using that by (auto simp: length_Suc_conv)
  qed
  define b1 where "b1 = market_run [p1, p2, p3, p4, p5, p6] b"
  have b1: "hb_posts b1 = hb_posts b @
      [bot_order test_config (hb_name b) (hb_exchange b) ''buy'' ''market'' ''entry'' None,
       bot_order test_config (hb_name b) (hb_exchange b) ''sell'' ''market'' ''exit'' None]"
    "hb_entry_side b1 = None" "hb_name b1 = hb_name b" "hb_exchange b1 = hb_exchange b"
    using Suc.prems(1,3)
    by (simp_all add: ps b1_def market_run_def market_on_candle_def hold_post_def hold_bars_def Let_def)
  have "market_run ps b = market_run qs b1" by (simp add: ps b1_def market_run_def)
  then show ?case using Suc.IH [of qs b1] Suc.prems(1,2) b1 by (simp add: ps)
qed

section \<open>Examples\<close>

definition sample_bot :: flip_bot where
  "sample_bot = \<lparr>fb_cfg = ma_cross_config, fb_name = ''ma'', fb_exchange = ''bybit'', fb_has_worker = True,
     fb_current_side = None, fb_posts = []\<rparr>"

theorem flip_bot_refines_position_witness:
  "exposure (fb_posts (flip_run [Buy, HoldAct, Sell] sample_bot)) = -1"
  using flip_bot_refines_position [of sample_bot "[Buy, HoldAct, Sell]"]
  by (simp add: sample_bot_def flip_ready_def abs_step_def)

theorem gap_leaves_position_open_witness:
  "exposure (fb_posts (((\<lambda>b. fst (flip_handle_gap sample_gap (flip_act Buy b, sample_strategy))) ^^ 2) sample_bot)) = 2"
  using gap_leaves_position_open [where b = sample_bot and gap = sample_gap and st = sample_strategy and n = 2]
  by (simp add: sample_bot_def flip_ready_def Let_def)

theorem market_bot_cycle_witness:
  "length (hb_posts (market_run (replicate 6 (JObj [(''symbol'', JStr ''BTC-USDT'')]))
     \<lparr>hb_name = ''t'', hb_exchange = ''kucoin'', hb_bars_held = 0, hb_entry_side = None, hb_close_buf = [],
       hb_posts = []\<rparr>)) = 2"
  using market_bot_cycle [of "replicate 6 (JObj [(''symbol'', JStr ''BTC-USDT'')])" 1
     "\<lparr>hb_name = ''t'', hb_exchange = ''kucoin'', hb_bars_held = 0, hb_entry_side = None, hb_close_buf = [],
       hb_posts = []\<rparr>"]
  by (simp add: payload_symbol_ok_def test_config_def dget_def list_all_iff)

end
