(* ===== verification/Backtest.thy ===== *)
theory Backtest
  imports Order_Worker Base_Strategy
begin

text \<open>
  The backtest package (\<open>backtest/\<close>): the data feed with its segments, the fill writer with its cost
  basis, the bridge that runs a live strategy on the backtest broker, commissions, equity sampling,
  the metrics, the fee gate and the validation report. The broker, its analyzers and the database are
  arguments: an order is what the broker reports of it, an analysis is its numbers (None when absent).
\<close>

section \<open>Feed\<close>

definition ident_char :: "char \<Rightarrow> bool" where
  "ident_char c \<longleftrightarrow> (let n = (of_char c :: nat) in
     65 \<le> n \<and> n \<le> 90 \<or> 97 \<le> n \<and> n \<le> 122 \<or> 48 \<le> n \<and> n \<le> 57 \<or> n = 95 \<or> n = 45 \<or> n = 46)"

text \<open>\<open>^[A-Za-z0-9_\-\.]+$\<close>, whose \<open>$\<close> also matches before a final newline.\<close>

definition ident_ok :: "string \<Rightarrow> bool" where
  "ident_ok s \<longleftrightarrow>
     (let t = (if s \<noteq> [] \<and> last s = CHR 0x0A then butlast s else s) in t \<noteq> [] \<and> list_all ident_char t)"

text \<open>A row of a snapshot table; null numbers are NaN.\<close>

record feed_row =
  fd_ts :: int
  fd_open :: f64
  fd_close :: f64
  fd_gap_count :: f64

definition row_valid :: "feed_row \<Rightarrow> bool" where
  "row_valid r \<longleftrightarrow> \<not> is_nan (fd_close r) \<and> (is_nan (fd_gap_count r) \<or> feq (fd_gap_count r) (Fin 0))"

record segment =
  sg_start :: int
  sg_end :: int
  sg_bars :: nat

text \<open>The scan: the index of the row, the rows left, the start index of an open segment and the time before.\<close>

fun scan_segments :: "nat \<Rightarrow> (nat \<times> int) option \<Rightarrow> int \<Rightarrow> feed_row list \<Rightarrow> segment list" where
  "scan_segments i None prev [] = []"
| "scan_segments i (Some (s, t)) prev [] = [\<lparr>sg_start = t, sg_end = prev, sg_bars = i - s\<rparr>]"
| "scan_segments i st prev (r # rs) =
     (if row_valid r then
        (case st of None \<Rightarrow> scan_segments (Suc i) (Some (i, fd_ts r)) (fd_ts r) rs
         | Some s \<Rightarrow> scan_segments (Suc i) (Some s) (fd_ts r) rs)
      else
        (case st of None \<Rightarrow> scan_segments (Suc i) None (fd_ts r) rs
         | Some (s, t) \<Rightarrow> \<lparr>sg_start = t, sg_end = prev, sg_bars = i - s\<rparr> # scan_segments (Suc i) None (fd_ts r) rs))"

definition find_data_segments :: "feed_row list \<Rightarrow> segment list" where
  "find_data_segments rows = scan_segments 0 None 0 rows"

definition replace_gap_row :: "feed_row \<Rightarrow> feed_row" where
  "replace_gap_row r = (if fd_gap_count r > Fin 0 then r\<lparr>fd_open := NaN, fd_close := NaN\<rparr> else r)"

definition replace_gap_rows :: "feed_row list \<Rightarrow> feed_row list" where
  "replace_gap_rows rows = map replace_gap_row rows"

text \<open>The constructed feed: its rows and segments, or an error.\<close>

definition questdb_feed :: "feed_row list res \<Rightarrow> (feed_row list \<times> segment list) res" where
  "questdb_feed fetched =
     rbind fetched (\<lambda>rows.
       if rows = [] then Inl RuntimeError
       else let kept = filter (\<lambda>r. \<not> is_nan (fd_close r)) (replace_gap_rows rows)
            in if kept = [] then Inl RuntimeError else Inr (kept, find_data_segments rows))"

definition fetch_query :: "string \<Rightarrow> string \<Rightarrow> string \<Rightarrow> int \<Rightarrow> int \<Rightarrow> string" where
  "fetch_query table ex sy ts_start ts_end =
     ''SELECT * FROM '' @ table @ '' WHERE exchange = '' @ [CHR 0x27] @ ex @ [CHR 0x27] @ '' AND symbol = '' @
     [CHR 0x27] @ sy @ [CHR 0x27] @ '' AND ts >= '' @ int_str ts_start @ '' AND ts < '' @ int_str ts_end @
     '' ORDER BY ts ASC''"

text \<open>The database answers with rows, with an error object, or not at all.\<close>

definition fetch_snapshot ::
  "(string \<Rightarrow> feed_row list res) \<Rightarrow> string \<Rightarrow> string \<Rightarrow> string \<Rightarrow> int option \<Rightarrow> int option \<Rightarrow> feed_row list res" where
  "fetch_snapshot run_query table ex sy start_us end_us =
     (case (start_us, end_us) of
        (Some a, Some b) \<Rightarrow>
          if \<not> ident_ok ex \<or> \<not> ident_ok sy \<or> \<not> ident_ok table then Inl ValueError
          else rbind (run_query (fetch_query table ex sy a b)) (\<lambda>rows. Inr (sort_key fd_ts rows))
      | _ \<Rightarrow> Inl ValueError)"

section \<open>Fill writer\<close>

record tracker =
  tk_qty :: "(string, f64) dict"
  tk_avg :: "(string, f64) dict"

definition tracker_record :: "string \<Rightarrow> string \<Rightarrow> f64 \<Rightarrow> f64 \<Rightarrow> tracker \<Rightarrow> f64 \<times> tracker" where
  "tracker_record sy side qty price tk =
     (let cur_qty = dget (tk_qty tk) sy (Fin 0);
          cur_avg = dget (tk_avg tk) sy (Fin 0) in
      if side = ''buy'' then
        let new_qty = cur_qty + qty in
        (Fin 0, tk\<lparr>tk_avg := dset sy (if truthy new_qty then fdiv (cur_avg * cur_qty + price * qty) new_qty else Fin 0)
                     (tk_avg tk),
                   tk_qty := dset sy new_qty (tk_qty tk)\<rparr>)
      else
        let closed = py_min qty cur_qty;
            realized = (if cur_qty > Fin 0 then closed * (price - cur_avg) else Fin 0);
            tk1 = tk\<lparr>tk_qty := dset sy (py_max (Fin 0) (cur_qty - closed)) (tk_qty tk)\<rparr>
        in (realized,
            if feq (dget (tk_qty tk1) sy (Fin 0)) (Fin 0) then tk1\<lparr>tk_avg := dset sy (Fin 0) (tk_avg tk1)\<rparr> else tk1))"

datatype exectype = ExMarket | ExClose | ExLimit | ExStop | ExStopLimit | ExStopTrail | ExStopTrailLimit | ExOther

definition exectype_name :: "exectype \<Rightarrow> string" where
  "exectype_name x = (case x of ExMarket \<Rightarrow> ''market'' | ExClose \<Rightarrow> ''market'' | ExLimit \<Rightarrow> ''limit''
     | ExStop \<Rightarrow> ''stop'' | ExStopLimit \<Rightarrow> ''stop_limit'' | ExStopTrail \<Rightarrow> ''stop_trail''
     | ExStopTrailLimit \<Rightarrow> ''stop_trail_limit'' | ExOther \<Rightarrow> ''market'')"

record bt_order =
  bo_ref :: int
  bo_is_buy :: bool
  bo_exectype :: exectype
  bo_completed :: bool
  bo_created_price :: f64
  bo_created_pricelimit :: f64
  bo_created_size :: f64
  bo_created_s :: int
  bo_exec_price :: f64
  bo_exec_size :: f64
  bo_exec_comm :: f64
  bo_exec_s :: int

record fill_writer =
  wr_strategy :: string
  wr_exchange :: string
  wr_symbol :: string
  wr_fee_currency :: string
  wr_tracker :: tracker
  wr_open :: bool
  wr_rows :: "order_event list"

definition writer_init :: "string \<Rightarrow> string \<Rightarrow> string \<Rightarrow> fill_writer" where
  "writer_init strategy ex sy = \<lparr>wr_strategy = strategy, wr_exchange = ex, wr_symbol = sy,
     wr_fee_currency = ''USDT'', wr_tracker = \<lparr>tk_qty = [], tk_avg = []\<rparr>, wr_open = False, wr_rows = []\<rparr>"

definition writer_open :: "fill_writer \<Rightarrow> fill_writer" where
  "writer_open w = w\<lparr>wr_open := True\<rparr>"

definition writer_close :: "fill_writer \<Rightarrow> fill_writer" where
  "writer_close w = w\<lparr>wr_open := False\<rparr>"

text \<open>The limit and stop price columns by order type.\<close>

definition price_columns :: "bt_order \<Rightarrow> f64 \<times> f64" where
  "price_columns ord =
     (let t = exectype_name (bo_exectype ord) in
      if t = ''limit'' then (bo_created_price ord, Fin 0)
      else if t \<in> {''stop'', ''stop_trail''} then (Fin 0, bo_created_price ord)
      else if t \<in> {''stop_limit'', ''stop_trail_limit''} then (bo_created_pricelimit ord, bo_created_price ord)
      else (Fin 0, Fin 0))"

definition ilp_row :: "order_event \<Rightarrow> fill_writer \<Rightarrow> fill_writer" where
  "ilp_row e w = (if wr_open w then w\<lparr>wr_rows := wr_rows w @ [e]\<rparr> else w)"

definition write_fill :: "string \<Rightarrow> bt_order \<Rightarrow> f64 \<Rightarrow> fill_writer \<Rightarrow> fill_writer" where
  "write_fill uuid ord pos_after w =
     (let side = (if bo_is_buy ord then ''buy'' else ''sell'');
          (limit_price, stop_price) = price_columns ord;
          qty = \<bar>bo_exec_size ord\<bar>;
          (realized, tk) = tracker_record (wr_symbol w) side qty (bo_exec_price ord) (wr_tracker w)
      in ilp_row
           \<lparr>oe_order_id = int_str (bo_ref ord), oe_client_order_id = uuid, oe_strategy = wr_strategy w,
            oe_exchange = wr_exchange w, oe_symbol = wr_symbol w, oe_market_type = ''spot'', oe_side = side,
            oe_order_type = exectype_name (bo_exectype ord), oe_status = ''filled'',
            oe_fee_currency = wr_fee_currency w, oe_signal_type = [], oe_limit_price = limit_price,
            oe_stop_price = stop_price, oe_take_profit_price = Fin 0,
            oe_requested_size = \<bar>bo_created_size ord\<bar>, oe_filled_size = qty, oe_remaining_size = Fin 0,
            oe_avg_fill_price = bo_exec_price ord, oe_fee = \<bar>bo_exec_comm ord\<bar>, oe_realized_pnl = realized,
            oe_slippage = Fin 0, oe_position_size_after = pos_after, oe_paper_trading = False,
            oe_backtest = True, oe_ts_placed = bo_created_s ord * 1000000,
            oe_ts_exchange = bo_exec_s ord * 1000000\<rparr>
           (w\<lparr>wr_tracker := tk\<rparr>))"

text \<open>\<open>run_backtest_and_persist\<close> over the notifications of the run: it opens the writer around them.\<close>

definition persist_notify :: "(string \<times> bt_order \<times> f64) \<Rightarrow> fill_writer \<Rightarrow> fill_writer" where
  "persist_notify n w = (case n of (uuid, ord, pos) \<Rightarrow> if bo_completed ord then write_fill uuid ord pos w else w)"

definition run_backtest_and_persist :: "(string \<times> bt_order \<times> f64) list \<Rightarrow> fill_writer \<Rightarrow> fill_writer" where
  "run_backtest_and_persist ns w = writer_close (fold persist_notify ns (writer_open w))"

section \<open>Trade log of the runner\<close>

record bt_trade =
  bt_entry_ts :: string
  bt_exit_ts :: string
  bt_entry_price :: f64
  bt_exit_price :: f64
  bt_size :: f64
  bt_pnl :: f64
  bt_pnl_net :: f64
  bt_direction :: string

record bt_instance =
  bi_total_fees :: f64
  bi_trades :: "bt_trade list"
  bi_pending_entry :: "(string \<times> f64 \<times> f64 \<times> f64) option"
  bi_writer :: fill_writer

definition apply_fill :: "string \<Rightarrow> string \<Rightarrow> bt_order \<Rightarrow> f64 \<Rightarrow> bt_instance \<Rightarrow> bt_instance" where
  "apply_fill uuid bar_dt ord pos b =
     (if \<not> bo_completed ord then b
      else let comm = \<bar>bo_exec_comm ord\<bar>;
               fill_price = bo_exec_price ord;
               fill_size = bo_exec_size ord;
               b1 = b\<lparr>bi_writer := write_fill uuid ord pos (bi_writer b), bi_total_fees := bi_total_fees b + comm\<rparr>
      in if fill_size > Fin 0 then b1\<lparr>bi_pending_entry := Some (bar_dt, fill_price, \<bar>fill_size\<bar>, comm)\<rparr>
         else if fill_size < Fin 0 then
           (case bi_pending_entry b1 of
              None \<Rightarrow> b1
            | Some (entry_ts, entry_price, entry_size, entry_comm) \<Rightarrow>
                let size' = \<bar>fill_size\<bar>;
                    pnl = (fill_price - entry_price) * size';
                    pnl_net = pnl - entry_comm - comm
                in b1\<lparr>bi_trades := bi_trades b1 @
                        [\<lparr>bt_entry_ts = entry_ts, bt_exit_ts = bar_dt, bt_entry_price = py_round entry_price 6,
                          bt_exit_price = py_round fill_price 6, bt_size = py_round size' 8,
                          bt_pnl = py_round pnl 4, bt_pnl_net = py_round pnl_net 4, bt_direction = ''long''\<rparr>],
                      bi_pending_entry := None\<rparr>)
         else b1)"

section \<open>The bridge for live strategies\<close>

datatype bt_call = CallBuy f64 "f64 option" | CallSell f64 "f64 option"

text \<open>The substitute order worker: what an order request becomes, at the bar's price and the broker's books.\<close>

definition fake_post :: "f64 \<Rightarrow> f64 \<Rightarrow> f64 \<Rightarrow> order_request \<Rightarrow> bt_call option" where
  "fake_post price portfolio_value pos req =
     (if price \<le> Fin 0 \<or> is_nan price then None
      else let units = fdiv (portfolio_value * or_size req) price;
               limit = (case or_limit_price req of
                  Some lp \<Rightarrow> if or_order_type req = ''limit'' \<and> truthy lp \<and> \<not> is_nan lp then Some lp else None
                | None \<Rightarrow> None)
      in if or_side req = ''buy'' then
           (if or_order_role req = ''exit'' \<and> pos < Fin 0 then Some (CallBuy \<bar>pos\<bar> limit)
            else if or_order_role req \<noteq> ''exit'' \<and> units > Fin 0 then Some (CallBuy units limit) else None)
         else if or_side req = ''sell'' then
           (if or_order_role req = ''exit'' \<and> pos > Fin 0 then Some (CallSell pos limit)
            else if or_order_role req \<noteq> ''exit'' \<and> units > Fin 0 then Some (CallSell units limit) else None)
         else None)"

record bt_bar =
  bb_ts_ms :: int
  bb_open :: f64
  bb_high :: f64
  bb_low :: f64
  bb_close :: f64
  bb_volume :: f64
  bb_quote_volume :: f64
  bb_trade_count :: f64

definition nan_to_zero :: "f64 \<Rightarrow> f64" where
  "nan_to_zero x = (if is_nan x then Fin 0 else x)"

text \<open>\<open>next\<close>: a bar becomes a bar event under the first registered key, or nothing when its close is missing.\<close>

definition bridge_key :: "string \<Rightarrow> string \<Rightarrow> strategy \<Rightarrow> string \<times> string" where
  "bridge_key sy tf st = (case st_bar_handlers st of [] \<Rightarrow> (sy, tf) | (k, _) # _ \<Rightarrow> k)"

definition bridge_bar :: "string \<Rightarrow> string \<Rightarrow> string \<Rightarrow> int \<Rightarrow> bt_bar \<Rightarrow> strategy \<Rightarrow> bar_close" where
  "bridge_bar ex sy tf trade_count bar st =
     \<lparr>bc_exchange = ex, bc_symbol = fst (bridge_key sy tf st), bc_tf = snd (bridge_key sy tf st),
      bc_ts = bb_ts_ms bar, bc_open = bb_open bar, bc_high = bb_high bar, bc_low = bb_low bar,
      bc_close = bb_close bar, bc_volume = nan_to_zero (bb_volume bar),
      bc_quote_volume = nan_to_zero (bb_quote_volume bar), bc_trade_count = trade_count,
      bc_is_complete = True\<rparr>"

definition bridge_next ::
  "(frame \<Rightarrow> frame \<times> exn option) \<Rightarrow> rat \<Rightarrow> string \<Rightarrow> string \<Rightarrow> string \<Rightarrow> bt_bar \<Rightarrow> strategy \<Rightarrow> dispatch option res \<times> strategy" where
  "bridge_next add_indicators now ex sy tf bar st =
     (if is_nan (bb_close bar) then (Inr None, st)
      else case int_of_f64 (nan_to_zero (bb_trade_count bar)) of
        Inl e \<Rightarrow> (Inl e, st)
      | Inr n \<Rightarrow> (case on_bar add_indicators now (bridge_bar ex sy tf n bar st) st of
                     (d, st1) \<Rightarrow> (Inr (Some d), st1)))"

section \<open>Commissions, equity, fees\<close>

record commission =
  cm_maker_rate :: f64
  cm_taker_rate :: f64
  cm_is_maker :: bool

definition kucoin_commission :: commission where
  "kucoin_commission = \<lparr>cm_maker_rate = fl (1 / 1000), cm_taker_rate = fl (1 / 1000), cm_is_maker = False\<rparr>"

definition bybit_commission :: commission where
  "bybit_commission = \<lparr>cm_maker_rate = - fl (1 / 10000), cm_taker_rate = fl (6 / 10000), cm_is_maker = False\<rparr>"

definition commission_map :: "string \<Rightarrow> commission option" where
  "commission_map ex = (if lower ex = ''bybit'' then Some bybit_commission
     else if lower ex = ''kucoin'' then Some kucoin_commission else None)"

definition getcommission :: "commission \<Rightarrow> f64 \<Rightarrow> f64 \<Rightarrow> f64" where
  "getcommission cm sz price = \<bar>sz\<bar> * price * (if cm_is_maker cm then cm_maker_rate cm else cm_taker_rate cm)"

text \<open>\<open>rate\<close> is the last rate at or before the time stamp, None when there is none, or the lookup's error.\<close>

definition get_funding_cost :: "f64 option res option \<Rightarrow> f64 \<Rightarrow> f64 \<Rightarrow> f64 res" where
  "get_funding_cost rate position_size mark_price =
     (case rate of
        None \<Rightarrow> Inr (Fin 0)
      | Some (Inl e) \<Rightarrow> if e \<in> {KeyError, TypeError} then Inr (Fin 0) else Inl e
      | Some (Inr None) \<Rightarrow> Inr (Fin 0)
      | Some (Inr (Some r)) \<Rightarrow> Inr (if is_nan r then Fin 0 else position_size * mark_price * r))"

text \<open>The observer: bars are counted from 1.\<close>

fun equity_samples :: "nat \<Rightarrow> nat \<Rightarrow> f64 list \<Rightarrow> f64 list" where
  "equity_samples k i [] = []"
| "equity_samples k i (v # vs) = (if i mod k = 0 then v else NaN) # equity_samples k (Suc i) vs"

definition collect_equity :: "f64 list \<Rightarrow> int list \<Rightarrow> (int \<times> f64) list" where
  "collect_equity samples stamps = map (\<lambda>(v, t). (t, v)) (filter (\<lambda>(v, t). \<not> is_nan v) (zip samples stamps))"

record fee_report =
  fi_passes :: bool
  fi_required_edge :: f64
  fi_mean_signal_edge :: f64
  fi_margin :: f64

text \<open>\<open>mean_edge\<close> is the mean of the signals, None when there is no valid value.\<close>

definition fee_impact_gate :: "f64 option \<Rightarrow> f64 \<Rightarrow> f64 \<Rightarrow> fee_report res" where
  "fee_impact_gate mean_edge taker_rate slippage_bps =
     (if slippage_bps < Fin 0 then Inl ValueError
      else case mean_edge of
        None \<Rightarrow> Inl ValueError
      | Some edge \<Rightarrow>
          let required = py_max (Fin 0) (Fin 2 * (taker_rate + fdiv slippage_bps (Fin 10000)))
          in Inr \<lparr>fi_passes = (edge > required), fi_required_edge = required, fi_mean_signal_edge = edge,
                  fi_margin = edge - required\<rparr>)"

section \<open>Validation\<close>

definition partition_rows :: "'a list \<Rightarrow> int \<Rightarrow> ('a list \<times> 'a list) list res" where
  "partition_rows rows n_splits =
     (if n_splits + 1 = 0 then Inl ZeroDivisionError
      else let fold_size = int (length rows) div (n_splits + 1) in
        if fold_size = 0 then Inl ValueError
        else Inr (map (\<lambda>k. (take (nat fold_size * (k + 1)) rows,
               take (nat fold_size) (drop (nat fold_size * (k + 1)) rows))) [0..<nat n_splits]))"

record fold_result =
  fo_fold :: nat
  fo_sharpe :: f64
  fo_max_drawdown :: f64
  fo_pnl_degradation :: f64
  fo_oos_pnl :: f64

definition degradation :: "f64 \<Rightarrow> f64 \<Rightarrow> f64" where
  "degradation is_pnl oos_pnl = (if \<not> feq is_pnl (Fin 0) then Fin 1 - fdiv oos_pnl is_pnl else Fin 0)"

record walk_forward =
  wf_folds :: "fold_result list"
  wf_mean_sharpe :: f64
  wf_mean_drawdown :: f64
  wf_mean_degradation :: f64

definition mean_f64 :: "f64 list \<Rightarrow> f64" where
  "mean_f64 xs = (if xs = [] then Fin 0 else fdiv (sum_f64 xs) (of_nat_f64 (length xs)))"

text \<open>\<open>run\<close> is the broker: Sharpe ratio, drawdown and net profit of a strategy on some rows.\<close>

definition run_walk_forward :: "('a list \<Rightarrow> f64 \<times> f64 \<times> f64) \<Rightarrow> 'a list \<Rightarrow> int \<Rightarrow> walk_forward res" where
  "run_walk_forward run rows n_splits =
     rbind (partition_rows rows n_splits) (\<lambda>parts.
       let folds = map (\<lambda>(k, is_rows, oos_rows). case run oos_rows of
             (sharpe, dd, pnl) \<Rightarrow>
               \<lparr>fo_fold = k, fo_sharpe = sharpe, fo_max_drawdown = dd,
                fo_pnl_degradation = degradation (snd (snd (run is_rows))) pnl, fo_oos_pnl = pnl\<rparr>)
             (zip [0..<length parts] parts)
       in Inr \<lparr>wf_folds = folds, wf_mean_sharpe = mean_f64 (map fo_sharpe folds),
               wf_mean_drawdown = mean_f64 (map fo_max_drawdown folds),
               wf_mean_degradation = mean_f64 (map fo_pnl_degradation folds)\<rparr>)"

record stress_window =
  sw_name :: string
  sw_sharpe :: f64
  sw_max_drawdown :: f64

definition run_stress_test ::
  "(feed_row list \<Rightarrow> f64 \<times> f64 \<times> f64) \<Rightarrow> feed_row list \<Rightarrow> (string \<times> int \<times> int) list \<Rightarrow> stress_window list" where
  "run_stress_test run rows windows =
     map (\<lambda>(name, a, b). let part = filter (\<lambda>r. a \<le> fd_ts r \<and> fd_ts r \<le> b) rows in
       if part = [] then \<lparr>sw_name = name, sw_sharpe = Fin 0, sw_max_drawdown = Fin 0\<rparr>
       else (case run part of (sharpe, dd, _) \<Rightarrow> \<lparr>sw_name = name, sw_sharpe = sharpe, sw_max_drawdown = dd\<rparr>))
     windows"

record validation =
  va_passes :: bool
  va_fee_gate_ran :: bool
  va_fee_gate_passed :: "bool option"
  va_walk_forward_ran :: bool
  va_monte_carlo_ran :: bool
  va_sharpe_ok :: bool
  va_drawdown_ok :: bool
  va_degradation_ok :: bool
  va_monte_carlo_ok :: bool
  va_stress_drawdown_ok :: bool
  va_worst_stress_drawdown :: f64

text \<open>\<open>max\<close> over the windows keeps the first of what is not smaller.\<close>

definition worst_drawdown :: "stress_window list option \<Rightarrow> f64" where
  "worst_drawdown stress =
     (case stress of None \<Rightarrow> Fin 0 | Some [] \<Rightarrow> Fin 0
      | Some (w # ws) \<Rightarrow> foldl (\<lambda>m w. if sw_max_drawdown w > m then sw_max_drawdown w else m) (sw_max_drawdown w) ws)"

definition report_of ::
  "bool option \<Rightarrow> walk_forward option \<Rightarrow> f64 option \<Rightarrow> f64 \<Rightarrow> bool \<Rightarrow> f64 \<Rightarrow> f64 \<Rightarrow> f64 \<Rightarrow> validation" where
  "report_of gate fwd mc worst stress_ok min_sharpe max_dd max_degr =
     (let mean_sharpe = (case fwd of None \<Rightarrow> Fin 0 | Some f \<Rightarrow> wf_mean_sharpe f);
          mean_drawdown = (case fwd of None \<Rightarrow> Fin 0 | Some f \<Rightarrow> wf_mean_drawdown f);
          mean_degradation = (case fwd of None \<Rightarrow> Fin 0 | Some f \<Rightarrow> wf_mean_degradation f);
          mc_pct5 = (case mc of None \<Rightarrow> Fin 0 | Some x \<Rightarrow> x);
          sharpe_ok = (min_sharpe \<le> mean_sharpe);
          drawdown_ok = (mean_drawdown \<le> max_dd);
          degradation_ok = (mean_degradation \<le> max_degr);
          mc_ok = (mc_pct5 > Fin 0)
      in \<lparr>va_passes = list_all id [sharpe_ok, drawdown_ok, degradation_ok, mc_ok, stress_ok],
          va_fee_gate_ran = (gate \<noteq> None), va_fee_gate_passed = gate, va_walk_forward_ran = (fwd \<noteq> None),
          va_monte_carlo_ran = (mc \<noteq> None), va_sharpe_ok = sharpe_ok, va_drawdown_ok = drawdown_ok,
          va_degradation_ok = degradation_ok, va_monte_carlo_ok = mc_ok, va_stress_drawdown_ok = stress_ok,
          va_worst_stress_drawdown = worst\<rparr>)"

definition generate_validation_report ::
  "walk_forward option \<Rightarrow> stress_window list option \<Rightarrow> f64 option \<Rightarrow> fee_report option \<Rightarrow>
   f64 \<Rightarrow> f64 \<Rightarrow> f64 \<Rightarrow> f64 \<Rightarrow> validation" where
  "generate_validation_report fwd stress mc fee min_sharpe max_dd max_degr stress_max_dd =
     (let worst = worst_drawdown stress; stress_ok = (worst \<le> stress_max_dd);
          gate = map_option fi_passes fee
      in if gate = Some False then
           \<lparr>va_passes = False, va_fee_gate_ran = True, va_fee_gate_passed = Some False, va_walk_forward_ran = False,
            va_monte_carlo_ran = False, va_sharpe_ok = False, va_drawdown_ok = False, va_degradation_ok = False,
            va_monte_carlo_ok = False, va_stress_drawdown_ok = stress_ok, va_worst_stress_drawdown = worst\<rparr>
         else report_of gate fwd mc worst stress_ok min_sharpe max_dd max_degr)"

section \<open>Metrics\<close>

text \<open>The numbers the analyzers report, None where they report nothing.\<close>

record analysis =
  an_sharpe :: "f64 option"
  an_max_drawdown :: "f64 option"
  an_closed :: nat
  an_won :: nat
  an_pnl_total :: "f64 option"
  an_won_pnl_total :: "f64 option"
  an_lost_pnl_total :: "f64 option"
  an_fees :: f64

record bt_metrics =
  me_total_return_pct :: f64
  me_sharpe_ratio :: f64
  me_max_drawdown_pct :: f64
  me_n_trades :: nat
  me_win_rate_pct :: f64
  me_avg_pnl_per_trade :: f64
  me_profit_factor :: f64
  me_total_fees_usd :: f64
  me_passes_fee_gate :: bool

definition safe_float :: "f64 option \<Rightarrow> f64" where
  "safe_float v = (case v of None \<Rightarrow> Fin 0 | Some x \<Rightarrow> if is_fin x then x else Fin 0)"

definition compute_metrics :: "analysis \<Rightarrow> f64 \<Rightarrow> f64 \<Rightarrow> bt_metrics res" where
  "compute_metrics an initial_capital final_value =
     (let n = an_closed an;
          win_rate = (if n > 0 then fdiv (of_nat_f64 (an_won an)) (of_nat_f64 n) * Fin 100 else Fin 0);
          avg_pnl = (if n > 0 then fdiv (safe_float (an_pnl_total an)) (of_nat_f64 n) else Fin 0);
          lost = \<bar>safe_float (an_lost_pnl_total an)\<bar>;
          profit_factor = (if lost > Fin 0 then py_round (fdiv (safe_float (an_won_pnl_total an)) lost) 4 else Fin 0)
      in rbind (py_div (final_value - initial_capital) initial_capital) (\<lambda>ret.
           Inr \<lparr>me_total_return_pct = py_round (ret * Fin 100) 4, me_sharpe_ratio = py_round (safe_float (an_sharpe an)) 4,
                me_max_drawdown_pct = py_round (safe_float (an_max_drawdown an)) 4, me_n_trades = n,
                me_win_rate_pct = py_round win_rate 4, me_avg_pnl_per_trade = py_round avg_pnl 4,
                me_profit_factor = profit_factor, me_total_fees_usd = py_round (an_fees an) 4,
                me_passes_fee_gate = (an_fees an < initial_capital * fl (1 / 100))\<rparr>))"

section \<open>Cost basis\<close>

text \<open>The writer's tracker and the worker's books, related symbol by symbol.\<close>

definition same_basis :: "tracker \<Rightarrow> worker \<Rightarrow> bool" where
  "same_basis tk w \<longleftrightarrow> tk_qty tk = w_position_qty w \<and> tk_avg tk = w_position_avg_price w"

lemma tracker_step:
  "same_basis tk w \<Longrightarrow>
     fst (tracker_record sy side qty price tk) = fst (update_position sy side qty price w) \<and>
     same_basis (snd (tracker_record sy side qty price tk)) (snd (update_position sy side qty price w))"
  by (simp add: same_basis_def tracker_record_def update_position_def Let_def dget_dset)

text \<open>The realized results of a list of fills (symbol, side, size, price).\<close>

fun tracker_run :: "(string \<times> string \<times> f64 \<times> f64) list \<Rightarrow> tracker \<Rightarrow> f64 list" where
  "tracker_run [] tk = []"
| "tracker_run ((sy, side, qty, price) # fs) tk =
     (case tracker_record sy side qty price tk of (r, tk') \<Rightarrow> r # tracker_run fs tk')"

fun worker_basis_run :: "(string \<times> string \<times> f64 \<times> f64) list \<Rightarrow> worker \<Rightarrow> f64 list" where
  "worker_basis_run [] w = []"
| "worker_basis_run ((sy, side, qty, price) # fs) w =
     (case update_position sy side qty price w of (r, w') \<Rightarrow> r # worker_basis_run fs w')"

text \<open>
  C2. The backtest's cost basis is the live one: on every sequence of fills, of any symbols, the tracker
  realizes float for float what the order worker realizes from the same books.
\<close>
theorem tracker_equals_worker:
  assumes "same_basis tk w"
  shows "tracker_run fills tk = worker_basis_run fills w"
  using assms
proof (induction fills arbitrary: tk w)
  case (Cons f fills)
  obtain sy side qty price where f: "f = (sy, side, qty, price)" by (metis prod_cases4)
  show ?case
    using tracker_step [OF Cons.prems, of sy side qty price] Cons.IH
    by (simp add: f case_prod_unfold)
qed simp

theorem tracker_equals_worker_witness:
  "tracker_run [(''BTC'', ''buy'', Fin 1, Fin 2)] \<lparr>tk_qty = [], tk_avg = []\<rparr> =
   worker_basis_run [(''BTC'', ''buy'', Fin 1, Fin 2)] (worker_init ''s'' (Fin 1) True (Fin 1) (Fin 0) None False)"
  by (rule tracker_equals_worker) (simp add: same_basis_def worker_init_def)

section \<open>Segments\<close>

definition sane_gap :: "feed_row \<Rightarrow> bool" where
  "sane_gap r \<longleftrightarrow> is_nan (fd_gap_count r) \<or> Fin 0 \<le> fd_gap_count r"

lemma kept_iff_valid: "sane_gap r \<Longrightarrow> \<not> is_nan (fd_close (replace_gap_row r)) \<longleftrightarrow> row_valid r"
  by (cases "fd_gap_count r") (auto simp: sane_gap_def replace_gap_row_def row_valid_def is_nan_def feq_def)

lemma scan_segments_bars:
  "(case st of None \<Rightarrow> True | Some (s, t) \<Rightarrow> s < i) \<Longrightarrow>
     sum_list (map sg_bars (scan_segments i st prev rows)) =
       length (filter row_valid rows) + (case st of None \<Rightarrow> 0 | Some (s, t) \<Rightarrow> i - s) \<and>
     (\<forall>g\<in>set (scan_segments i st prev rows). 0 < sg_bars g)"
  by (induction i st prev rows rule: scan_segments.induct) (auto split: option.splits)

text \<open>
  The segments account for the feed: when no gap count is negative, the rows the strategy sees are
  exactly the valid ones and the segments' bars add up to their number; no segment is empty.
\<close>
theorem segments_cover_feed:
  assumes "list_all sane_gap rows" "questdb_feed (Inr rows) = Inr (kept, segs)"
  shows "kept = map replace_gap_row (filter row_valid rows) \<and>
    sum_list (map sg_bars segs) = length kept \<and> (\<forall>g\<in>set segs. 0 < sg_bars g)"
proof -
  have k: "filter (\<lambda>r. \<not> is_nan (fd_close r)) (map replace_gap_row rs) = map replace_gap_row (filter row_valid rs)"
    if "list_all sane_gap rs" for rs
    using that by (induction rs) (auto simp: kept_iff_valid)
  have "kept = map replace_gap_row (filter row_valid rows)" "segs = find_data_segments rows"
    using assms(2) k [OF assms(1)] by (auto simp: questdb_feed_def Let_def replace_gap_rows_def split: if_splits)
  then show ?thesis using scan_segments_bars [where i = 0 and st = None and prev = 0 and rows = rows] by (simp add: find_data_segments_def)
qed

section \<open>Walk forward\<close>

text \<open>
  C31. The folds never leak: fold k trains on a prefix of the rows and tests on the block right after it, the test
  blocks are disjoint, of one size and adjacent, and together with the first block they
  make up the rows but for a remainder shorter than the number of blocks.
\<close>
theorem walk_forward_partition:
  assumes "partition_rows rows (int n) = Inr parts"
  shows "length parts = n \<and>
    (\<exists>b>0. (\<forall>k. k < n \<longrightarrow> fst (parts ! k) @ snd (parts ! k) = take (b * (k + 2)) rows \<and>
                length (fst (parts ! k)) = b * (k + 1) \<and> length (snd (parts ! k)) = b) \<and>
       b * (n + 1) \<le> length rows \<and> length rows < b * (n + 1) + (n + 1))"
proof -
  define b where "b = length rows div (n + 1)"
  have e: "int (length rows) div (int n + 1) = int b" by (simp add: b_def zdiv_int algebra_simps)
  have b: "0 < b" and parts: "parts = map (\<lambda>k. (take (b * (k + 1)) rows, take b (drop (b * (k + 1)) rows))) [0..<n]"
    using assms by (auto simp: partition_rows_def e Let_def split: if_splits)
  have le: "b * (n + 1) \<le> length rows" unfolding b_def by (rule div_times_less_eq_dividend)
  have lt: "length rows < b * (n + 1) + (n + 1)"
    using mod_less_divisor [of "n + 1" "length rows"] div_mult_mod_eq [of "length rows" "n + 1"] unfolding b_def by linarith
  have "fst (parts ! k) @ snd (parts ! k) = take (b * (k + 2)) rows \<and>
      length (fst (parts ! k)) = b * (k + 1) \<and> length (snd (parts ! k)) = b" if "k < n" for k
  proof -
    have "b * (k + 2) \<le> b * (n + 1)" using that by (intro mult_le_mono) auto
    then have k: "b * (k + 2) \<le> length rows" using le by linarith
    have "take (b * (k + 1)) rows @ take b (drop (b * (k + 1)) rows) = take (b * (k + 1) + b) rows"
      by (simp add: take_add)
    then show ?thesis using that k by (simp add: parts algebra_simps)
  qed
  then show ?thesis using b le lt by (intro conjI exI [of _ b]) (auto simp: parts)
qed

theorem walk_forward_partition_witness:
  "length (projr (partition_rows [1, 2, 3, 4, 5, 6 :: int] 2)) = 2"
  using walk_forward_partition [of "[1, 2, 3, 4, 5, 6 :: int]" 2] by (simp add: partition_rows_def Let_def)

text \<open>
  The degradation measure turns round for losing strategies: with a training loss, the larger the test
  loss the smaller the measured degradation, and any test loss at least as large passes every non-negative limit.
\<close>
theorem degradation_rewards_larger_loss:
  assumes "a < 0" "x \<le> y"
  shows "degradation (Fin a) (Fin x) \<le> degradation (Fin a) (Fin y) \<and>
    (x \<le> a \<longrightarrow> degradation (Fin a) (Fin x) \<le> Fin 0)"
proof -
  have d: "degradation (Fin a) (Fin z) = Fin 1 - fl (z / a)" for z
    using assms(1) by (simp add: degradation_def feq_def)
  have m: "Fin 1 - u \<le> Fin 1 - v" if "v \<le> u" for u v :: f64
    using that by (cases u; cases v) (auto intro: fl_mono simp: minus_f64_def)
  have "fl (y / a) \<le> fl (x / a)" using assms by (intro fl_mono) (simp add: divide_right_mono_neg)
  moreover have "Fin 1 - fl (x / a) \<le> Fin 0" if "x \<le> a"
  proof -
    have "fl 1 \<le> fl (x / a)" using that assms(1) by (intro fl_mono) (simp add: le_divide_eq)
    moreover have "fl 1 = Fin 1" by code_simp
    ultimately have "Fin 1 - fl (x / a) \<le> Fin 1 - Fin 1" by (intro m) simp
    also have "Fin 1 - Fin 1 = Fin 0" by simp
    finally show ?thesis .
  qed
  ultimately show ?thesis by (auto simp: d intro: m)
qed

theorem degradation_rewards_larger_loss_witness:
  "degradation (Fin (-100)) (Fin (-200)) \<le> Fin 0"
  using degradation_rewards_larger_loss [of "-100" "-200" 0] by simp

section \<open>Validation gate\<close>

text \<open>
  A report passes only when every gate that is asked holds: the fee gate if it ran, the four means within
  their limits, a positive Monte Carlo percentile and the stress drawdown; without a Monte Carlo run none passes.
\<close>
theorem validation_passes_iff:
  "va_passes (generate_validation_report fwd stress mc fee min_sharpe max_dd max_degr stress_dd) \<longleftrightarrow>
     map_option fi_passes fee \<noteq> Some False \<and>
     min_sharpe \<le> (case fwd of None \<Rightarrow> Fin 0 | Some f \<Rightarrow> wf_mean_sharpe f) \<and>
     (case fwd of None \<Rightarrow> Fin 0 | Some f \<Rightarrow> wf_mean_drawdown f) \<le> max_dd \<and>
     (case fwd of None \<Rightarrow> Fin 0 | Some f \<Rightarrow> wf_mean_degradation f) \<le> max_degr \<and>
     (\<exists>x. mc = Some x \<and> Fin 0 < x) \<and>
     worst_drawdown stress \<le> stress_dd"
  by (cases mc) (auto simp: generate_validation_report_def report_of_def Let_def)

section \<open>Trade log\<close>

text \<open>
  The trade log knows no short positions: a short that is opened by a sell and covered by a buy leaves no
  trade, and the covering buy is kept as an open long which the next short entry then closes as a
  long trade that never was.
\<close>
theorem cover_recorded_as_long_entry:
  assumes "bo_completed o1" "bo_exec_size o1 < Fin 0" "bo_completed o2" "bo_exec_size o2 > Fin 0"
    and "bo_completed o3" "bo_exec_size o3 < Fin 0" "bi_pending_entry b = None"
  shows "bi_trades (apply_fill u2 t2 o2 p2 (apply_fill u1 t1 o1 p1 b)) = bi_trades b \<and>
    (\<exists>tr. bi_trades (apply_fill u3 t3 o3 p3 (apply_fill u2 t2 o2 p2 (apply_fill u1 t1 o1 p1 b))) = bi_trades b @ [tr] \<and>
       bt_direction tr = ''long'' \<and> bt_entry_ts tr = t2 \<and> bt_exit_ts tr = t3)"
  using assms by (auto simp: apply_fill_def Let_def dest: f64_less_asym)

section \<open>The writer that is never opened\<close>

lemma write_fill_closed:
  "\<not> wr_open w \<Longrightarrow> wr_rows (write_fill u ord p w) = wr_rows w \<and> \<not> wr_open (write_fill u ord p w)"
  by (simp add: write_fill_def ilp_row_def Let_def case_prod_unfold)

text \<open>
  The runner's fills reach no table: its writer is created and never opened, so whatever the broker reports
  no row is written.
\<close>
theorem runner_writes_no_rows:
  "wr_rows (bi_writer (fold (\<lambda>(u, t, ord, p) b. apply_fill u t ord p b) fills
     \<lparr>bi_total_fees = Fin 0, bi_trades = [], bi_pending_entry = None, bi_writer = writer_init s ex sy\<rparr>)) = []"
proof -
  have one: "wr_rows (bi_writer (apply_fill u t ord p b)) = wr_rows (bi_writer b) \<and> \<not> wr_open (bi_writer (apply_fill u t ord p b))"
    if "\<not> wr_open (bi_writer b)" for u t ord p b
    using write_fill_closed [OF that, of u ord p] that
    by (simp add: apply_fill_def Let_def split: option.splits)
  have "\<not> wr_open (bi_writer b) \<Longrightarrow>
      wr_rows (bi_writer (fold (\<lambda>(u, t, ord, p) b. apply_fill u t ord p b) fills b)) = wr_rows (bi_writer b)" for b
    using one by (induction fills arbitrary: b) auto
  then show ?thesis by (simp add: writer_init_def)
qed

section \<open>Examples\<close>

definition sample_bt_order :: "f64 \<Rightarrow> bt_order" where
  "sample_bt_order sz = \<lparr>bo_ref = 1, bo_is_buy = (sz > Fin 0), bo_exectype = ExMarket, bo_completed = True,
     bo_created_price = Fin 1, bo_created_pricelimit = Fin 0, bo_created_size = sz, bo_created_s = 0,
     bo_exec_price = Fin 1, bo_exec_size = sz, bo_exec_comm = Fin 0, bo_exec_s = 0\<rparr>"

theorem cover_recorded_as_long_entry_witness:
  "\<exists>tr. bi_trades (apply_fill [] ''c'' (sample_bt_order (Fin (-1))) (Fin 0) (apply_fill [] ''b'' (sample_bt_order (Fin 1)) (Fin 0)
     (apply_fill [] ''a'' (sample_bt_order (Fin (-1))) (Fin 0)
       \<lparr>bi_total_fees = Fin 0, bi_trades = [], bi_pending_entry = None, bi_writer = writer_init [] [] []\<rparr>))) = [tr]"
  using cover_recorded_as_long_entry [of "sample_bt_order (Fin (-1))" "sample_bt_order (Fin 1)" "sample_bt_order (Fin (-1))"
      "\<lparr>bi_total_fees = Fin 0, bi_trades = [], bi_pending_entry = None, bi_writer = writer_init [] [] []\<rparr>"
      "[]" "''b''" "Fin 0" "[]" "''a''" "Fin 0" "[]" "''c''" "Fin 0"]
  by (auto simp: sample_bt_order_def)

theorem segments_cover_feed_witness:
  "\<exists>kept segs. questdb_feed (Inr [\<lparr>fd_ts = 0, fd_open = Fin 1, fd_close = Fin 1, fd_gap_count = Fin 0\<rparr>]) = Inr (kept, segs) \<and>
     sum_list (map sg_bars segs) = length kept"
proof -
  let ?r = "\<lparr>fd_ts = 0, fd_open = Fin 1, fd_close = Fin 1, fd_gap_count = Fin 0\<rparr>"
  have "\<exists>kept segs. questdb_feed (Inr [?r]) = Inr (kept, segs)"
    by (simp add: questdb_feed_def replace_gap_rows_def replace_gap_row_def is_nan_def Let_def)
  then show ?thesis using segments_cover_feed [of "[?r]"] by (fastforce simp: sane_gap_def)
qed

end
