(* ===== verification/Paper.thy ===== *)
theory Paper
  imports Ws_Feed "HOL-Library.Multiset"
begin

text \<open>
  The simulated exchange of paper trading (\<open>exchange/paper.py\<close>): an order is accepted at once and its
  fill is scheduled as a task, which prices it from the last entries of two Redis streams and calls
  the fill callback. The tasks that have not run are part of the client's state; any of them may be
  the next to run. The random latency decides only when a task runs, so it is the order of the steps.
\<close>

section \<open>State\<close>

record paper =
  pp_exchange :: string
  pp_slippage_bps :: int
  pp_uuid :: "nat \<Rightarrow> string"
  pp_clock :: "nat \<Rightarrow> int"
  pp_ids :: nat
  pp_ticks :: nat
  pp_tasks :: "(order_request \<times> placed_order) list"
  pp_fills :: "order_filled list"        \<comment> \<open>the calls made on the callback\<close>
  pp_failed :: "string list"             \<comment> \<open>order ids of the failure log lines\<close>
  pp_no_price :: "string list"           \<comment> \<open>symbols of the missing price log lines\<close>

definition paper_init :: "string \<Rightarrow> int \<Rightarrow> (nat \<Rightarrow> string) \<Rightarrow> (nat \<Rightarrow> int) \<Rightarrow> paper" where
  "paper_init ex bps uuids clock = \<lparr>pp_exchange = ex, pp_slippage_bps = bps, pp_uuid = uuids, pp_clock = clock,
     pp_ids = 0, pp_ticks = 0, pp_tasks = [], pp_fills = [], pp_failed = [], pp_no_price = []\<rparr>"

definition paper_now :: "paper \<Rightarrow> int \<times> paper" where
  "paper_now p = (pp_clock p (pp_ticks p), p\<lparr>pp_ticks := Suc (pp_ticks p)\<rparr>)"

definition paper_place_order :: "order_request \<Rightarrow> paper \<Rightarrow> placed_order res \<times> paper" where
  "paper_place_order req p =
     (let order_id = pp_uuid p (pp_ids p);
          (now, p1) = paper_now (p\<lparr>pp_ids := Suc (pp_ids p)\<rparr>);
          placed = \<lparr>pl_order_id = order_id, pl_client_order_id = or_client_order_id req,
                    pl_status = ''placed'', pl_ts_exchange = now\<rparr>
      in (Inr placed, p1\<lparr>pp_tasks := pp_tasks p1 @ [(req, placed)]\<rparr>))"

definition paper_open_orders :: "string \<Rightarrow> paper \<Rightarrow> open_order list" where
  "paper_open_orders symbol p = []"

definition paper_recent_fills :: "string \<Rightarrow> int \<Rightarrow> paper \<Rightarrow> order_filled list" where
  "paper_recent_fills symbol since p = []"

definition paper_cancel_order :: "string \<Rightarrow> string \<Rightarrow> paper \<Rightarrow> paper" where
  "paper_cancel_order order_id symbol p = p"

section \<open>Prices\<close>

text \<open>\<open>latest k\<close> is what \<open>xrevrange\<close> with a count of one answers for the stream \<open>k\<close>.\<close>

type_synonym latest = "string \<Rightarrow> (string \<times> entry) list res"

definition field_price :: "entry \<Rightarrow> string \<Rightarrow> f64 option" where
  "field_price e fn = (case map_of e fn of
       None \<Rightarrow> None
     | Some raw \<Rightarrow>
         if raw = [] then None
         else case py_float raw of None \<Rightarrow> None | Some x \<Rightarrow> if x > Fin 0 then Some x else None)"

fun first_field :: "entry \<Rightarrow> string list \<Rightarrow> f64 option" where
  "first_field e [] = None"
| "first_field e (fn # fns) = (case field_price e fn of Some x \<Rightarrow> Some x | None \<Rightarrow> first_field e fns)"

fun sync_fetch :: "latest \<Rightarrow> (string \<times> string list) list \<Rightarrow> f64 res" where
  "sync_fetch latest [] = Inr (Fin 0)"
| "sync_fetch latest ((key, fns) # ss) =
     (case latest key of
        Inl e \<Rightarrow> Inl e
      | Inr [] \<Rightarrow> sync_fetch latest ss
      | Inr ((_, e) # _) \<Rightarrow>
          (case first_field e fns of Some x \<Rightarrow> Inr x | None \<Rightarrow> sync_fetch latest ss))"

definition price_streams :: "string \<Rightarrow> string \<Rightarrow> (string \<times> string list) list" where
  "price_streams ex sy = [(''candles:close:'' @ ex @ '':'' @ sy @ '':1m'', [''close'']),
                          (''candles:ob:'' @ ex @ '':'' @ sy, [''mid_price''])]"

definition resolve_limit_price :: "order_request \<Rightarrow> f64" where
  "resolve_limit_price req = (case or_limit_price req of Some x \<Rightarrow> x | None \<Rightarrow> Fin 0)"

definition slipped :: "string \<Rightarrow> int \<Rightarrow> f64 \<Rightarrow> f64" where
  "slipped side bps price =
     (let slippage = fdiv (of_int_f64 bps) (Fin 10000) in
      if side = ''buy'' then price * (Fin 1 + slippage) else price * (Fin 1 - slippage))"

definition resolve_market_price :: "latest \<Rightarrow> order_request \<Rightarrow> paper \<Rightarrow> f64 res \<times> paper" where
  "resolve_market_price latest req p =
     (case sync_fetch latest (price_streams (pp_exchange p) (or_symbol req)) of
        Inl e \<Rightarrow> (Inl e, p)
      | Inr price \<Rightarrow>
          if feq price (Fin 0) then (Inr (Fin 0), p\<lparr>pp_no_price := pp_no_price p @ [or_symbol req]\<rparr>)
          else (Inr (slipped (or_side req) (pp_slippage_bps p) price), p))"

section \<open>Fills\<close>

definition fill_of :: "paper \<Rightarrow> order_request \<Rightarrow> placed_order \<Rightarrow> f64 \<Rightarrow> int \<Rightarrow> order_filled" where
  "fill_of p req placed price now = \<lparr>of_order_id = pl_order_id placed, of_exchange = pp_exchange p,
     of_symbol = or_symbol req, of_side = or_side req, of_fill_price = price, of_fill_size = or_size req,
     of_fee = Fin 0, of_ts_exchange = now\<rparr>"

definition simulate_fill :: "latest \<Rightarrow> 's on_fill \<Rightarrow> order_request \<times> placed_order \<Rightarrow> paper \<times> 's \<Rightarrow> paper \<times> 's" where
  "simulate_fill latest on_fill task st =
     (let (req, placed) = task; (p, s) = st;
          (r, p1) = (if or_order_type req = ''market'' then resolve_market_price latest req p
                     else (Inr (resolve_limit_price req), p))
      in case r of
           Inl e \<Rightarrow> (p1\<lparr>pp_failed := pp_failed p1 @ [pl_order_id placed]\<rparr>, s)
         | Inr price \<Rightarrow>
             let (now, p2) = paper_now p1; fill = fill_of p2 req placed price now;
                 p3 = p2\<lparr>pp_fills := pp_fills p2 @ [fill]\<rparr>
             in case on_fill fill s of
                  (Inl e, s') \<Rightarrow> (p3\<lparr>pp_failed := pp_failed p3 @ [pl_order_id placed]\<rparr>, s')
                | (Inr _, s') \<Rightarrow> (p3, s'))"

text \<open>A step of the event loop: an order is placed, or the \<open>i\<close>-th scheduled task runs to its end.\<close>

datatype paper_op = PlaceOrder order_request | RunTask nat latest

fun paper_step :: "'s on_fill \<Rightarrow> paper_op \<Rightarrow> paper \<times> 's \<Rightarrow> paper \<times> 's" where
  "paper_step on_fill (PlaceOrder req) (p, s) = (snd (paper_place_order req p), s)"
| "paper_step on_fill (RunTask i latest) (p, s) =
     (if i < length (pp_tasks p)
      then simulate_fill latest on_fill (pp_tasks p ! i)
             (p\<lparr>pp_tasks := take i (pp_tasks p) @ drop (Suc i) (pp_tasks p)\<rparr>, s)
      else (p, s))"

definition paper_run :: "'s on_fill \<Rightarrow> paper_op list \<Rightarrow> paper \<times> 's \<Rightarrow> paper \<times> 's" where
  "paper_run on_fill ops st = fold (paper_step on_fill) ops st"

section \<open>The contract of the order queue worker's exchange\<close>

lemma paper_place_Inr:
  "paper_place_order req p = (Inr pl, p') \<Longrightarrow>
     pl_status pl = ''placed'' \<and> pl_client_order_id pl = or_client_order_id req"
  by (auto simp: paper_place_order_def paper_now_def Let_def)

interpretation paper: order_placer paper_place_order
  by unfold_locales (auto dest: paper_place_Inr)


section \<open>Every order is filled once\<close>

definition task_key :: "order_request \<times> placed_order \<Rightarrow> string \<times> string \<times> string \<times> f64" where
  "task_key t = (pl_order_id (snd t), or_symbol (fst t), or_side (fst t), or_size (fst t))"

definition fill_key :: "order_filled \<Rightarrow> string \<times> string \<times> string \<times> f64" where
  "fill_key f = (of_order_id f, of_symbol f, of_side f, of_fill_size f)"

definition answers :: "latest \<Rightarrow> bool" where
  "answers latest \<longleftrightarrow> (\<forall>k e. latest k \<noteq> Inl e)"

fun placed_requests :: "paper_op list \<Rightarrow> order_request list" where
  "placed_requests [] = []"
| "placed_requests (PlaceOrder req # ops) = req # placed_requests ops"
| "placed_requests (RunTask i latest # ops) = placed_requests ops"

definition order_keys :: "(nat \<Rightarrow> string) \<Rightarrow> order_request list \<Rightarrow> (string \<times> string \<times> string \<times> f64) list" where
  "order_keys ids reqs = map (\<lambda>(i, req). (ids i, or_symbol req, or_side req, or_size req)) (enumerate 0 reqs)"

lemma sync_fetch_answers: "answers latest \<Longrightarrow> \<exists>x. sync_fetch latest ss = Inr x"
  by (induction latest ss rule: sync_fetch.induct) (auto simp: answers_def split: sum.splits list.splits option.splits)

lemma simulate_fill_keys:
  assumes "simulate_fill latest on_fill t (p, s) = (p', s')"
  shows "pp_tasks p' = pp_tasks p \<and> pp_ids p' = pp_ids p \<and> pp_uuid p' = pp_uuid p \<and>
    (map fill_key (pp_fills p') = map fill_key (pp_fills p) @ [task_key t] \<or>
     \<not> answers latest \<and> pp_fills p' = pp_fills p)"
  using assms sync_fetch_answers [of latest "price_streams (pp_exchange p) (or_symbol (fst t))"]
  by (auto simp: simulate_fill_def resolve_market_price_def paper_now_def Let_def fill_key_def task_key_def
      fill_of_def split: prod.splits sum.splits if_splits)

lemma simulate_fill_uuid [simp]: "pp_uuid (fst (simulate_fill latest on_fill t st)) = pp_uuid (fst st)"
proof -
  obtain p s p' s' where "st = (p, s)" "simulate_fill latest on_fill t (p, s) = (p', s')" by fastforce
  then show ?thesis using simulate_fill_keys [of latest on_fill t p s p' s'] by simp
qed

lemma simulate_fill_tasks [simp]: "pp_tasks (fst (simulate_fill latest on_fill t st)) = pp_tasks (fst st)"
proof -
  obtain p s p' s' where "st = (p, s)" "simulate_fill latest on_fill t (p, s) = (p', s')" by fastforce
  then show ?thesis using simulate_fill_keys [of latest on_fill t p s p' s'] by simp
qed

lemma mset_remove_nth: "i < length xs \<Longrightarrow> mset (take i xs @ drop (Suc i) xs) + {#xs ! i#} = mset xs"
  by (metis add_mset_add_single id_take_nth_drop mset.simps(2) mset_append union_mset_add_mset_right)

definition paper_accounts :: "order_request list \<Rightarrow> bool \<Rightarrow> paper \<Rightarrow> bool" where
  "paper_accounts reqs exact p \<longleftrightarrow> pp_ids p = length reqs \<and>
     (let m = mset (map fill_key (pp_fills p)) + mset (map task_key (pp_tasks p));
          orders = mset (order_keys (pp_uuid p) reqs)
      in m \<subseteq># orders \<and> (exact \<longrightarrow> m = orders))"

lemma order_keys_snoc: "order_keys ids (reqs @ [r]) =
    order_keys ids reqs @ [(ids (length reqs), or_symbol r, or_side r, or_size r)]"
  by (simp add: order_keys_def enumerate_append_eq)

lemma paper_accounts_place:
  "paper_accounts reqs ex p \<Longrightarrow> paper_accounts (reqs @ [req]) ex (snd (paper_place_order req p))"
  by (auto simp: paper_accounts_def paper_place_order_def paper_now_def Let_def order_keys_snoc task_key_def
      subset_mset.add_mono)

lemma paper_accounts_run:
  assumes "paper_accounts reqs ex p" "ex \<Longrightarrow> answers latest"
    and "paper_step on_fill (RunTask i latest) (p, s) = (p', s')"
  shows "paper_accounts reqs ex p'"
proof (cases "i < length (pp_tasks p)")
  case True
  let ?q = "p\<lparr>pp_tasks := take i (pp_tasks p) @ drop (Suc i) (pp_tasks p)\<rparr>"
  let ?t = "pp_tasks p ! i"
  have r: "simulate_fill latest on_fill ?t (?q, s) = (p', s')" using assms(3) True by simp
  have tasks: "mset (map task_key (pp_tasks ?q)) + {#task_key ?t#} = mset (map task_key (pp_tasks p))"
    using mset_remove_nth [OF True, THEN arg_cong [where f = "image_mset task_key"]] by simp
  define a where "a = mset (map fill_key (pp_fills p))"
  define b where "b = mset (map task_key (pp_tasks ?q))"
  have old: "a + (b + {#task_key ?t#}) \<subseteq># mset (order_keys (pp_uuid p) reqs)"
    "ex \<longrightarrow> a + (b + {#task_key ?t#}) = mset (order_keys (pp_uuid p) reqs)" "pp_ids p = length reqs"
    using assms(1) tasks by (simp_all add: paper_accounts_def Let_def a_def b_def)
  from simulate_fill_keys [OF r] consider
      "mset (map fill_key (pp_fills p')) = a + {#task_key ?t#}"
    | "\<not> answers latest" "mset (map fill_key (pp_fills p')) = a"
    by (auto simp: a_def simp del: mset_map)
  then show ?thesis
  proof cases
    case 1
    then show ?thesis using simulate_fill_keys [OF r] old
      by (simp add: paper_accounts_def Let_def b_def)
  next
    case 2
    have "a + b \<subseteq># mset (order_keys (pp_uuid p) reqs)"
      using old(1) by (rule subset_mset.order_trans [rotated]) simp
    then show ?thesis using 2 simulate_fill_keys [OF r] old assms(2)
      by (auto simp: paper_accounts_def Let_def b_def)
  qed
next
  case False
  then show ?thesis using assms by simp
qed

lemma paper_accounts_history:
  assumes "paper_accounts reqs ex p"
    and "ex \<Longrightarrow> \<forall>i latest. RunTask i latest \<in> set ops \<longrightarrow> answers latest"
    and "paper_run on_fill ops (p, s) = (p', s')"
  shows "paper_accounts (reqs @ placed_requests ops) ex p'"
  using assms
proof (induction ops arbitrary: p s reqs)
  case Nil
  then show ?case by (simp add: paper_run_def)
next
  case (Cons a ops)
  obtain p1 s1 where st: "paper_step on_fill a (p, s) = (p1, s1)" by fastforce
  have rest: "paper_run on_fill ops (p1, s1) = (p', s')" using Cons.prems(3) st by (simp add: paper_run_def)
  have h: "ex \<Longrightarrow> \<forall>i latest. RunTask i latest \<in> set ops \<longrightarrow> answers latest" using Cons.prems(2) by simp
  show ?case
  proof (cases a)
    case (PlaceOrder req)
    then have "p1 = snd (paper_place_order req p)" using st by simp
    then show ?thesis
      using Cons.IH [OF paper_accounts_place [OF Cons.prems(1), of req]] h rest PlaceOrder by simp
  next
    case (RunTask i latest)
    have "ex \<Longrightarrow> answers latest" using Cons.prems(2) RunTask by simp
    from Cons.IH [OF paper_accounts_run [OF Cons.prems(1) this]] st h rest RunTask
    show ?thesis by simp
  qed
qed

text \<open>
  C18. Paper trading loses and repeats no order: in whatever order the scheduled tasks run and whatever
  the fill callback does, the fills delivered and the tasks still scheduled are together at most one
  per placed order, with the order's own id, symbol, side and size; and exactly one when the price
  source answers.
\<close>

theorem paper_fills_each_order_once:
  assumes "paper_run on_fill ops (paper_init ex bps ids clock, s) = (p, s')"
  shows "mset (map fill_key (pp_fills p)) + mset (map task_key (pp_tasks p)) \<subseteq>#
      mset (order_keys ids (placed_requests ops)) \<and>
    ((\<forall>i latest. RunTask i latest \<in> set ops \<longrightarrow> answers latest) \<longrightarrow>
      mset (map fill_key (pp_fills p)) + mset (map task_key (pp_tasks p)) =
      mset (order_keys ids (placed_requests ops)))"
proof -
  have i: "paper_accounts [] b (paper_init ex bps ids clock)" for b
    by (simp add: paper_accounts_def paper_init_def order_keys_def)
  have u: "pp_uuid (fst (paper_run on_fill ops st)) = pp_uuid (fst st)" for st
    unfolding paper_run_def
  proof (rule fold_unchanged)
    fix a and st' :: "paper \<times> 'a"
    obtain q t where st': "st' = (q, t)" by fastforce
    show "pp_uuid (fst (paper_step on_fill a st')) = pp_uuid (fst st')"
    proof (cases a)
      case (PlaceOrder req)
      then show ?thesis by (simp add: st' paper_place_order_def paper_now_def Let_def)
    next
      case (RunTask i latest)
      then show ?thesis by (simp add: st')
    qed
  qed
  have "pp_uuid p = ids" using u [of "(paper_init ex bps ids clock, s)"] assms by (simp add: paper_init_def)
  then show ?thesis
    using paper_accounts_history [OF i _ assms, of False] paper_accounts_history [OF i _ assms, of True]
    by (auto simp: paper_accounts_def Let_def)
qed

definition sample_latest :: latest where
  "sample_latest k = (if k = ''candles:ob:bybit:BTCUSDT'' then Inr [(''1-0'', [(''mid_price'', ''100'')])] else Inr [])"

theorem paper_fills_each_order_once_witness:
  "mset (map fill_key (pp_fills (fst (paper_run (\<lambda>f n. (Inl RuntimeError, n))
     [PlaceOrder sample_order, PlaceOrder (sample_order\<lparr>or_order_type := ''market''\<rparr>), RunTask 1 sample_latest]
     (paper_init ''bybit'' 5 (\<lambda>i. if i = 0 then ''0'' else ''1'') (\<lambda>i. 1000), ()))))) + {#(''0'', ''BTCUSDT'', ''buy'', Fin (1/128))#} =
   mset [(''0'', ''BTCUSDT'', ''buy'', Fin (1/128)), (''1'', ''BTCUSDT'', ''buy'', Fin (1/128))]"
proof -
  let ?ops = "[PlaceOrder sample_order, PlaceOrder (sample_order\<lparr>or_order_type := ''market''\<rparr>), RunTask 1 sample_latest]"
  let ?p = "paper_run (\<lambda>f n. (Inl RuntimeError, n)) ?ops (paper_init ''bybit'' 5 (\<lambda>i. if i = 0 then ''0'' else ''1'') (\<lambda>i. 1000), ())"
  have a: "\<forall>i latest. RunTask i latest \<in> set ?ops \<longrightarrow> answers latest"
    by (simp add: sample_latest_def answers_def)
  have t: "map task_key (pp_tasks (fst ?p)) = [(''0'', ''BTCUSDT'', ''buy'', Fin (1/128))]"
    by (simp add: paper_run_def paper_place_order_def paper_now_def paper_init_def Let_def task_key_def sample_order_def)
  have o: "order_keys (\<lambda>i. if i = 0 then ''0'' else ''1'') (placed_requests ?ops) =
      [(''0'', ''BTCUSDT'', ''buy'', Fin (1/128)), (''1'', ''BTCUSDT'', ''buy'', Fin (1/128))]"
    by (simp add: order_keys_def sample_order_def)
  show ?thesis using paper_fills_each_order_once [OF prod.collapse [symmetric], of "\<lambda>f n. (Inl RuntimeError, n)" ?ops
        "''bybit''" 5 "\<lambda>i. if i = 0 then ''0'' else ''1''" "\<lambda>i. 1000" "()"] a t o by (simp del: mset_map)
qed
section \<open>Fill prices\<close>

lemma field_price_ok: "field_price e fn = Some x \<Longrightarrow> Fin 0 < x \<and> f64_ok x"
  by (auto simp: field_price_def py_float_ok split: option.splits if_splits)

lemma first_field_ok: "first_field e fns = Some x \<Longrightarrow> Fin 0 < x \<and> f64_ok x"
  by (induction fns) (auto simp: field_price_ok split: option.splits)

lemma sync_fetch_price: "sync_fetch latest ss = Inr x \<Longrightarrow> x = Fin 0 \<or> Fin 0 < x \<and> f64_ok x"
  by (induction latest ss rule: sync_fetch.induct)
    (auto simp: first_field_ok split: sum.splits list.splits option.splits)

lemma slippage_range:
  assumes "0 \<le> bps" "bps \<le> 10000"
  shows "\<exists>q. fdiv (of_int_f64 bps) (Fin 10000) = Fin q \<and> 0 \<le> q \<and> q \<le> 1"
proof -
  obtain r where r: "of_int_f64 bps = Fin r" "0 \<le> r" "r \<le> 10000"
    using fl_range [of 0 10000 "of_int bps"] assms by (auto simp: of_int_f64_def)
  then show ?thesis using fl_range [of 0 1 "r / 10000"] by simp
qed

text \<open>
  Slippage is never in the trader's favour: with a price from the streams and a slippage between 0 and
  10000 basis points, a simulated buy fills at or above that price and a sell between zero and it,
  rounding included.
\<close>

theorem paper_slippage_adverse:
  assumes "sync_fetch latest (price_streams (pp_exchange p) (or_symbol req)) = Inr (Fin c)" "c \<noteq> 0"
    and "0 \<le> pp_slippage_bps p" "pp_slippage_bps p \<le> 10000"
  shows "\<exists>x. resolve_market_price latest req p = (Inr x, p) \<and>
    (if or_side req = ''buy'' then Fin c \<le> x else Fin 0 \<le> x \<and> x \<le> Fin c)"
proof -
  obtain q where q: "fdiv (of_int_f64 (pp_slippage_bps p)) (Fin 10000) = Fin q" "0 \<le> q" "q \<le> 1"
    using slippage_range [OF assms(3,4)] by blast
  have c: "0 < c" "fl c = Fin c" using sync_fetch_price [OF assms(1)] assms(2) by (auto simp: f64_ok_def)
  obtain u where u: "fl (1 + q) = Fin u" "1 \<le> u" using fl_range [of 1 2 "1 + q"] q by auto
  obtain v where v: "fl (1 - q) = Fin v" "0 \<le> v" "v \<le> 1" using fl_range [of 0 1 "1 - q"] q by auto
  have "Fin c \<le> fl (c * u)" using fl_mono [of c "c * u"] c u by simp
  moreover have "Fin 0 \<le> fl (c * v)" using c v by (simp add: fl_nonneg)
  moreover have "fl (c * v) \<le> Fin c" using fl_mono [of "c * v" c] c v by (simp add: mult_left_le)
  ultimately show ?thesis
    using assms(1,2) q u v c by (simp add: resolve_market_price_def slipped_def Let_def feq_def)
qed

theorem paper_slippage_adverse_witness:
  "\<exists>x. resolve_market_price sample_latest sample_order (paper_init ''bybit'' 5 (\<lambda>i. ''p'') (\<lambda>i. 0)) =
     (Inr x, paper_init ''bybit'' 5 (\<lambda>i. ''p'') (\<lambda>i. 0)) \<and> Fin 100 \<le> x"
proof -
  have f: "py_float ''100'' = Some (Fin 100)" by code_simp
  have "sync_fetch sample_latest (price_streams ''bybit'' ''BTCUSDT'') = Inr (Fin 100)"
    by (simp add: sample_latest_def price_streams_def field_price_def f)
  then show ?thesis
    using paper_slippage_adverse [of sample_latest "paper_init ''bybit'' 5 (\<lambda>i. ''p'') (\<lambda>i. 0)" sample_order 100]
    by (simp add: paper_init_def sample_order_def)
qed

text \<open>
  With no usable entry in either stream a market order is still filled, at the price zero; the doc
  string promises a fallback to the tick stream.
\<close>

theorem paper_fill_without_price:
  assumes "or_order_type (fst t) = ''market''"
    and "\<forall>k. latest k = Inr []"
  shows "\<exists>now. pp_fills (fst (simulate_fill latest g t (p, s))) = pp_fills p @ [fill_of p (fst t) (snd t) (Fin 0) now]"
  using assms by (auto simp: simulate_fill_def resolve_market_price_def price_streams_def paper_now_def Let_def feq_def
      fill_of_def split: prod.splits sum.splits)

end
