(* ===== verification/Questdb.thy ===== *)
theory Questdb
  imports Json
begin

text \<open>
  What the services do with an answer of the database's HTTP endpoint: the columns and the rows of the
  JSON body, zipped into dictionaries. A name that is not a string counts as a malformed answer. The
  operations \<open>x[0]\<close> and \<open>key in x\<close> on JSON values are here too.
\<close>

definition jfirst :: "json \<Rightarrow> json res" where
  "jfirst j = (case j of
       JList xs \<Rightarrow> (case xs of [] \<Rightarrow> Inl IndexError | x # _ \<Rightarrow> Inr x)
     | JStr s \<Rightarrow> (case s of [] \<Rightarrow> Inl IndexError | c # _ \<Rightarrow> Inr (JStr [c]))
     | JObj d \<Rightarrow> Inl KeyError
     | _ \<Rightarrow> Inl TypeError)"

definition jin :: "string \<Rightarrow> json \<Rightarrow> bool res" where
  "jin k j = (case j of
       JObj d \<Rightarrow> Inr (k \<in> set (dkeys d))
     | JList xs \<Rightarrow> Inr (JStr k \<in> set xs)
     | JStr s \<Rightarrow> Inr (\<exists>i \<le> length s. starts_with k (drop i s))
     | _ \<Rightarrow> Inl TypeError)"

definition jname :: "json \<Rightarrow> string res" where
  "jname c = rbind (jitem c ''name'') (\<lambda>n. case n of JStr s \<Rightarrow> Inr s | _ \<Rightarrow> Inl TypeError)"

definition column_names :: "json \<Rightarrow> string list res" where
  "column_names cols = rbind (jiter cols) (rmap jname)"

definition zip_row :: "string list \<Rightarrow> json list \<Rightarrow> (string, json) dict" where
  "zip_row cols row = fold (\<lambda>(k, v) d. dset k v d) (zip cols row) []"

definition dataset_rows :: "json \<Rightarrow> (string, json) dict list res" where
  "dataset_rows data =
     rbind (jget data ''columns'' (JList [])) (\<lambda>cs. rbind (column_names cs) (\<lambda>cols.
     rbind (jget data ''dataset'' (JList [])) (\<lambda>ds. rbind (jiter ds) (\<lambda>rows.
       rmap (\<lambda>row. rbind (jiter row) (\<lambda>vs. Inr (zip_row cols vs))) rows))))"

lemma map_of_fold_dset: "map_of (fold (\<lambda>(k, v) d. dset k v d) kvs d) = map_of d ++ map_of (rev kvs)"
  by (induction kvs arbitrary: d) (auto simp: map_add_def fun_eq_iff split: option.splits)

lemma zip_row_lookup: "distinct cols \<Longrightarrow> map_of (zip_row cols row) = map_of (zip cols row)"
proof -
  assume "distinct cols"
  then have "distinct (map fst (zip cols row))" by (simp add: map_fst_zip_take)
  then have "map_of (rev (zip cols row)) = map_of (zip cols row)"
    by (intro map_of_inject_set [THEN iffD2]) (simp_all flip: rev_map)
  then show ?thesis by (simp add: zip_row_def map_of_fold_dset)
qed

end
