(* ===== verification/Funding.thy ===== *)
theory Funding
  imports Rest Questdb
begin

text \<open>
  The funding rate poller (\<open>exchange/funding_poller.py\<close>) and the setting that names its symbols
  (\<open>main.py\<close>, \<open>_parse_funding_symbols\<close>). Each round fetches the rate of every configured pair and
  appends it to the stream \<open>funding:{exchange}:{symbol}\<close>, from which the bus parses it back. The answers
  of the exchanges and of the stream store are streams of outcomes; the text of a float is the
  argument \<open>fr\<close>.
\<close>

section \<open>State\<close>

record poller =
  fp_outcome :: "nat \<Rightarrow> http_outcome"
  fp_stored :: "nat \<Rightarrow> unit res"             \<comment> \<open>the answer to the n-th append\<close>
  fp_clock :: "nat \<Rightarrow> int"
  fp_appends :: nat
  fp_requests :: "(string \<times> (string, string) dict) list"
  fp_added :: "(string \<times> entry) list"
  fp_warned :: "(string \<times> string) list"

definition poller_init :: "(nat \<Rightarrow> http_outcome) \<Rightarrow> (nat \<Rightarrow> unit res) \<Rightarrow> (nat \<Rightarrow> int) \<Rightarrow> poller" where
  "poller_init outcome stored clock = \<lparr>fp_outcome = outcome, fp_stored = stored, fp_clock = clock,
     fp_appends = 0, fp_requests = [], fp_added = [], fp_warned = []\<rparr>"

section \<open>Fetching\<close>

text \<open>\<open>client.get\<close>, \<open>raise_for_status\<close> and \<open>resp.json()\<close>.\<close>

definition get_json :: "string \<Rightarrow> (string, string) dict \<Rightarrow> poller \<Rightarrow> json res \<times> poller" where
  "get_json url params w =
     ((case fp_outcome w (length (fp_requests w)) of
         HttpError t \<Rightarrow> Inl HTTPError
       | HttpRaise e \<Rightarrow> Inl e
       | HttpResp status body \<Rightarrow> if 200 \<le> status \<and> status < 300 then body else Inl HTTPError),
      w\<lparr>fp_requests := fp_requests w @ [(url, params)]\<rparr>)"

definition bybit_rate :: "json \<Rightarrow> (f64 \<times> int) res" where
  "bybit_rate data =
     rbind (jget data ''result'' (JObj [])) (\<lambda>result.
     rbind (jget result ''list'' (JList [])) (\<lambda>items.
       if \<not> jtruthy items then Inl ValueError
       else rbind (jfirst items) (\<lambda>item.
            rbind (rbind (jitem item ''fundingRate'') jfloat) (\<lambda>rate.
            rbind (rbind (jitem item ''nextFundingTime'') jint) (\<lambda>nxt. Inr (rate, nxt))))))"

definition fetch_bybit :: "string \<Rightarrow> poller \<Rightarrow> (f64 \<times> int) res \<times> poller" where
  "fetch_bybit symbol w =
     (case get_json ''https://api.bybit.com/v5/market/tickers'' [(''category'', ''linear''), (''symbol'', symbol)] w of
        (r, w1) \<Rightarrow> (rbind r bybit_rate, w1))"

definition kucoin_rate :: "(json \<Rightarrow> string) \<Rightarrow> json \<Rightarrow> (f64 \<times> int) res" where
  "kucoin_rate other data =
     rbind (jget data ''code'' (JStr ''200000'')) (\<lambda>code.
       if jstr other code \<noteq> ''200000'' then Inl ValueError
       else rbind (jget data ''data'' JNull) (\<lambda>d.
            let item = (if jtruthy d then d else JObj []) in
            rbind (rbind (jitem item ''value'') jfloat) (\<lambda>rate.
            rbind (rbind (jitem item ''granularity'') jint) (\<lambda>granularity.
            rbind (rbind (jitem item ''timePoint'') jint) (\<lambda>time_point.
              Inr (rate, time_point + granularity))))))"

definition fetch_kucoin :: "(json \<Rightarrow> string) \<Rightarrow> string \<Rightarrow> poller \<Rightarrow> (f64 \<times> int) res \<times> poller" where
  "fetch_kucoin other symbol w =
     (case get_json (''https://api-futures.kucoin.com/api/v1/funding-rate/'' @ symbol @ ''/current'') [] w of
        (r, w1) \<Rightarrow> (rbind r (kucoin_rate other), w1))"

definition fetcher :: "(json \<Rightarrow> string) \<Rightarrow> string \<Rightarrow> (string \<Rightarrow> poller \<Rightarrow> (f64 \<times> int) res \<times> poller) option" where
  "fetcher other ex = (if ex = ''bybit'' then Some fetch_bybit
     else if ex = ''kucoin'' then Some (fetch_kucoin other) else None)"

section \<open>Publishing and the loop\<close>

definition funding_entry :: "(f64 \<Rightarrow> string) \<Rightarrow> int \<Rightarrow> f64 \<Rightarrow> int \<Rightarrow> entry" where
  "funding_entry fr now rate nxt = [(''ts'', int_str now), (''funding_rate'', fr rate), (''next_funding_ts'', int_str nxt)]"

definition publish :: "(f64 \<Rightarrow> string) \<Rightarrow> string \<Rightarrow> string \<Rightarrow> f64 \<Rightarrow> int \<Rightarrow> poller \<Rightarrow> unit res \<times> poller" where
  "publish fr ex symbol rate nxt w =
     (let n = fp_appends w; w1 = w\<lparr>fp_appends := Suc n\<rparr>;
          e = funding_entry fr (fp_clock w n) rate nxt
      in case fp_stored w n of
           Inl x \<Rightarrow> (Inl x, w1)
         | Inr _ \<Rightarrow> (Inr (), w1\<lparr>fp_added := fp_added w1 @ [(''funding:'' @ ex @ '':'' @ symbol, e)]\<rparr>))"

definition poll_symbol :: "(f64 \<Rightarrow> string) \<Rightarrow> (json \<Rightarrow> string) \<Rightarrow> string \<times> string \<Rightarrow> poller \<Rightarrow> poller" where
  "poll_symbol fr other pair w =
     (let (ex, symbol) = pair; warn = (\<lambda>w. w\<lparr>fp_warned := fp_warned w @ [pair]\<rparr>) in
      case fetcher other ex of
        None \<Rightarrow> warn w
      | Some fetch \<Rightarrow>
          (case fetch symbol w of
             (Inl e, w1) \<Rightarrow> warn w1
           | (Inr (rate, nxt), w1) \<Rightarrow>
               (case publish fr ex symbol rate nxt w1 of (Inl e, w2) \<Rightarrow> warn w2 | (Inr _, w2) \<Rightarrow> w2)))"

definition poll_round :: "(f64 \<Rightarrow> string) \<Rightarrow> (json \<Rightarrow> string) \<Rightarrow> (string \<times> string) list \<Rightarrow> poller \<Rightarrow> poller" where
  "poll_round fr other symbols w = fold (poll_symbol fr other) symbols w"

text \<open>The state after the first \<open>n\<close> rounds of the endless loop.\<close>

definition poll_rounds :: "(f64 \<Rightarrow> string) \<Rightarrow> (json \<Rightarrow> string) \<Rightarrow> (string \<times> string) list \<Rightarrow> nat \<Rightarrow> poller \<Rightarrow> poller" where
  "poll_rounds fr other symbols n w = (poll_round fr other symbols ^^ n) w"

section \<open>Failures are contained\<close>

lemma fetch_fields:
  assumes "fetcher other ex = Some fetch"
  shows "\<exists>r u. fetch sy w = (r, w\<lparr>fp_requests := fp_requests w @ [u]\<rparr>)"
proof -
  have b: "\<exists>r u. fetch_bybit sy w = (r, w\<lparr>fp_requests := fp_requests w @ [u]\<rparr>)"
    unfolding fetch_bybit_def get_json_def by (intro exI) simp
  have k: "\<exists>r u. fetch_kucoin other sy w = (r, w\<lparr>fp_requests := fp_requests w @ [u]\<rparr>)"
    unfolding fetch_kucoin_def get_json_def by (intro exI) simp
  show ?thesis using assms b k by (auto simp only: fetcher_def option.inject split: if_splits)
qed

lemma publish_fields:
  "publish fr ex sy rate nxt w = (r, w') \<Longrightarrow> fp_requests w' = fp_requests w \<and> fp_warned w' = fp_warned w \<and>
     fp_appends w' = Suc (fp_appends w) \<and>
     (case r of Inl _ \<Rightarrow> fp_added w' = fp_added w
      | Inr _ \<Rightarrow> \<exists>e. fp_added w' = fp_added w @ [(''funding:'' @ ex @ '':'' @ sy, e)])"
  by (auto simp: publish_def Let_def split: sum.splits)

definition known_pair :: "string \<times> string \<Rightarrow> bool" where
  "known_pair pair \<longleftrightarrow> fst pair \<in> {''bybit'', ''kucoin''}"

definition key_of_pair :: "string \<times> string \<Rightarrow> string" where
  "key_of_pair pair = ''funding:'' @ fst pair @ '':'' @ snd pair"

lemma poll_symbol_cases:
  "length (fp_requests (poll_symbol fr other pair w)) = length (fp_requests w) + (if known_pair pair then 1 else 0) \<and>
   (map fst (fp_added (poll_symbol fr other pair w)) = map fst (fp_added w) @ [key_of_pair pair] \<and>
      fp_warned (poll_symbol fr other pair w) = fp_warned w \<and> known_pair pair \<or>
    map fst (fp_added (poll_symbol fr other pair w)) = map fst (fp_added w) \<and>
      fp_warned (poll_symbol fr other pair w) = fp_warned w @ [pair])"
proof (cases "fetcher other (fst pair)")
  case None
  then show ?thesis
    by (auto simp: poll_symbol_def fetcher_def known_pair_def Let_def split: if_splits prod.splits)
next
  case (Some fetch)
  then have k: "known_pair pair" by (auto simp: fetcher_def known_pair_def split: if_splits)
  obtain r u where f: "fetch (snd pair) w = (r, w\<lparr>fp_requests := fp_requests w @ [u]\<rparr>)"
    using fetch_fields [OF Some] by metis
  show ?thesis
  proof (cases r)
    case (Inl e)
    then show ?thesis using f Some k by (simp add: poll_symbol_def Let_def case_prod_beta)
  next
    case (Inr x)
    obtain q w2 where p: "publish fr (fst pair) (snd pair) (fst x) (snd x) (w\<lparr>fp_requests := fp_requests w @ [u]\<rparr>) = (q, w2)"
      by fastforce
    show ?thesis using publish_fields [OF p] p f Some Inr k
      by (cases q) (auto simp: poll_symbol_def Let_def case_prod_beta key_of_pair_def)
  qed
qed

text \<open>
  One bad symbol does not stop the others: in every round, whatever the exchanges and the stream
  store answer, each configured pair of a known exchange is requested exactly once, and each
  configured pair either has an entry appended to its own stream or is logged, never both.
\<close>

theorem poll_round_serves_every_symbol:
  "length (fp_requests (poll_round fr other symbols w)) =
     length (fp_requests w) + length (filter known_pair symbols) \<and>
   (\<exists>ok. length ok = length symbols \<and> (\<forall>i<length symbols. ok ! i \<longrightarrow> known_pair (symbols ! i)) \<and>
      map fst (fp_added (poll_round fr other symbols w)) =
        map fst (fp_added w) @ map (key_of_pair \<circ> fst) (filter snd (zip symbols ok)) \<and>
      fp_warned (poll_round fr other symbols w) =
        fp_warned w @ map fst (filter (Not \<circ> snd) (zip symbols ok)))"
proof (induction symbols arbitrary: w)
  case Nil
  then show ?case by (simp add: poll_round_def)
next
  case (Cons pair symbols)
  let ?w = "poll_symbol fr other pair w"
  have r: "poll_round fr other (pair # symbols) w = poll_round fr other symbols ?w" by (simp add: poll_round_def)
  obtain ok where ok: "length ok = length symbols" "\<forall>i<length symbols. ok ! i \<longrightarrow> known_pair (symbols ! i)"
      "map fst (fp_added (poll_round fr other symbols ?w)) =
        map fst (fp_added ?w) @ map (key_of_pair \<circ> fst) (filter snd (zip symbols ok))"
      "fp_warned (poll_round fr other symbols ?w) =
        fp_warned ?w @ map fst (filter (Not \<circ> snd) (zip symbols ok))"
    using Cons.IH [of ?w] by blast
  have n: "length (fp_requests (poll_round fr other symbols ?w)) =
      length (fp_requests ?w) + length (filter known_pair symbols)"
    using Cons.IH [of ?w] by blast
  define b where "b \<longleftrightarrow> fp_warned ?w = fp_warned w"
  have "length (b # ok) = length (pair # symbols)" using ok by simp
  moreover have "\<forall>i<length (pair # symbols). (b # ok) ! i \<longrightarrow> known_pair ((pair # symbols) ! i)"
    using ok(2) poll_symbol_cases [of fr other pair w] by (auto simp: b_def nth_Cons split: nat.splits)
  moreover have "map fst (fp_added (poll_round fr other (pair # symbols) w)) =
        map fst (fp_added w) @ map (key_of_pair \<circ> fst) (filter snd (zip (pair # symbols) (b # ok)))"
    using ok(3) poll_symbol_cases [of fr other pair w] by (auto simp: r b_def)
  moreover have "fp_warned (poll_round fr other (pair # symbols) w) =
        fp_warned w @ map fst (filter (Not \<circ> snd) (zip (pair # symbols) (b # ok)))"
    using ok(4) poll_symbol_cases [of fr other pair w] by (auto simp: r b_def)
  moreover have "length (fp_requests (poll_round fr other (pair # symbols) w)) =
     length (fp_requests w) + length (filter known_pair (pair # symbols))"
    using n poll_symbol_cases [of fr other pair w] by (auto simp: r)
  ultimately show ?case by blast
qed


section \<open>The stream entry is read back by the bus\<close>

text \<open>
  C26. What the poller appends is what the bus reads: when the names hold no colon and the text of the rate
  denotes the rate, the entry parses without a warning into a funding event with the pair's exchange and symbol,
  the time of the append, the fetched rate and the next funding time.
\<close>

theorem funding_entry_roundtrip:
  assumes "CHR '':'' \<notin> set ex" "CHR '':'' \<notin> set sy" "py_float (fr rate) = Some rate"
    and "publish fr ex sy rate nxt w = (Inr (), w')"
  shows "\<exists>e. fp_added w' = fp_added w @ [(''funding:'' @ ex @ '':'' @ sy, e)] \<and>
    parse_stream_entry (''funding:'' @ ex @ '':'' @ sy) e =
      (Some (EFundingRate \<lparr>fr_exchange = ex, fr_symbol = sy, fr_ts = fp_clock w (fp_appends w),
         fr_funding_rate = rate, fr_next_funding_ts = nxt\<rparr>), False)"
proof -
  have k: "split_on (CHR '':'') (ex @ CHR '':'' # sy) = [ex, sy]"
    using split_on_append [OF assms(1), of sy] split_on_plain [OF assms(2)] by simp
  show ?thesis using assms(3,4)
    by (auto simp: publish_def Let_def funding_entry_def parse_stream_entry_def starts_with_def
        parse_funding_rate_def k part_def fld_int_def fld_float_def fld_def py_int_int_str split: sum.splits)
qed

theorem funding_entry_roundtrip_witness:
  "\<exists>e. fst (parse_stream_entry ''funding:bybit:BTCUSDT'' e) = Some (EFundingRate
     \<lparr>fr_exchange = ''bybit'', fr_symbol = ''BTCUSDT'', fr_ts = 7, fr_funding_rate = Fin (1/2), fr_next_funding_ts = 9\<rparr>)"
proof -
  have f: "py_float ''0.5'' = Some (Fin (1/2))" by code_simp
  let ?w = "poller_init (\<lambda>n. HttpError []) (\<lambda>n. Inr ()) (\<lambda>n. 7)"
  obtain w' where "publish (\<lambda>x. ''0.5'') ''bybit'' ''BTCUSDT'' (Fin (1/2)) 9 ?w = (Inr (), w')"
    by (simp add: publish_def Let_def poller_init_def)
  from funding_entry_roundtrip [OF _ _ f this] obtain e where
    "parse_stream_entry (''funding:'' @ ''bybit'' @ '':'' @ ''BTCUSDT'') e = (Some (EFundingRate
     \<lparr>fr_exchange = ''bybit'', fr_symbol = ''BTCUSDT'', fr_ts = 7, fr_funding_rate = Fin (1/2), fr_next_funding_ts = 9\<rparr>), False)"
    by (auto simp: poller_init_def)
  then show ?thesis by (intro exI [of _ e]) simp
qed

section \<open>The setting\<close>

definition split_once :: "char \<Rightarrow> string \<Rightarrow> string \<times> string" where
  "split_once c s = (takeWhile (\<lambda>x. x \<noteq> c) s, tl (dropWhile (\<lambda>x. x \<noteq> c) s))"

definition parse_funding_part :: "string \<Rightarrow> (string \<times> string) list" where
  "parse_funding_part raw =
     (let p = strip raw in
      if p = [] \<or> CHR '':'' \<notin> set p then []
      else let (ex, sy) = split_once (CHR '':'') p; ex' = strip ex; sy' = strip sy in
           if ex' = [] \<or> sy' = [] then [] else [(ex', sy')])"

definition parse_funding_symbols :: "string \<Rightarrow> (string \<times> string) list" where
  "parse_funding_symbols raw = concat (map parse_funding_part (split_on (CHR '','') raw))"

definition tidy :: "string \<Rightarrow> bool" where
  "tidy s \<longleftrightarrow> s \<noteq> [] \<and> \<not> is_space (hd s) \<and> \<not> is_space (last s) \<and> CHR '','' \<notin> set s"

lemma strip_tidy: "tidy s \<Longrightarrow> strip s = s"
proof -
  assume t: "tidy s"
  have "dropWhile is_space s = s" using t by (cases s) (auto simp: tidy_def)
  moreover have "dropWhile is_space (rev s) = rev s"
    using t by (cases s rule: rev_cases) (auto simp: tidy_def)
  ultimately show ?thesis by (simp add: strip_def)
qed

lemma split_on_join:
  "parts \<noteq> [] \<Longrightarrow> \<forall>p\<in>set parts. c \<notin> set p \<Longrightarrow> split_on c (join [c] parts) = parts"
  by (induction "[c]" parts rule: join.induct) (simp_all add: split_on_plain split_on_append)

definition funding_part :: "string \<times> string \<Rightarrow> string" where
  "funding_part pair = fst pair @ '':'' @ snd pair"

lemma parse_funding_part:
  assumes "tidy ex" "tidy sy" "CHR '':'' \<notin> set ex"
  shows "parse_funding_part (funding_part (ex, sy)) = [(ex, sy)]"
proof -
  have "tidy (ex @ '':'' @ sy)" using assms by (auto simp: tidy_def)
  moreover have "split_once (CHR '':'') (ex @ '':'' @ sy) = (ex, sy)"
    using assms(3) by (induction ex) (auto simp: split_once_def)
  moreover have "ex \<noteq> []" "sy \<noteq> []" using assms by (auto simp: tidy_def)
  ultimately show ?thesis
    using assms by (simp add: parse_funding_part_def funding_part_def strip_tidy Let_def)
qed

text \<open>
  The setting that lists the polled pairs is read back exactly: the comma-separated text of any list
  of trimmed, comma-free pairs whose exchange holds no colon parses to that list, in order, repeated
  pairs included.
\<close>

theorem funding_symbols_roundtrip:
  assumes "\<forall>(ex, sy)\<in>set pairs. tidy ex \<and> tidy sy \<and> CHR '':'' \<notin> set ex"
  shows "parse_funding_symbols (join '','' (map funding_part pairs)) = pairs"
proof (cases "pairs = []")
  case True
  then show ?thesis by (simp add: parse_funding_symbols_def parse_funding_part_def strip_def)
next
  case False
  have "\<forall>p\<in>set (map funding_part pairs). CHR '','' \<notin> set p"
    using assms by (auto simp: funding_part_def tidy_def)
  then have "split_on (CHR '','') (join '','' (map funding_part pairs)) = map funding_part pairs"
    using False by (intro split_on_join) auto
  moreover have "concat (map parse_funding_part (map funding_part ps)) = ps"
    if "\<forall>(ex, sy)\<in>set ps. tidy ex \<and> tidy sy \<and> CHR '':'' \<notin> set ex" for ps
    using that by (induction ps) (auto simp: parse_funding_part)
  ultimately show ?thesis using assms by (simp add: parse_funding_symbols_def)
qed

theorem funding_symbols_roundtrip_witness:
  "parse_funding_symbols ''bybit:BTCUSDT,kucoin:XBTUSDTM'' = [(''bybit'', ''BTCUSDT''), (''kucoin'', ''XBTUSDTM'')]"
  using funding_symbols_roundtrip [of "[(''bybit'', ''BTCUSDT''), (''kucoin'', ''XBTUSDTM'')]"]
  by (simp add: funding_part_def tidy_def is_space_def)

end
