(* ===== verification/Service_Api.thy ===== *)
theory Service_Api
  imports Registry Backtest Funding
begin

text \<open>
  The service process (\<open>main.py\<close>): startup and teardown, the health report, and the HTTP operations that run
  backtests and validations in background tasks and query their results. An HTTP error is a value. The
  file system, the database and the backtest itself are arguments; what a task writes to the
  database is a trace. The tables of results are the code's two OrderedDicts, kept as dictionaries in
  insertion order.
\<close>

section \<open>Tables of results\<close>

datatype 'r run_state = RunRunning | RunDone 'r | RunFailed exn

type_synonym 'r table = "(string, 'r run_state) dict"

function evict :: "nat \<Rightarrow> ('k, 'v) dict \<Rightarrow> ('k, 'v) dict" where
  "evict cap d = (if cap < length d then evict cap (tl d) else d)"
  by pat_completeness auto
termination by (relation "measure (\<lambda>(cap, d). length d)") auto

declare evict.simps [simp del]

definition put_capped :: "nat \<Rightarrow> string \<Rightarrow> 'v \<Rightarrow> (string, 'v) dict \<Rightarrow> (string, 'v) dict" where
  "put_capped cap run_id v d = evict cap (dset run_id v d)"

definition backtest_results_max :: nat where "backtest_results_max = 500"

definition validate_results_max :: nat where "validate_results_max = 50"

section \<open>Strategy files\<close>

datatype http_error = BadRequest | NotFound

type_synonym path = "string list"

record files =
  fs_resolve :: "path \<Rightarrow> path"
  fs_exists :: "path \<Rightarrow> bool"
  fs_read :: "path \<Rightarrow> string res"

fun find_strategy :: "files \<Rightarrow> string \<Rightarrow> path list \<Rightarrow> http_error + path" where
  "find_strategy fs name [] = Inl NotFound"
| "find_strategy fs name (dir # dirs) =
     (let candidate = fs_resolve fs (dir @ [name @ ''.py'']) in
      if take (length dir) candidate \<noteq> dir then Inl BadRequest
      else if fs_exists fs candidate then Inr candidate
      else find_strategy fs name dirs)"

definition resolve_strategy :: "files \<Rightarrow> path \<Rightarrow> path \<Rightarrow> string \<Rightarrow> http_error + path" where
  "resolve_strategy fs active inactive name =
     (if \<not> ident_ok name then Inl BadRequest
      else find_strategy fs name [fs_resolve fs active, fs_resolve fs inactive])"

record listed_strategy =
  ls_name :: string
  ls_hash :: string
  ls_code :: string
  ls_folder :: string

text \<open>
  A directory is None when it does not exist, else its Python files in order: stem and what reading
  and hashing give.
\<close>

definition list_folder :: "string \<Rightarrow> (string \<times> (string \<times> string) res) list option \<Rightarrow> listed_strategy list" where
  "list_folder folder dir =
     (case dir of None \<Rightarrow> []
      | Some py_files \<Rightarrow> concat (map (\<lambda>(stem, r). case r of Inl e \<Rightarrow> []
          | Inr (code, h) \<Rightarrow> [\<lparr>ls_name = stem, ls_hash = h, ls_code = code, ls_folder = folder\<rparr>]) py_files))"

definition list_strategies ::
  "(string \<times> (string \<times> string) res) list option \<Rightarrow> (string \<times> (string \<times> string) res) list option \<Rightarrow> listed_strategy list"
  where "list_strategies active inactive = list_folder ''active'' active @ list_folder ''inactive'' inactive"

section \<open>Backtests\<close>

record backtest_result =
  br_strategy_name :: string
  br_hash :: string
  br_metrics :: bt_metrics
  br_equity_curve :: "(string \<times> f64) list"
  br_equity_curve_points :: nat

datatype ilp_write = WSnapshot string string string | WRun backtest_result | WEquity backtest_result

definition snapshot_query :: "string \<Rightarrow> string \<Rightarrow> string" where
  "snapshot_query name h = ''SELECT count() FROM strategy_snapshots WHERE strategy_name = '' @ [CHR 0x27] @ name @
     [CHR 0x27] @ '' AND hash = '' @ [CHR 0x27] @ h @ [CHR 0x27]"

definition jpositive :: "json \<Rightarrow> bool res" where
  "jpositive j = (case j of JInt i \<Rightarrow> Inr (0 < i) | JFloat x \<Rightarrow> Inr (x > Fin 0) | JBool b \<Rightarrow> Inr b | _ \<Rightarrow> Inl TypeError)"

definition snapshot_exists :: "(string \<Rightarrow> json res) \<Rightarrow> string \<Rightarrow> string \<Rightarrow> bool" where
  "snapshot_exists db name h =
     (case rbind (db (snapshot_query name h)) (\<lambda>data. rbind (jget data ''dataset'' (JList [])) (\<lambda>rows.
             if jtruthy rows then rbind (jfirst rows) (\<lambda>r. rbind (jfirst r) jpositive) else Inr False)) of
        Inl _ \<Rightarrow> False | Inr b \<Rightarrow> b)"

text \<open>The writes in order, until one fails.\<close>

fun write_all :: "(ilp_write \<Rightarrow> unit res) \<Rightarrow> ilp_write list \<Rightarrow> unit res \<times> ilp_write list" where
  "write_all store [] = (Inr (), [])"
| "write_all store (x # xs) =
     (case store x of Inl e \<Rightarrow> (Inl e, [])
      | Inr _ \<Rightarrow> (case write_all store xs of (r, done) \<Rightarrow> (r, x # done)))"

function stride :: "nat \<Rightarrow> 'a list \<Rightarrow> 'a list" where
  "stride k [] = []"
| "stride k (x # xs) = x # stride k (drop (k - 1) xs)"
  by pat_completeness auto
termination by (relation "measure (\<lambda>(k, xs). length xs)") auto

definition downsample :: "'a list \<Rightarrow> 'a list" where
  "downsample ec = (if 2000 < length ec then stride (max 1 (length ec div 2000)) ec else ec)"

definition task_writes :: "bool \<Rightarrow> backtest_result \<Rightarrow> string \<Rightarrow> ilp_write list" where
  "task_writes known r code =
     (if known then [] else [WSnapshot (br_strategy_name r) (br_hash r) code]) @ [WRun r] @
     (if br_equity_curve r \<noteq> [] then [WEquity r] else [])"

definition task_result :: "backtest_result \<Rightarrow> backtest_result" where
  "task_result r = r\<lparr>br_equity_curve := downsample (br_equity_curve r),
                      br_equity_curve_points := length (br_equity_curve r)\<rparr>"

record api =
  ap_results :: "backtest_result table"
  ap_tasks :: "string set"
  ap_validate_results :: "validation table"
  ap_validate_tasks :: "string set"

definition api_init :: api where
  "api_init = \<lparr>ap_results = [], ap_tasks = {}, ap_validate_results = [], ap_validate_tasks = {}\<rparr>"

definition put_result :: "string \<Rightarrow> backtest_result run_state \<Rightarrow> api \<Rightarrow> api" where
  "put_result run_id v a = a\<lparr>ap_results := put_capped backtest_results_max run_id v (ap_results a)\<rparr>"

definition put_validate_result :: "string \<Rightarrow> validation run_state \<Rightarrow> api \<Rightarrow> api" where
  "put_validate_result run_id v a =
     a\<lparr>ap_validate_results := put_capped validate_results_max run_id v (ap_validate_results a)\<rparr>"

definition backtest_run :: "files \<Rightarrow> path \<Rightarrow> path \<Rightarrow> string \<Rightarrow> string \<Rightarrow> api \<Rightarrow> (http_error + string) \<times> api" where
  "backtest_run fs active inactive name run_id a =
     (case resolve_strategy fs active inactive name of
        Inl e \<Rightarrow> (Inl e, a)
      | Inr p \<Rightarrow>
          (case fs_read fs p of Inl e \<Rightarrow> (Inl NotFound, a)
           | Inr bytes \<Rightarrow> (Inr run_id,
               (put_result run_id RunRunning a)\<lparr>ap_tasks := insert run_id (ap_tasks a)\<rparr>)))"

text \<open>The background task: the outcome of the run, of decoding the file, and of each write.\<close>

definition run_backtest_task ::
  "backtest_result res \<Rightarrow> string res \<Rightarrow> (string \<Rightarrow> json res) \<Rightarrow> (ilp_write \<Rightarrow> unit res) \<Rightarrow> string \<Rightarrow> api \<Rightarrow> ilp_write list \<times> api" where
  "run_backtest_task outcome decoded db store run_id a =
     (let (r, done) = (case rbind outcome (\<lambda>r. rbind decoded (\<lambda>code. Inr (r, code))) of
            Inl e \<Rightarrow> (Inl e, [])
          | Inr (r, code) \<Rightarrow>
              (case write_all store (task_writes (snapshot_exists db (br_strategy_name r) (br_hash r)) r code) of
                 (Inl e, done) \<Rightarrow> (Inl e, done) | (Inr _, done) \<Rightarrow> (Inr (task_result r), done)));
          a1 = put_result run_id (case r of Inl e \<Rightarrow> RunFailed e | Inr x \<Rightarrow> RunDone x) a
      in (done, a1\<lparr>ap_tasks := ap_tasks a1 - {run_id}\<rparr>))"

definition backtest_status :: "string \<Rightarrow> api \<Rightarrow> http_error + (string \<times> backtest_result run_state)" where
  "backtest_status run_id a =
     (case map_of (ap_results a) run_id of None \<Rightarrow> Inl NotFound | Some v \<Rightarrow> Inr (run_id, v))"

section \<open>Queries\<close>

definition symbols_query :: "string option \<Rightarrow> string" where
  "symbols_query ex =
     ''SELECT exchange, symbol, min(ts) as min_ts, max(ts) as max_ts, count() as row_count FROM snapshot_1s'' @
     (case ex of None \<Rightarrow> [] | Some e \<Rightarrow> if e = [] then [] else '' WHERE exchange = '' @ [CHR 0x27] @ e @ [CHR 0x27]) @
     '' GROUP BY exchange, symbol ORDER BY exchange, symbol''"

definition available_symbols :: "(string \<Rightarrow> json res) \<Rightarrow> string option \<Rightarrow> http_error + (string, json) dict list" where
  "available_symbols db ex =
     (if (\<exists>e. ex = Some e \<and> \<not> ident_ok e) then Inl BadRequest
      else case rbind (db (symbols_query ex)) (\<lambda>data. rbind (jin ''error'' data) (\<lambda>bad.
                  if bad then Inr [] else dataset_rows data)) of
             Inl _ \<Rightarrow> Inr [] | Inr rows \<Rightarrow> Inr rows)"

definition given :: "string option \<Rightarrow> bool" where
  "given x \<longleftrightarrow> x \<noteq> None \<and> x \<noteq> Some []"

definition eq_clause :: "string \<Rightarrow> string option \<Rightarrow> string list" where
  "eq_clause col x = (case x of None \<Rightarrow> [] | Some v \<Rightarrow> if v = [] then [] else [col @ '' = '' @ [CHR 0x27] @ v @ [CHR 0x27]])"

definition runs_query :: "string option \<Rightarrow> string option \<Rightarrow> int \<Rightarrow> string" where
  "runs_query name h limit =
     (let clauses = eq_clause ''strategy_name'' name @ eq_clause ''hash'' h in
      ''SELECT * FROM backtest_runs'' @ (if clauses = [] then [] else '' WHERE '' @ join '' AND '' clauses) @
      '' ORDER BY run_at DESC LIMIT '' @ int_str limit)"

definition backtest_runs ::
  "(string \<Rightarrow> json res) \<Rightarrow> string option \<Rightarrow> string option \<Rightarrow> int \<Rightarrow> http_error + (string, json) dict list" where
  "backtest_runs db name h limit =
     (if given name \<and> \<not> ident_ok (the name) \<or> given h \<and> \<not> ident_ok (the h) then Inl BadRequest
      else case rbind (db (runs_query name h limit)) dataset_rows of Inl _ \<Rightarrow> Inr [] | Inr rows \<Rightarrow> Inr rows)"

section \<open>Validation runs\<close>

text \<open>Binding keyword arguments to a signature without catch-all for the required ones.\<close>

definition bind_keywords :: "string list \<Rightarrow> string list \<Rightarrow> unit res" where
  "bind_keywords required passed = (if set required \<subseteq> set passed then Inr () else Inl TypeError)"

definition feed_required :: "string list" where
  "feed_required = [''questdb_http_addr'', ''exchange'', ''symbol'', ''start'', ''end'']"

definition feed_passed :: "string list" where
  "feed_passed = [''questdb_http_addr'', ''symbol'', ''exchange'', ''start_date'', ''end_date'', ''tf'']"

record validate_request =
  vr_n_splits :: int
  vr_min_sharpe :: f64
  vr_max_drawdown_threshold :: f64
  vr_max_degradation :: f64
  vr_stress_max_drawdown_threshold :: f64
  vr_stress_windows :: "(string \<times> int \<times> int) list"

text \<open>
  \<open>loaded\<close> is the strategy class found in the file, as the broker's runs of it; \<open>monte_carlo\<close> is the bootstrap.
\<close>

definition run_validate_sync ::
  "(feed_row list \<Rightarrow> f64 \<times> f64 \<times> f64) res \<Rightarrow> (feed_row list \<times> segment list) res \<Rightarrow> (f64 list \<Rightarrow> f64) \<Rightarrow>
   validate_request \<Rightarrow> validation res" where
  "run_validate_sync loaded feed monte_carlo req =
     rbind loaded (\<lambda>run. rbind (bind_keywords feed_required feed_passed) (\<lambda>_. rbind feed (\<lambda>(rows, segments).
     rbind (run_walk_forward run rows (vr_n_splits req)) (\<lambda>fwd.
       let stress = (if vr_stress_windows req = [] then None else Some (run_stress_test run rows (vr_stress_windows req)));
           pnls = map fo_oos_pnl (wf_folds fwd)
       in Inr (generate_validation_report (Some fwd) stress (if pnls = [] then None else Some (monte_carlo pnls)) None
            (vr_min_sharpe req) (vr_max_drawdown_threshold req) (vr_max_degradation req)
            (vr_stress_max_drawdown_threshold req))))))"

definition run_validate_task ::
  "(feed_row list \<Rightarrow> f64 \<times> f64 \<times> f64) res \<Rightarrow> (feed_row list \<times> segment list) res \<Rightarrow> (f64 list \<Rightarrow> f64) \<Rightarrow>
   validate_request \<Rightarrow> string \<Rightarrow> api \<Rightarrow> api" where
  "run_validate_task loaded feed monte_carlo req run_id a =
     (let a1 = put_validate_result run_id (case run_validate_sync loaded feed monte_carlo req of
                 Inl e \<Rightarrow> RunFailed e | Inr v \<Rightarrow> RunDone v) a
      in a1\<lparr>ap_validate_tasks := ap_validate_tasks a1 - {run_id}\<rparr>)"

definition backtest_validate :: "files \<Rightarrow> path \<Rightarrow> path \<Rightarrow> string \<Rightarrow> string \<Rightarrow> api \<Rightarrow> (http_error + string) \<times> api" where
  "backtest_validate fs active inactive name run_id a =
     (case resolve_strategy fs active inactive name of
        Inl e \<Rightarrow> (Inl e, a)
      | Inr p \<Rightarrow> (Inr run_id,
          (put_validate_result run_id RunRunning a)\<lparr>ap_validate_tasks := insert run_id (ap_validate_tasks a)\<rparr>))"

definition validate_status :: "string \<Rightarrow> api \<Rightarrow> http_error + (string \<times> validation run_state)" where
  "validate_status run_id a =
     (case map_of (ap_validate_results a) run_id of None \<Rightarrow> Inl NotFound | Some v \<Rightarrow> Inr (run_id, v))"

section \<open>Health\<close>

record health =
  he_ok :: bool
  he_bus_running :: bool
  he_strategies :: "(string, status) dict"
  he_tripped :: bool

definition health_of :: "bool \<Rightarrow> watcher option \<Rightarrow> breaker option \<Rightarrow> health" where
  "health_of bus_alive fw cb =
     (let strategies = (case fw of None \<Rightarrow> [] | Some w \<Rightarrow> get_strategy_statuses w);
          tripped = (case cb of None \<Rightarrow> False | Some b \<Rightarrow> is_tripped b);
          all_running = (strategies = [] \<or> list_all (\<lambda>(n, s). s = Running) strategies)
      in \<lparr>he_ok = (bus_alive \<and> all_running \<and> \<not> tripped), he_bus_running = bus_alive,
          he_strategies = strategies, he_tripped = tripped\<rparr>)"

section \<open>The database schema\<close>

text \<open>
  \<open>persistence/schema.py\<close>: one request per table, in order, until one fails. An HTTP error and an error
  object in the answer become a \<open>SchemaApplyError\<close>; what decoding the answer raises does not.
\<close>

datatype schema_error = SchemaApplyError | SchemaOther exn

definition ddl_tables :: "string list" where
  "ddl_tables = [''order_events'', ''order_alerts'', ''strategy_snapshots'', ''backtest_runs'', ''backtest_equity'']"

definition ddl_answer :: "http_outcome \<Rightarrow> schema_error + unit" where
  "ddl_answer outcome =
     (case outcome of
        HttpError t \<Rightarrow> Inl SchemaApplyError
      | HttpRaise e \<Rightarrow> Inl (SchemaOther e)
      | HttpResp status body \<Rightarrow>
          if \<not> (200 \<le> status \<and> status < 300) then Inl SchemaApplyError
          else case rbind body (jin ''error'') of
                 Inl e \<Rightarrow> Inl (SchemaOther e)
               | Inr True \<Rightarrow> Inl SchemaApplyError
               | Inr False \<Rightarrow> Inr ())"

fun apply_ddls :: "(string \<Rightarrow> http_outcome) \<Rightarrow> string list \<Rightarrow> (schema_error + unit) \<times> string list" where
  "apply_ddls db [] = (Inr (), [])"
| "apply_ddls db (table # tables) =
     (case ddl_answer (db table) of
        Inl e \<Rightarrow> (Inl e, [table])
      | Inr _ \<Rightarrow> (case apply_ddls db tables of (r, sent) \<Rightarrow> (r, table # sent)))"

definition apply_schema :: "(string \<Rightarrow> http_outcome) \<Rightarrow> (schema_error + unit) \<times> string list" where
  "apply_schema db = apply_ddls db ddl_tables"

lemma apply_ddls_ok: "fst (apply_ddls db tables) = Inr () \<longleftrightarrow> (\<forall>t\<in>set tables. ddl_answer (db t) = Inr ())"
  by (induction tables) (auto split: sum.splits prod.splits)

lemma apply_ddls_prefix: "prefix (snd (apply_ddls db tables)) tables"
  by (induction tables) (auto split: sum.splits prod.splits)

section \<open>Startup and teardown\<close>

datatype boot_step =
    AppliedSchema | CreatedBus | ScannedFiles | AddedStream string | StartedBus | StartedLoops
  | StartedPoller "(string \<times> string) list"

text \<open>None: the process exits; \<open>Some (Inl e)\<close>: the startup raises.\<close>

definition lifespan_start ::
  "bool \<Rightarrow> schema_error + unit \<Rightarrow> string \<Rightarrow> string list res \<Rightarrow> string \<Rightarrow> boot_step list \<times> unit res option" where
  "lifespan_start settings_valid schema exchange scanned funding_raw =
     (if \<not> settings_valid then ([], None)
      else case schema of
        Inl SchemaApplyError \<Rightarrow> ([], None)
      | Inl (SchemaOther e) \<Rightarrow> ([], Some (Inl e))
      | Inr _ \<Rightarrow>
      if exchange \<noteq> ''kucoin'' \<and> exchange \<noteq> ''bybit'' then ([AppliedSchema, CreatedBus], None)
      else case scanned of
        Inl e \<Rightarrow> ([AppliedSchema, CreatedBus], Some (Inl e))
      | Inr keys \<Rightarrow>
          ([AppliedSchema, CreatedBus, ScannedFiles] @ map AddedStream keys @ [StartedBus, StartedLoops] @
           (case parse_funding_symbols funding_raw of [] \<Rightarrow> [] | ps \<Rightarrow> [StartedPoller ps]), Some (Inr ())))"

text \<open>How a background task ends after it was told to stop: cancelled, by itself, or with an exception.\<close>

datatype ended = WasCancelled | Returned | Raised exn

datatype stop_step = StoppedPoller | StoppedWatcher | StoppedWatchdog | StoppedStrategies | StoppedBus

definition lifespan_stop :: "ended option \<Rightarrow> ended \<Rightarrow> ended \<Rightarrow> unit res \<Rightarrow> stop_step list \<times> unit res" where
  "lifespan_stop poller watcher_task watchdog_task stop_all =
     (let t0 = (case poller of None \<Rightarrow> [] | Some _ \<Rightarrow> [StoppedPoller]) in
      case watcher_task of
        Raised e \<Rightarrow> (t0, Inl e)
      | _ \<Rightarrow>
          (case watchdog_task of
             Raised e \<Rightarrow> (t0 @ [StoppedWatcher], Inl e)
           | _ \<Rightarrow>
               (case stop_all of
                  Inl e \<Rightarrow> (t0 @ [StoppedWatcher, StoppedWatchdog], Inl e)
                | Inr _ \<Rightarrow> (t0 @ [StoppedWatcher, StoppedWatchdog, StoppedStrategies, StoppedBus], Inr ()))))"


section \<open>The tables stay small and keep what was stored last\<close>

lemma evict_drop: "evict cap d = drop (length d - cap) d"
proof (induction cap d rule: evict.induct)
  case (1 cap d)
  show ?case
  proof (cases "cap < length d")
    case True
    then have "evict cap d = drop (length (tl d) - cap) (tl d)" using 1 by (simp add: evict.simps [of cap d])
    also have "\<dots> = drop (Suc (length d - 1 - cap)) d" by (simp add: drop_Suc)
    also have "Suc (length d - 1 - cap) = length d - cap" using True by simp
    finally show ?thesis .
  next
    case False
    then show ?thesis by (simp add: evict.simps [of cap d])
  qed
qed

lemma dinv_drop: "dinv d \<Longrightarrow> dinv (drop n d)"
  by (simp add: dinv_def flip: drop_map)

lemma length_put_capped: "length (put_capped cap k v d) \<le> cap"
  by (simp add: put_capped_def evict_drop)

lemma dinv_put_capped: "dinv d \<Longrightarrow> dinv (put_capped cap k v d)"
  by (simp add: put_capped_def evict_drop dinv_drop)

text \<open>A new key goes to the end; the oldest entries go first.\<close>

lemma put_capped_new:
  assumes "k \<notin> set (dkeys d)"
  shows "put_capped cap k v d = drop (Suc (length d) - cap) (d @ [(k, v)])"
proof -
  have "dset k v d = d @ [(k, v)]" using assms by (induction k v d rule: dset.induct) auto
  then show ?thesis by (simp add: put_capped_def evict_drop)
qed

lemma map_of_drop_last: "dinv d \<Longrightarrow> i < length d \<Longrightarrow> n \<le> i \<Longrightarrow> map_of (drop n d) (fst (d ! i)) = Some (snd (d ! i))"
proof -
  assume h: "dinv d" "i < length d" "n \<le> i"
  then have "d ! i \<in> set (drop n d)" by (auto simp: in_set_conv_nth intro!: exI [of _ "i - n"])
  then show ?thesis using dinv_drop [OF h(1), of n] by (metis dinv_def map_of_is_SomeI prod.collapse)
qed

definition api_ok :: "api \<Rightarrow> bool" where
  "api_ok a \<longleftrightarrow> dinv (ap_results a) \<and> length (ap_results a) \<le> 500 \<and>
     dinv (ap_validate_results a) \<and> length (ap_validate_results a) \<le> 50"

text \<open>The steps of the interface, with whatever their arguments are.\<close>

inductive api_step :: "api \<Rightarrow> api \<Rightarrow> bool" where
  "api_step a (snd (backtest_run fs active inactive name run_id a))"
| "api_step a (snd (run_backtest_task outcome decoded db store run_id a))"
| "api_step a (snd (backtest_validate fs active inactive name run_id a))"
| "api_step a (run_validate_task loaded feed monte_carlo req run_id a)"

lemma api_ok_put: "api_ok a \<Longrightarrow> api_ok (put_result k v a)" "api_ok a \<Longrightarrow> api_ok (put_validate_result k v' a)"
  using length_put_capped [of 500] length_put_capped [of 50]
  by (auto simp: api_ok_def put_result_def put_validate_result_def dinv_put_capped backtest_results_max_def
      validate_results_max_def)

lemma api_ok_tasks [simp]: "api_ok (a\<lparr>ap_tasks := t\<rparr>) = api_ok a" "api_ok (a\<lparr>ap_validate_tasks := t\<rparr>) = api_ok a"
  by (simp_all add: api_ok_def)

lemma api_step_ok: "api_step a a' \<Longrightarrow> api_ok a \<Longrightarrow> api_ok a'"
  by (induction rule: api_step.induct)
    (auto simp: backtest_run_def run_backtest_task_def backtest_validate_def run_validate_task_def api_ok_put Let_def
      split: sum.splits prod.splits)

text \<open>
  C21. The table of backtests never holds more than 500 entries with distinct ids (50 validations), in every
  state the interface can reach; a run that is accepted is reported as running at once, and it pushes out the
  oldest entry only when the table is full.
\<close>

theorem results_bounded_and_readable:
  assumes "api_step\<^sup>*\<^sup>* api_init a" and "backtest_run fs active inactive name run_id a = (Inr r, a')"
    and "run_id \<notin> set (dkeys (ap_results a))"
  shows "api_ok a \<and> api_ok a' \<and> backtest_status run_id a' = Inr (run_id, RunRunning) \<and> run_id \<in> ap_tasks a' \<and>
    ap_results a' = drop (Suc (length (ap_results a)) - 500) (ap_results a @ [(run_id, RunRunning)])"
proof -
  have ok: "api_ok a" using assms(1)
    by (induction rule: rtranclp_induct) (auto simp: api_ok_def api_init_def dest: api_step_ok [unfolded api_ok_def])
  have a': "a' = (put_result run_id RunRunning a)\<lparr>ap_tasks := insert run_id (ap_tasks a)\<rparr>"
    using assms(2) by (auto simp: backtest_run_def split: sum.splits)
  have t: "ap_results a' = drop (Suc (length (ap_results a)) - 500) (ap_results a @ [(run_id, RunRunning)])"
    using put_capped_new [OF assms(3)] by (simp add: a' put_result_def backtest_results_max_def)
  have "length (ap_results a) \<le> 500" using ok by (simp add: api_ok_def)
  then have "(run_id, RunRunning) \<in> set (ap_results a')" by (simp add: t)
  moreover have ok': "api_ok a'" using ok by (simp add: a' api_ok_put)
  ultimately have "map_of (ap_results a') run_id = Some RunRunning" by (simp add: api_ok_def dinv_def)
  then show ?thesis using ok ok' t by (simp add: backtest_status_def a')
qed

lemma put_capped_lookup:
  assumes "dinv d" "length d \<le> cap" "0 < cap"
  shows "map_of (put_capped cap k v d) k = Some v"
proof (cases "k \<in> set (dkeys d)")
  case True
  then have "length (dset k v d) \<le> cap" using assms(2) by (simp add: length_dset)
  then show ?thesis by (simp add: put_capped_def evict_drop)
next
  case False
  have "(k, v) \<in> set (put_capped cap k v d)" using assms by (simp add: put_capped_new [OF False])
  then show ?thesis using dinv_put_capped [OF assms(1)] by (simp add: dinv_def)
qed

lemma write_all_result:
  "write_all store xs = (r, ys) \<Longrightarrow> (case r of Inl e \<Rightarrow> \<exists>z zs. xs = ys @ z # zs \<and> store z = Inl e | Inr _ \<Rightarrow> ys = xs)"
  by (induction xs arbitrary: ys r) (fastforce split: sum.splits prod.splits)+

lemma task_outcome:
  assumes "api_ok a" and "run_backtest_task outcome decoded db store run_id a = (written, a')"
  shows "run_id \<notin> ap_tasks a' \<and>
    ((\<exists>r code. outcome = Inr r \<and> decoded = Inr code \<and> backtest_status run_id a' = Inr (run_id, RunDone (task_result r)) \<and>
        written = task_writes (snapshot_exists db (br_strategy_name r) (br_hash r)) r code) \<or>
     (\<exists>e. backtest_status run_id a' = Inr (run_id, RunFailed e) \<and>
        (outcome = Inl e \<or> decoded = Inl e \<or> (\<exists>x. store x = Inl e))))"
proof -
  have s: "map_of (ap_results (put_result run_id v a)) run_id = Some v" for v
    using assms(1) by (simp add: put_result_def api_ok_def backtest_results_max_def put_capped_lookup)
  show ?thesis
  proof (cases "rbind outcome (\<lambda>r. rbind decoded (\<lambda>code. Inr (r, code)))")
    case (Inl e)
    then show ?thesis using assms(2) s
      by (cases outcome) (auto simp: run_backtest_task_def backtest_status_def Let_def rbind_def split: sum.splits)
  next
    case (Inr p)
    obtain r code where p: "outcome = Inr r" "decoded = Inr code" "p = (r, code)"
      using Inr by (auto simp: rbind_Inr_iff)
    let ?w = "task_writes (snapshot_exists db (br_strategy_name r) (br_hash r)) r code"
    obtain q ys where w: "write_all store ?w = (q, ys)" by fastforce
    show ?thesis using write_all_result [OF w] assms(2) s w
      by (cases q) (auto simp: run_backtest_task_def backtest_status_def Let_def p)
  qed
qed

text \<open>
  Every accepted backtest comes to an end that can be read: after its task has run, whatever failed in it, the run is
  no longer listed as a task and its status is done or failed. It is done exactly when the run, the
  decoding and all its writes succeeded, and then all of them were written in order.
\<close>

theorem backtest_task_ends:
  assumes "api_ok a" and "run_backtest_task outcome decoded db store run_id a = (written, a')"
  shows "run_id \<notin> ap_tasks a' \<and>
    ((\<exists>r code. outcome = Inr r \<and> decoded = Inr code \<and> backtest_status run_id a' = Inr (run_id, RunDone (task_result r)) \<and>
        written = task_writes (snapshot_exists db (br_strategy_name r) (br_hash r)) r code) \<or>
     (\<exists>e. backtest_status run_id a' = Inr (run_id, RunFailed e) \<and>
        (outcome = Inl e \<or> decoded = Inl e \<or> (\<exists>x. store x = Inl e))))"
  by (rule task_outcome [OF assms])

lemma length_stride: "0 < k \<Longrightarrow> length (stride k xs) = (length xs + k - 1) div k"
proof (induction k xs rule: stride.induct)
  case (1 k)
  then show ?case by simp
next
  case (2 k x xs)
  show ?case
  proof (cases "length xs < k - 1")
    case True
    then have "(length xs + k) div k = 1" using 2(2) by (simp add: div_nat_eqI)
    with True show ?thesis by simp
  next
    case False
    then have "length xs + k = (length xs - (k - 1) + k - 1) + k" using 2(2) by simp
    then have "(length xs + k) div k = (length xs - (k - 1) + k - 1) div k + 1"
      using 2(2) by (metis Suc_eq_plus1 div_add_self2 less_not_refl)
    then show ?thesis using 2 by simp
  qed
qed

text \<open>
  A long equity curve is thinned to at least 2000 and fewer than 4000 points, starting with the first;
  a curve of at most 2000 points is kept whole. The comment's promise of at most 2000 holds exactly for
  lengths that are divided evenly.
\<close>

theorem downsample_bounds:
  "(length ec \<le> 2000 \<longrightarrow> downsample ec = ec) \<and>
   (2000 < length ec \<longrightarrow> 2000 \<le> length (downsample ec) \<and> length (downsample ec) < 4000 \<and> hd (downsample ec) = hd ec)"
proof (cases "2000 < length ec")
  case True
  let ?k = "length ec div 2000"
  let ?r = "length ec mod 2000"
  have k: "0 < ?k" using True by (simp add: div_greater_zero_iff)
  have "length ec = 2000 * ?k + ?r" by simp
  then have e: "length ec + ?k - 1 = (?r + ?k - 1) + 2000 * ?k" using k by linarith
  have "length (downsample ec) = (length ec + ?k - 1) div ?k"
    using True k by (simp add: downsample_def max_def length_stride)
  also have "\<dots> = 2000 + (?r + ?k - 1) div ?k"
    unfolding e using k by (intro div_mult_self1) simp
  finally have l: "length (downsample ec) = 2000 + (?r + ?k - 1) div ?k" .
  have "?r + ?k - 1 < 2000 * ?k"
    using k by (cases ?k) (auto intro: order.strict_trans2)
  then have "(?r + ?k - 1) div ?k < 2000" using k by (simp add: div_less_iff_less_mult)
  moreover have "hd (downsample ec) = hd ec" using True by (cases ec) (auto simp: downsample_def)
  ultimately show ?thesis using l True by simp
next
  case False
  then show ?thesis by (simp add: downsample_def)
qed


section \<open>Filters\<close>

lemma ident_quote: "ident_ok s \<Longrightarrow> CHR 0x27 \<notin> set s \<and> CHR '';'' \<notin> set s"
proof -
  assume s: "ident_ok s"
  have "c \<notin> set s" if c: "\<not> ident_char c" "c \<noteq> CHR 0x0A" for c
  proof
    assume "c \<in> set s"
    with c s have "c \<in> set (butlast s)" if "last s = CHR 0x0A"
      using that by (metis append_butlast_last_id in_set_conv_decomp_last list.set_cases set_ConsD in_set_butlastD Un_iff empty_iff list.set(1) set_append)
    then show False using \<open>c \<in> set s\<close> c s
      by (auto simp: ident_ok_def Let_def list_all_iff split: if_splits)
  qed
  moreover have "\<not> ident_char (CHR 0x27)" "\<not> ident_char (CHR '';'')" by (simp_all add: ident_char_def)
  ultimately show ?thesis by simp
qed

lemma int_str_quote: "CHR 0x27 \<notin> set (int_str i)" "CHR '';'' \<notin> set (int_str i)"
proof -
  have "\<not> is_digit (CHR 0x27)" "\<not> is_digit (CHR '';'')" by (simp_all add: is_digit_def)
  then have "CHR 0x27 \<notin> set (nat_str n) \<and> CHR '';'' \<notin> set (nat_str n)" for n
    using nat_str_facts [of n] by (auto simp: list_all_iff)
  then show "CHR 0x27 \<notin> set (int_str i)" "CHR '';'' \<notin> set (int_str i)" by (simp_all add: int_str_def)
qed

text \<open>
  A filter cannot leave its quotes: the text of every query sent for the list of runs holds two quotes
  for each filter given and no semicolon, and a request whose filter has any other character is refused
  without a query.
\<close>

theorem filters_stay_quoted:
  assumes "backtest_runs db name h limit \<noteq> Inl BadRequest"
  shows "count_list (runs_query name h limit) (CHR 0x27) =
      (if given name then 2 else 0) + (if given h then 2 else 0) \<and>
    CHR '';'' \<notin> set (runs_query name h limit)"
proof -
  have q: "count_list v (CHR 0x27) = 0 \<and> CHR '';'' \<notin> set v" if "name = Some v \<or> h = Some v" "v \<noteq> []" for v
    using that assms ident_quote [of v]
    by (auto simp: backtest_runs_def given_def count_list_0_iff split: if_splits)
  have i: "count_list (int_str limit) (CHR 0x27) = 0" using int_str_quote by (simp add: count_list_0_iff)
  show ?thesis
    using q i int_str_quote
    by (auto simp: runs_query_def eq_clause_def given_def Let_def split: option.splits)
qed

section \<open>Validation never succeeds\<close>

text \<open>
  No validation run can succeed: the feed is constructed with keyword arguments its constructor does
  not have and without the required ones, so every run is reported as failed.
\<close>

theorem validation_always_fails:
  assumes "api_ok a"
  shows "\<exists>e. validate_status run_id (run_validate_task loaded feed monte_carlo req run_id a) = Inr (run_id, RunFailed e)"
proof -
  have "bind_keywords feed_required feed_passed = Inl TypeError"
    by (simp add: bind_keywords_def feed_required_def feed_passed_def)
  then have "\<exists>e. run_validate_sync loaded feed monte_carlo req = Inl e"
    by (cases loaded) (simp_all add: run_validate_sync_def)
  moreover have "map_of (ap_validate_results (put_validate_result run_id v a)) run_id = Some v" for v
    using assms by (simp add: put_validate_result_def api_ok_def validate_results_max_def put_capped_lookup)
  ultimately show ?thesis by (auto simp: validate_status_def run_validate_task_def Let_def)
qed

section \<open>Teardown\<close>

text \<open>
  The strategies are stopped at teardown only if both background loops ended without an exception of their own: when
  the file watcher has died, which a crash during its poll does to it, the teardown raises that
  exception before it stops the watchdog, the strategy threads or the bus.
\<close>

theorem teardown_skipped_after_watcher_death:
  "(StoppedStrategies \<in> set (fst (lifespan_stop poller wt wd stop_all)) \<longleftrightarrow>
      (\<forall>e. wt \<noteq> Raised e) \<and> (\<forall>e. wd \<noteq> Raised e) \<and> (\<exists>u. stop_all = Inr u)) \<and>
   (StoppedBus \<in> set (fst (lifespan_stop poller wt wd stop_all)) \<longleftrightarrow>
      StoppedStrategies \<in> set (fst (lifespan_stop poller wt wd stop_all))) \<and>
   (wt = Raised e \<longrightarrow> snd (lifespan_stop poller wt wd stop_all) = Inl e)"
  by (auto simp: lifespan_stop_def Let_def split: ended.splits option.splits sum.splits)

section \<open>Startup\<close>

text \<open>
  The service consumes no event before it is ready: the bus is started only when the settings are valid,
  every table was created, the exchange is supported and the scan of the strategy files succeeded, and
  then after all streams of the scanned strategies were registered.
\<close>

theorem bus_starts_last:
  assumes "lifespan_start valid (fst (apply_schema db)) exchange scanned raw = (trace, out)" and "StartedBus \<in> set trace"
  shows "valid \<and> (\<forall>t\<in>set ddl_tables. ddl_answer (db t) = Inr ()) \<and> exchange \<in> {''kucoin'', ''bybit''} \<and>
    (\<exists>keys rest. scanned = Inr keys \<and>
       trace = [AppliedSchema, CreatedBus, ScannedFiles] @ map AddedStream keys @ StartedBus # StartedLoops # rest \<and>
       (parse_funding_symbols raw = [] \<longrightarrow> rest = []) \<and> out = Some (Inr ()))"
proof -
  have ok: "fst (apply_schema db) = Inr ()"
    using assms by (cases "fst (apply_schema db)")
      (auto simp: lifespan_start_def split: if_splits schema_error.splits)
  have "\<forall>t\<in>set ddl_tables. ddl_answer (db t) = Inr ()"
    using ok apply_ddls_ok [of db ddl_tables] by (simp add: apply_schema_def)
  then show ?thesis using assms
    by (auto simp: lifespan_start_def ok split: if_splits sum.splits list.splits)
qed

section \<open>Instances\<close>

definition sample_files :: files where
  "sample_files = \<lparr>fs_resolve = id, fs_exists = (\<lambda>p. p = [''inactive'', ''ma.py'']), fs_read = (\<lambda>p. Inr ''code'')\<rparr>"

definition sample_result :: backtest_result where
  "sample_result = \<lparr>br_strategy_name = ''Ma'', br_hash = ''h'',
     br_metrics = \<lparr>me_total_return_pct = Fin 1, me_sharpe_ratio = Fin 1, me_max_drawdown_pct = Fin 0, me_n_trades = 1,
       me_win_rate_pct = Fin 100, me_avg_pnl_per_trade = Fin 1, me_profit_factor = Fin 2, me_total_fees_usd = Fin 0, me_passes_fee_gate = True\<rparr>,
     br_equity_curve = [(''t'', Fin 1)], br_equity_curve_points = 0\<rparr>"

theorem results_bounded_and_readable_witness:
  "backtest_status ''r1'' (snd (backtest_run sample_files [''active''] [''inactive''] ''ma'' ''r1'' api_init)) =
     Inr (''r1'', RunRunning)"
proof -
  have "\<exists>a'. backtest_run sample_files [''active''] [''inactive''] ''ma'' ''r1'' api_init = (Inr ''r1'', a')"
    by (simp add: backtest_run_def resolve_strategy_def sample_files_def ident_ok_def ident_char_def Let_def)
  then show ?thesis using results_bounded_and_readable [OF rtranclp.rtrancl_refl] by (force simp: api_init_def)
qed

theorem backtest_task_ends_witness:
  "\<exists>e. backtest_status ''r1'' (snd (run_backtest_task (Inr sample_result) (Inr ''code'') (\<lambda>q. Inl HTTPError)
     (\<lambda>x. if x = WRun sample_result then Inl OtherError else Inr ()) ''r1'' api_init)) = Inr (''r1'', RunFailed e)"
proof -
  have "api_ok api_init" by (simp add: api_ok_def api_init_def)
  then show ?thesis
    using backtest_task_ends [OF _ prod.collapse [symmetric], where a = api_init and outcome = "Inr sample_result"
        and decoded = "Inr ''code''" and db = "\<lambda>q. Inl HTTPError"
        and store = "\<lambda>x. if x = WRun sample_result then Inl OtherError else Inr ()" and run_id = "''r1''"]
    by (auto simp: run_backtest_task_def task_writes_def snapshot_exists_def Let_def split: if_splits)
qed

theorem downsample_bounds_witness:
  "length (downsample (replicate 3999 (''t'', Fin 1))) \<ge> 2000 \<and> downsample [Fin 1, Fin 2] = [Fin 1, Fin 2]"
  using downsample_bounds [of "replicate 3999 (''t'', Fin 1)"] downsample_bounds [of "[Fin 1, Fin 2]"] by simp

theorem filters_stay_quoted_witness:
  "count_list (runs_query (Some ''ma'') None 10) (CHR 0x27) = 2"
  using filters_stay_quoted [of "\<lambda>q. Inl HTTPError" "Some ''ma''" None 10]
  by (simp add: backtest_runs_def given_def ident_ok_def ident_char_def Let_def)

theorem validation_always_fails_witness:
  "\<exists>e. validate_status ''v1'' (run_validate_task (Inr (\<lambda>rows. (Fin 2, Fin 0, Fin 1))) (Inr ([], [])) (\<lambda>xs. Fin 1)
     \<lparr>vr_n_splits = 3, vr_min_sharpe = Fin 1, vr_max_drawdown_threshold = Fin 1, vr_max_degradation = Fin 1,
      vr_stress_max_drawdown_threshold = Fin 1, vr_stress_windows = []\<rparr> ''v1'' api_init) = Inr (''v1'', RunFailed e)"
  by (rule validation_always_fails) (simp add: api_ok_def api_init_def)

theorem teardown_skipped_after_watcher_death_witness:
  "snd (lifespan_stop None (Raised KeyError) WasCancelled (Inr ())) = Inl KeyError"
  using teardown_skipped_after_watcher_death [of None "Raised KeyError" WasCancelled "Inr ()" KeyError] by blast

theorem bus_starts_last_witness:
  "fst (apply_schema (\<lambda>t. HttpResp 200 (Inr (JObj [])))) = Inr () \<and>
   (\<exists>rest. fst (lifespan_start True (fst (apply_schema (\<lambda>t. HttpResp 200 (Inr (JObj []))))) ''bybit'' (Inr [''k'']) [])
     = [AppliedSchema, CreatedBus, ScannedFiles, AddedStream ''k'', StartedBus, StartedLoops] @ rest)"
proof -
  have ok: "fst (apply_schema (\<lambda>t. HttpResp 200 (Inr (JObj [])))) = Inr ()"
    by (simp add: apply_schema_def apply_ddls_ok ddl_answer_def jin_def)
  then show ?thesis
    using bus_starts_last [OF prod.collapse [symmetric], of True "\<lambda>t. HttpResp 200 (Inr (JObj []))" "''bybit''"
        "Inr [''k'']" "[]"] by (auto simp: lifespan_start_def)
qed

end
