(* ===== verification/Ml_Labels.thy ===== *)
theory Ml_Labels
  imports Json
begin

text \<open>
  The label generator of the machine learning service (\<open>ml_service/labels/generator.py\<close>) and the Kalman
  filter that the live spread loop shares with it in intent (\<open>ml_service/inference/spread_arb.py\<close>). A column
  is the list of its values, NaN for a missing one. The logarithm, the rolling statistics of pandas, its join
  of the two symbols and the stationarity test are arguments. A horizon is a number of bars.
\<close>

section \<open>Reversion labels\<close>

datatype label = Revert | Flat | Trend

definition revert_label :: "f64 \<Rightarrow> f64 \<Rightarrow> label" where
  "revert_label delta fwd_delta =
     (if \<bar>delta\<bar> < fl (1 / 10 ^ 10) then Flat
      else let ratio = fdiv \<bar>fwd_delta\<bar> \<bar>delta\<bar> in
        if ratio < Fin (1/2) then Revert
        else if ratio > fl (6/5) then Trend
        else Flat)"

definition fill_nan :: "f64 \<Rightarrow> f64 list \<Rightarrow> f64 list" where
  "fill_nan v xs = map (\<lambda>x. if is_nan x then v else x) xs"

text \<open>A feature file: the deviation, the Hurst exponent if present, and the label columns.\<close>

record features =
  ft_mid_delta :: "f64 list option"
  ft_hurst :: "f64 list option"
  ft_rows :: nat
  ft_labels :: "(string, label list) dict"

text \<open>One horizon: \<open>labels[i]\<close> is set in a loop over the first \<open>len(df) - N\<close> rows.\<close>

definition horizon_labels :: "f64 list \<Rightarrow> f64 list \<Rightarrow> f64 \<Rightarrow> nat \<Rightarrow> label list" where
  "horizon_labels mmd hurst threshold_bps N =
     map (\<lambda>i. if i < length mmd - N then
                if \<bar>mmd ! i\<bar> < threshold_bps then Flat
                else if Fin (1/2) \<le> hurst ! i then Flat
                else revert_label (mmd ! i) (mmd ! (i + N))
              else Flat) [0..<length mmd]"

definition label_name :: "nat \<Rightarrow> string" where
  "label_name N = ''label_revert_'' @ int_str (int N)"

definition generate_reversion_labels :: "nat list \<Rightarrow> f64 \<Rightarrow> features \<Rightarrow> features res" where
  "generate_reversion_labels horizons threshold_bps df =
     rbind (of_option KeyError (ft_mid_delta df)) (\<lambda>col.
       let mmd = fill_nan (Fin 0) col;
           hurst = fill_nan (Fin (1/2)) (case ft_hurst df of Some h \<Rightarrow> h | None \<Rightarrow> replicate (length col) (Fin (1/2)))
       in Inr (fold (\<lambda>N df. df\<lparr>ft_labels := dset (label_name N)
                 (horizon_labels mmd hurst threshold_bps N) (ft_labels df)\<rparr>) horizons df))"

text \<open>The Parquet files of one symbol, by date in order; a date outside the range is left alone.\<close>

fun add_labels_to_files ::
  "string \<Rightarrow> string \<Rightarrow> nat list \<Rightarrow> f64 \<Rightarrow> (string \<times> features) list \<Rightarrow> (nat res \<times> (string \<times> features) list)" where
  "add_labels_to_files start_date end_date horizons thr [] = (Inr 0, [])"
| "add_labels_to_files start_date end_date horizons thr ((date, df) # files) =
     (if \<not> (start_date \<le> date \<and> date \<le> end_date) then
        (case add_labels_to_files start_date end_date horizons thr files of (r, fs) \<Rightarrow> (r, (date, df) # fs))
      else case generate_reversion_labels horizons thr df of
        Inl e \<Rightarrow> (Inl e, (date, df) # files)
      | Inr df' \<Rightarrow>
          (case add_labels_to_files start_date end_date horizons thr files of
             (r, fs) \<Rightarrow> (rbind r (\<lambda>n. Inr (Suc n)), (date, df') # fs)))"

definition add_labels_to_parquet ::
  "string \<Rightarrow> string \<Rightarrow> nat list \<Rightarrow> f64 \<Rightarrow> (string \<times> features) list \<Rightarrow> (nat res \<times> (string \<times> features) list)" where
  "add_labels_to_parquet start_date end_date horizons thr files =
     add_labels_to_files start_date end_date horizons thr (sort_key fst files)"

section \<open>The hedge ratio\<close>

definition process_noise :: f64 where "process_noise = fl (1 / 10 ^ 5)"

definition observation_noise :: f64 where "observation_noise = fl (1 / 10 ^ 3)"

text \<open>The offline filter: the loop over the observations after the first, with the ratio and variance before.\<close>

fun kalman_loop :: "f64 \<Rightarrow> f64 \<Rightarrow> (f64 \<times> f64) list \<Rightarrow> f64 list" where
  "kalman_loop beta P [] = []"
| "kalman_loop beta P ((y, H) # obs) =
     (let P_pred = P + process_noise;
          S = H * P_pred * H + observation_noise;
          K = (if \<not> feq S (Fin 0) then fdiv (P_pred * H) S else Fin 0);
          y_hat = beta * H;
          beta' = beta + K * (y - y_hat)
      in beta' # kalman_loop beta' ((Fin 1 - K * H) * P_pred) obs)"

definition first_ratio :: "f64 \<Rightarrow> f64 \<Rightarrow> f64" where
  "first_ratio y H = (if \<not> feq H (Fin 0) then fdiv y H else Fin 1)"

definition kalman_hedge :: "f64 list \<Rightarrow> f64 list \<Rightarrow> f64 list res" where
  "kalman_hedge log_btc log_eth =
     (case zip log_btc log_eth of
        [] \<Rightarrow> Inl IndexError
      | (y, H) # obs \<Rightarrow> Inr (first_ratio y H # kalman_loop (first_ratio y H) (Fin 1) obs))"

text \<open>The live filter (\<open>_KalmanState\<close>).\<close>

record kalman =
  ka_beta :: f64
  ka_P :: f64
  ka_Q :: f64
  ka_R :: f64

definition kalman_init :: "f64 \<Rightarrow> f64 \<Rightarrow> kalman" where
  "kalman_init Q R = \<lparr>ka_beta = Fin 1, ka_P = Fin 1, ka_Q = Q, ka_R = R\<rparr>"

definition kalman_update :: "f64 \<Rightarrow> f64 \<Rightarrow> kalman \<Rightarrow> kalman" where
  "kalman_update log_btc log_eth k =
     (let k1 = k\<lparr>ka_P := ka_P k + ka_Q k\<rparr>;
          H = log_eth;
          S = H * ka_P k1 * H + ka_R k1;
          K = (if \<not> feq S (Fin 0) then fdiv (ka_P k1 * H) S else Fin 0);
          k2 = k1\<lparr>ka_beta := ka_beta k1 + K * (log_btc - ka_beta k1 * H)\<rparr>
      in k2\<lparr>ka_P := (Fin 1 - K * H) * ka_P k2\<rparr>)"

fun kalman_run :: "kalman \<Rightarrow> (f64 \<times> f64) list \<Rightarrow> f64 list" where
  "kalman_run k [] = []"
| "kalman_run k ((y, H) # obs) = (let k' = kalman_update y H k in ka_beta k' # kalman_run k' obs)"

section \<open>Spread labels\<close>

datatype spread_label = Converge | Neutral | Diverge

definition rolling_adf_pvalue :: "(f64 list \<Rightarrow> f64 res) \<Rightarrow> nat \<Rightarrow> f64 list \<Rightarrow> f64 list" where
  "rolling_adf_pvalue adfuller window spread =
     map (\<lambda>i. if window \<le> i then
                (case adfuller (take window (drop (i - window) spread)) of Inl e \<Rightarrow> Fin 1 | Inr p \<Rightarrow> p)
              else Fin 1) [0..<length spread]"

definition spread_zscore :: "f64 list \<Rightarrow> f64 list \<Rightarrow> f64 list \<Rightarrow> f64 list" where
  "spread_zscore spread roll_mean roll_std =
     map (\<lambda>(x, m, s). fdiv (x - m) (if feq s (Fin 0) then NaN else s)) (zip spread (zip roll_mean roll_std))"

definition spread_label_at :: "f64 list \<Rightarrow> f64 list \<Rightarrow> nat \<Rightarrow> f64 \<Rightarrow> f64 \<Rightarrow> nat \<Rightarrow> spread_label" where
  "spread_label_at zscore adf horizon zscore_threshold adf_threshold i =
     (if adf ! i > adf_threshold then Neutral
      else if \<bar>zscore ! i\<bar> \<le> zscore_threshold then Neutral
      else let fwd = zscore ! (i + horizon) in
        if \<not> is_fin fwd then Neutral
        else if \<bar>fwd\<bar> < \<bar>zscore ! i\<bar> * Fin (1/2) then Converge
        else if \<bar>fwd\<bar> > \<bar>zscore ! i\<bar> * fl (6/5) then Diverge
        else Neutral)"

definition spread_labels :: "f64 list \<Rightarrow> f64 list \<Rightarrow> nat \<Rightarrow> f64 \<Rightarrow> f64 \<Rightarrow> spread_label list" where
  "spread_labels zscore adf horizon zscore_threshold adf_threshold =
     map (\<lambda>i. if i < length zscore - horizon
              then spread_label_at zscore adf horizon zscore_threshold adf_threshold i else Neutral)
       [0..<length zscore]"

text \<open>A row of the join of both symbols: the bid and ask of each.\<close>

record pair_row =
  pr_bid_btc :: f64
  pr_ask_btc :: f64
  pr_bid_eth :: f64
  pr_ask_eth :: f64

record spread_frame =
  sf_hedge :: "f64 list"
  sf_spread :: "f64 list"
  sf_zscore :: "f64 list"
  sf_adf :: "f64 list"
  sf_label :: "spread_label list"

definition clip_low :: "f64 \<Rightarrow> f64" where
  "clip_low x = (if x < fl (1 / 10 ^ 10) then fl (1 / 10 ^ 10) else x)"

definition mid_of :: "f64 \<Rightarrow> f64 \<Rightarrow> f64" where
  "mid_of bid ask = fdiv (bid + ask) (Fin 2)"

definition generate_spread_labels ::
  "(f64 \<Rightarrow> f64) \<Rightarrow> (f64 list \<Rightarrow> f64 list) \<Rightarrow> (f64 list \<Rightarrow> f64 list) \<Rightarrow> (f64 list \<Rightarrow> f64 res) \<Rightarrow>
   pair_row list \<Rightarrow> nat \<Rightarrow> f64 \<Rightarrow> f64 \<Rightarrow> spread_frame res" where
  "generate_spread_labels logf roll_mean roll_std adfuller joined horizon zscore_threshold adf_threshold =
     (let rows = filter (\<lambda>r. \<not> is_nan (pr_bid_btc r) \<and> \<not> is_nan (pr_bid_eth r)) joined;
          log_btc = map (\<lambda>r. logf (clip_low (mid_of (pr_bid_btc r) (pr_ask_btc r)))) rows;
          log_eth = map (\<lambda>r. logf (clip_low (mid_of (pr_bid_eth r) (pr_ask_eth r)))) rows
      in rbind (kalman_hedge log_btc log_eth) (\<lambda>beta.
           let spread = map (\<lambda>(b, c, e). b - c * e) (zip log_btc (zip beta log_eth));
               z = spread_zscore spread (roll_mean spread) (roll_std spread);
               adf = rolling_adf_pvalue adfuller 60 spread
           in Inr \<lparr>sf_hedge = beta, sf_spread = spread, sf_zscore = z, sf_adf = adf,
                   sf_label = spread_labels z adf horizon zscore_threshold adf_threshold\<rparr>))"

section \<open>What the labels depend on\<close>

lemma length_horizon_labels [simp]: "length (horizon_labels mmd hurst thr N) = length mmd"
  by (simp add: horizon_labels_def)

lemma length_spread_labels [simp]: "length (spread_labels z adf h zt pt) = length z"
  by (simp add: spread_labels_def)

text \<open>
  A reversion label looks exactly one horizon ahead and only in the gated windows: a row that is not
  FLAT has its partner inside the file, a deviation not below the threshold, a Hurst exponent not at or above one
  half, and its label is that of its own and the partner's deviation; changing any other row changes
  nothing.
\<close>

theorem reversion_label_gated:
  assumes "i < length mmd" and "horizon_labels mmd hurst thr N ! i \<noteq> Flat"
  shows "i + N < length mmd \<and> \<not> \<bar>mmd ! i\<bar> < thr \<and> \<not> Fin (1/2) \<le> hurst ! i \<and>
    horizon_labels mmd hurst thr N ! i = revert_label (mmd ! i) (mmd ! (i + N)) \<and>
    (\<forall>mmd' hurst'. length mmd' = length mmd \<and> mmd' ! i = mmd ! i \<and> mmd' ! (i + N) = mmd ! (i + N) \<and>
        hurst' ! i = hurst ! i \<longrightarrow>
      horizon_labels mmd' hurst' thr N ! i = horizon_labels mmd hurst thr N ! i)"
  using assms by (auto simp: horizon_labels_def split: if_splits)

theorem reversion_label_gated_witness:
  "\<exists>i. horizon_labels [Fin 4, Fin 3, Fin 1] [Fin (1/4), Fin (1/4), Fin (1/4)] (Fin 1) 2 ! i = Revert \<and>
     i + 2 < length [Fin 4, Fin 3, Fin 1]"
proof -
  have r: "horizon_labels [Fin 4, Fin 3, Fin 1] [Fin (1/4), Fin (1/4), Fin (1/4)] (Fin 1) 2 ! 0 = Revert"
    by code_simp
  then show ?thesis
    using reversion_label_gated [of 0 "[Fin 4, Fin 3, Fin 1]" "[Fin (1/4), Fin (1/4), Fin (1/4)]" "Fin 1" 2] by force
qed

text \<open>
  C20. Training and live trading use one hedge ratio: on every series the offline filter computes, to the
  bit, what the live filter computes on the observations after the first when it is started from the
  first observation's ratio.
\<close>

theorem offline_kalman_is_live_kalman:
  "kalman_hedge (y # ys) (H # Hs) =
     Inr (first_ratio y H # kalman_run ((kalman_init process_noise observation_noise)\<lparr>ka_beta := first_ratio y H\<rparr>) (zip ys Hs))"
proof -
  have "kalman_loop beta P obs = kalman_run \<lparr>ka_beta = beta, ka_P = P, ka_Q = process_noise, ka_R = observation_noise\<rparr> obs"
    for beta P obs
    by (induction beta P obs rule: kalman_loop.induct) (simp_all add: kalman_update_def Let_def)
  then show ?thesis by (simp add: kalman_hedge_def kalman_init_def)
qed

section \<open>Labelling twice\<close>

lemma dset_known: "map_of d k = Some v \<Longrightarrow> dset k v d = d"
  by (induction d) (auto split: if_splits)

lemma fold_dset_lookup:
  assumes "inj k"
  shows "map_of (fold (\<lambda>N d. dset (k N) (f N) d) Ns d) (k M) = (if M \<in> set Ns then Some (f M) else map_of d (k M))"
  using assms by (induction Ns arbitrary: d) (auto simp: inj_eq)

lemma fold_dset_again:
  assumes "inj k"
  shows "fold (\<lambda>N d. dset (k N) (f N) d) Ns (fold (\<lambda>N d. dset (k N) (f N) d) Ns d) = fold (\<lambda>N d. dset (k N) (f N) d) Ns d"
proof -
  have "fold (\<lambda>N d. dset (k N) (f N) d) Ms D = D" if "\<forall>N\<in>set Ms. map_of D (k N) = Some (f N)" for Ms D
    using that by (induction Ms) (simp_all add: dset_known)
  note again = this
  show ?thesis by (rule again) (simp add: fold_dset_lookup [OF assms])
qed

lemma inj_label_name: "inj label_name"
  unfolding label_name_def by (rule injI) (metis of_nat_eq_iff option.inject py_int_int_str same_append_eq)

lemma fold_labels:
  "fold (\<lambda>N df. df\<lparr>ft_labels := dset (k N) (f N) (ft_labels df)\<rparr>) Ns df =
     df\<lparr>ft_labels := fold (\<lambda>N d. dset (k N) (f N) d) Ns (ft_labels df)\<rparr>"
  by (induction Ns arbitrary: df) simp_all

lemma generate_again:
  "generate_reversion_labels hs thr df = Inr df' \<Longrightarrow> generate_reversion_labels hs thr df' = Inr df'"
  by (auto simp: generate_reversion_labels_def rbind_Inr_iff Let_def fold_labels
      fold_dset_again [OF inj_label_name])

lemma add_labels_keys: "map fst (snd (add_labels_to_files a b hs thr files)) = map fst files"
  by (induction a b hs thr files rule: add_labels_to_files.induct) (auto split: sum.splits prod.splits)

lemma add_labels_files_again:
  "add_labels_to_files a b hs thr files = (Inr n, files') \<Longrightarrow> add_labels_to_files a b hs thr files' = (Inr n, files')"
proof (induction a b hs thr files arbitrary: n files' rule: add_labels_to_files.induct)
  case (1 a b hs thr)
  then show ?case by simp
next
  case (2 a b hs thr date df files)
  obtain r fs where rest: "add_labels_to_files a b hs thr files = (r, fs)" by fastforce
  show ?case
  proof (cases "a \<le> date \<and> date \<le> b")
    case True
    obtain df' where g: "generate_reversion_labels hs thr df = Inr df'"
      using 2(3) True by (cases "generate_reversion_labels hs thr df") auto
    then obtain m where m: "r = Inr m" "n = Suc m" "files' = (date, df') # fs"
      using 2(3) True rest by (cases r) auto
    have "add_labels_to_files a b hs thr fs = (Inr m, fs)" using 2(2) True g rest m by simp
    then show ?thesis using True generate_again [OF g] m by simp
  next
    case False
    then have "r = Inr n" "files' = (date, df) # fs" using 2(3) rest by auto
    then show ?thesis using 2(1) False rest by simp
  qed
qed

text \<open>
  Labelling is idempotent, as its description promises: after a labelling that succeeded, the same request updates the same number of
  files and leaves every file as it is.
\<close>

theorem labelling_idempotent:
  assumes "add_labels_to_parquet a b hs thr files = (Inr n, files')"
  shows "add_labels_to_parquet a b hs thr files' = (Inr n, files')"
proof -
  have e: "add_labels_to_files a b hs thr (sort_key fst files) = (Inr n, files')"
    using assms by (simp add: add_labels_to_parquet_def)
  then have "map fst files' = map fst (sort_key fst files)"
    using add_labels_keys [of a b hs thr "sort_key fst files"] by simp
  then have "sorted (map fst files')" by simp
  then have "sort_key fst files' = files'" by (rule sort_key_id_if_sorted)
  then show ?thesis using add_labels_files_again [OF e] by (simp add: add_labels_to_parquet_def)
qed

theorem labelling_idempotent_witness:
  "\<exists>n fs. add_labels_to_parquet ''2026-05-01'' ''2026-05-02'' [1] (Fin 1)
     [(''2026-05-01'', \<lparr>ft_mid_delta = Some [Fin 4, Fin 1], ft_hurst = None, ft_rows = 2, ft_labels = []\<rparr>)] = (Inr n, fs) \<and>
     add_labels_to_parquet ''2026-05-01'' ''2026-05-02'' [1] (Fin 1) fs = (Inr n, fs)"
proof -
  have "\<exists>n fs. add_labels_to_parquet ''2026-05-01'' ''2026-05-02'' [1] (Fin 1)
     [(''2026-05-01'', \<lparr>ft_mid_delta = Some [Fin 4, Fin 1], ft_hurst = None, ft_rows = 2, ft_labels = []\<rparr>)] = (Inr n, fs)"
    by (simp add: add_labels_to_parquet_def generate_reversion_labels_def Let_def)
  then show ?thesis using labelling_idempotent by blast
qed

end
