(* ===== verification/Ml_Registry.thy ===== *)
theory Ml_Registry
  imports Questdb
begin

text \<open>
  The model registry (\<open>ml_service/registry/registry.py\<close>), the prediction engine with its artifact cache
  (\<open>ml_service/inference/engine.py\<close>) and the training endpoint that connects them (\<open>ml_service/main.py\<close>).
  Every mutation of the registry holds its lock, so it is one step. A trained model is an argument: a scaling
  and a probability function; what is stored in an artifact directory is a map from its path.
\<close>

section \<open>Registry\<close>

record entry_m =
  rg_id :: string
  rg_exchange :: string
  rg_symbol :: string
  rg_regime :: string
  rg_cluster :: int
  rg_model_type :: string
  rg_cv_score :: f64
  rg_n_samples :: nat
  rg_feature_names :: "string list"
  rg_shap_summary :: "(string, f64) dict"
  rg_artifact_dir :: string

datatype manifest = Absent | Corrupt | Manifest "entry_m list"

record artifact =
  ar_transform :: "f64 list \<Rightarrow> f64 list res"
  ar_proba :: "f64 list \<Rightarrow> f64 list res"

record ml =
  ml_entries :: "entry_m list"
  ml_disk :: manifest
  ml_store :: "(string, artifact) dict"
  ml_cache :: "(string, artifact) dict"

definition load_manifest :: "manifest \<Rightarrow> entry_m list" where
  "load_manifest m = (case m of Absent \<Rightarrow> [] | Corrupt \<Rightarrow> [] | Manifest es \<Rightarrow> es)"

definition registry_start :: "manifest \<Rightarrow> (string, artifact) dict \<Rightarrow> ml" where
  "registry_start m store = \<lparr>ml_entries = load_manifest m, ml_disk = m, ml_store = store, ml_cache = []\<rparr>"

definition clear_cache :: "ml \<Rightarrow> ml" where
  "clear_cache s = s\<lparr>ml_cache := []\<rparr>"

definition reload_handler :: "ml \<Rightarrow> ml" where
  "reload_handler s = clear_cache (s\<lparr>ml_entries := load_manifest (ml_disk s)\<rparr>)"

type_synonym slot = "string \<times> string \<times> string \<times> int"

definition slot_of :: "entry_m \<Rightarrow> slot" where
  "slot_of e = (rg_exchange e, rg_symbol e, rg_regime e, rg_cluster e)"

text \<open>\<open>saved\<close> is what writing the manifest gives; memory is changed before it.\<close>

definition save_manifest :: "unit res \<Rightarrow> ml \<Rightarrow> unit res \<times> ml" where
  "save_manifest saved s = (case saved of Inl e \<Rightarrow> (Inl e, s) | Inr _ \<Rightarrow> (Inr (), s\<lparr>ml_disk := Manifest (ml_entries s)\<rparr>))"

definition upsert :: "unit res \<Rightarrow> entry_m \<Rightarrow> ml \<Rightarrow> string res \<times> ml" where
  "upsert saved e s =
     (let s1 = s\<lparr>ml_entries := filter (\<lambda>x. slot_of x \<noteq> slot_of e) (ml_entries s) @ [e]\<rparr>
      in case save_manifest saved s1 of (Inl x, s2) \<Rightarrow> (Inl x, s2) | (Inr _, s2) \<Rightarrow> (Inr (rg_id e), s2))"

definition get_model :: "slot \<Rightarrow> ml \<Rightarrow> entry_m option" where
  "get_model sl s = find (\<lambda>e. slot_of e = sl) (ml_entries s)"

definition delete_entry :: "unit res \<Rightarrow> string \<Rightarrow> ml \<Rightarrow> bool res \<times> ml" where
  "delete_entry saved entry_id s =
     (case find (\<lambda>e. rg_id e = entry_id) (ml_entries s) of
        None \<Rightarrow> (Inr False, s)
      | Some e \<Rightarrow>
          (case save_manifest saved (s\<lparr>ml_entries := filter (\<lambda>x. rg_id x \<noteq> entry_id) (ml_entries s)\<rparr>) of
             (Inl x, s1) \<Rightarrow> (Inl x, s1)
           | (Inr _, s1) \<Rightarrow> (Inr True, s1\<lparr>ml_store := dpop (rg_artifact_dir e) (ml_store s1)\<rparr>)))"

text \<open>
  The training endpoint: training has written the artifacts of each new entry to its directory; the
  entries are then registered in order, until a save fails.
\<close>

definition store_artifacts :: "(entry_m \<times> artifact) list \<Rightarrow> ml \<Rightarrow> ml" where
  "store_artifacts trained s =
     s\<lparr>ml_store := fold (\<lambda>(e, a) st. dset (rg_artifact_dir e) a st) trained (ml_store s)\<rparr>"

fun register_all :: "(entry_m \<Rightarrow> unit res) \<Rightarrow> entry_m list \<Rightarrow> ml \<Rightarrow> unit res \<times> ml" where
  "register_all saved [] s = (Inr (), s)"
| "register_all saved (e # es) s =
     (case upsert (saved e) e s of (Inl x, s1) \<Rightarrow> (Inl x, s1) | (Inr _, s1) \<Rightarrow> register_all saved es s1)"

definition train :: "(entry_m \<Rightarrow> unit res) \<Rightarrow> (entry_m \<times> artifact) list \<Rightarrow> ml \<Rightarrow> unit res \<times> ml" where
  "train saved trained s = register_all saved (map fst trained) (store_artifacts trained s)"

section \<open>Prediction\<close>

datatype prediction = PRevert | PFlat | PTrend

record signal_m =
  sm_label :: prediction
  sm_confidence :: f64
  sm_model_id :: "string option"
  sm_regime :: string
  sm_cluster :: int
  sm_deviation_bps :: f64

definition label_reverse :: "nat \<Rightarrow> prediction" where
  "label_reverse i = (if i = 0 then PRevert else if i = 1 then PFlat else if i = 2 then PTrend else PFlat)"

definition load_artifacts :: "string \<Rightarrow> ml \<Rightarrow> artifact option \<times> ml" where
  "load_artifacts dir s =
     (case map_of (ml_cache s) dir of
        Some a \<Rightarrow> (Some a, s)
      | None \<Rightarrow>
          (case map_of (ml_store s) dir of
             None \<Rightarrow> (None, s)
           | Some a \<Rightarrow> (Some a, s\<lparr>ml_cache := dset dir a (ml_cache s)\<rparr>)))"

definition flat_signal :: "string \<Rightarrow> f64 \<Rightarrow> signal_m" where
  "flat_signal regime dev = \<lparr>sm_label = PFlat, sm_confidence = Fin 1, sm_model_id = None, sm_regime = regime,
     sm_cluster = -1, sm_deviation_bps = dev\<rparr>"

text \<open>\<open>float(row.get(c) or dflt)\<close>.\<close>

definition row_float :: "(string, json) dict \<Rightarrow> string \<Rightarrow> f64 \<Rightarrow> f64 res" where
  "row_float row c dflt = (case map_of row c of None \<Rightarrow> Inr dflt | Some v \<Rightarrow> if jtruthy v then jfloat v else Inr dflt)"

text \<open>The first index of the largest value; a NaN counts as largest.\<close>

fun argmax_from :: "nat \<Rightarrow> nat \<Rightarrow> f64 \<Rightarrow> f64 list \<Rightarrow> nat" where
  "argmax_from i best m [] = best"
| "argmax_from i best m (x # xs) =
     (if \<not> is_nan m \<and> (is_nan x \<or> x > m) then argmax_from (Suc i) i x xs else argmax_from (Suc i) best m xs)"

definition argmax :: "f64 list \<Rightarrow> nat res" where
  "argmax xs = (case xs of [] \<Rightarrow> Inl ValueError | x # xs \<Rightarrow> Inr (argmax_from 1 0 x xs))"

definition best_entry :: "entry_m list \<Rightarrow> entry_m option" where
  "best_entry es = (case es of [] \<Rightarrow> None
     | e # es \<Rightarrow> Some (foldl (\<lambda>m x. if rg_cv_score x > rg_cv_score m then x else m) e es))"

definition candidates :: "string \<Rightarrow> string \<Rightarrow> string \<Rightarrow> ml \<Rightarrow> entry_m list" where
  "candidates ex sy regime s = filter (\<lambda>e. rg_exchange e = ex \<and> rg_symbol e = sy \<and> rg_regime e = regime \<and>
     rg_cluster e \<noteq> -1) (ml_entries s)"

definition best_class :: "artifact \<Rightarrow> f64 list \<Rightarrow> (nat \<times> f64) res" where
  "best_class a scaled = rbind (ar_proba a scaled) (\<lambda>proba. rbind (argmax proba) (\<lambda>i. Inr (i, proba ! i)))"

text \<open>The model's answer on a scaled row; what the model raises is caught, what the scaler raises is not.\<close>

definition model_signal :: "artifact \<Rightarrow> entry_m \<Rightarrow> f64 list \<Rightarrow> string \<Rightarrow> f64 \<Rightarrow> signal_m res" where
  "model_signal a e x regime dev =
     rbind (ar_transform a x) (\<lambda>scaled.
       case best_class a scaled of
         Inl _ \<Rightarrow> Inr (flat_signal regime dev)
       | Inr (i, confidence) \<Rightarrow> Inr \<lparr>sm_label = label_reverse i, sm_confidence = confidence,
           sm_model_id = Some (rg_id e), sm_regime = regime, sm_cluster = rg_cluster e, sm_deviation_bps = dev\<rparr>)"

definition hurst_gate :: "(string, json) dict \<Rightarrow> bool res" where
  "hurst_gate row = (case map_of row ''hurst_60'' of
       None \<Rightarrow> Inr False
     | Some JNull \<Rightarrow> Inr False
     | Some v \<Rightarrow> rbind (jfloat v) (\<lambda>h. Inr (Fin (1/2) \<le> h)))"

definition predict :: "(string, json) dict \<Rightarrow> string \<Rightarrow> string \<Rightarrow> string \<Rightarrow> ml \<Rightarrow> signal_m res \<times> ml" where
  "predict row ex sy regime s =
     (case row_float row ''microprice_mid_delta'' (Fin 0) of
        Inl e \<Rightarrow> (Inl e, s)
      | Inr dev \<Rightarrow>
          if regime \<in> {''TRENDING_UP'', ''TRENDING_DOWN''} then (Inr (flat_signal regime dev), s)
          else case hurst_gate row of
            Inl e \<Rightarrow> (Inl e, s)
          | Inr True \<Rightarrow> (Inr (flat_signal regime dev), s)
          | Inr False \<Rightarrow>
              (case best_entry (candidates ex sy regime s) of
                 None \<Rightarrow> (Inr (flat_signal regime dev), s)
               | Some best \<Rightarrow>
                   (case load_artifacts (rg_artifact_dir best) s of
                      (None, s1) \<Rightarrow> (Inr (flat_signal regime dev), s1)
                    | (Some a, s1) \<Rightarrow>
                        (rbind (rmap (\<lambda>c. row_float row c (Fin 0)) (rg_feature_names best)) (\<lambda>x.
                           model_signal a best x regime dev), s1))))"

section \<open>One model per slot\<close>

definition slots_unique :: "entry_m list \<Rightarrow> bool" where
  "slots_unique es \<longleftrightarrow> distinct (map slot_of es)"

definition ml_ok :: "ml \<Rightarrow> bool" where
  "ml_ok s \<longleftrightarrow> slots_unique (ml_entries s) \<and> slots_unique (load_manifest (ml_disk s))"

inductive ml_step :: "ml \<Rightarrow> ml \<Rightarrow> bool" where
  "ml_step s (snd (upsert saved e s))"
| "ml_step s (snd (delete_entry saved entry_id s))"
| "ml_step s (reload_handler s)"
| "ml_step s (snd (train saves trained s))"
| "ml_step s (snd (predict row ex sy regime s))"

lemma save_manifest_fields:
  "save_manifest saved s = (r, s') \<Longrightarrow> ml_entries s' = ml_entries s \<and> ml_store s' = ml_store s \<and>
     ml_cache s' = ml_cache s \<and> ml_disk s' \<in> {ml_disk s, Manifest (ml_entries s)}"
  by (auto simp: save_manifest_def split: sum.splits)

lemma slots_unique_filter: "slots_unique es \<Longrightarrow> slots_unique (filter P es)"
  by (simp add: slots_unique_def distinct_map_filter)

lemma slots_unique_upsert: "slots_unique es \<Longrightarrow> slots_unique (filter (\<lambda>x. slot_of x \<noteq> slot_of e) es @ [e])"
  using slots_unique_filter [of es "\<lambda>x. slot_of x \<noteq> slot_of e"] by (auto simp: slots_unique_def)

lemma save_ok:
  assumes "save_manifest saved s = (r, s')" "slots_unique (ml_entries s)" "slots_unique (load_manifest (ml_disk s))"
  shows "ml_ok s'"
  using save_manifest_fields [OF assms(1)] assms(2,3) by (auto simp: ml_ok_def load_manifest_def)

lemma upsert_ok: "ml_ok s \<Longrightarrow> ml_ok (snd (upsert saved e s))"
  using slots_unique_upsert [of "ml_entries s" e]
  by (auto simp: upsert_def Let_def ml_ok_def [of s] split: prod.splits sum.splits intro: save_ok)

lemma delete_ok: "ml_ok s \<Longrightarrow> ml_ok (snd (delete_entry saved entry_id s))"
  using slots_unique_filter [of "ml_entries s" "\<lambda>x. rg_id x \<noteq> entry_id"]
  by (auto simp: delete_entry_def ml_ok_def [of s] split: prod.splits sum.splits option.splits dest!: save_ok)
    (simp_all add: ml_ok_def)

lemma load_artifacts_fields:
  "load_artifacts dir s = (r, s') \<Longrightarrow> ml_entries s' = ml_entries s \<and> ml_disk s' = ml_disk s \<and> ml_store s' = ml_store s"
  by (auto simp: load_artifacts_def split: option.splits)

lemma predict_fields:
  "ml_entries (snd (predict row ex sy regime s)) = ml_entries s \<and> ml_disk (snd (predict row ex sy regime s)) = ml_disk s"
  using load_artifacts_fields
  by (auto simp: predict_def split: sum.splits option.splits prod.splits bool.splits)

lemma register_all_ok: "ml_ok s \<Longrightarrow> ml_ok (snd (register_all saved es s))"
proof (induction saved es s rule: register_all.induct)
  case (2 saved e es s)
  then show ?case using upsert_ok [OF 2(2), of "saved e" e] by (auto split: prod.splits sum.splits)
qed simp

lemma train_ok: "ml_ok s \<Longrightarrow> ml_ok (snd (train saved trained s))"
  using register_all_ok [of "store_artifacts trained s"] by (simp add: train_def store_artifacts_def ml_ok_def)

lemma ml_step_ok: "ml_step s s' \<Longrightarrow> ml_ok s \<Longrightarrow> ml_ok s'"
proof (induction rule: ml_step.induct)
  case (3 s)
  then show ?case by (simp add: reload_handler_def clear_cache_def ml_ok_def)
next
  case (5 s row ex sy regime)
  then show ?case using predict_fields [of row ex sy regime s] by (simp add: ml_ok_def)
qed (simp_all add: upsert_ok delete_ok train_ok)

lemma find_unique:
  "slots_unique es \<Longrightarrow> e \<in> set es \<Longrightarrow> find (\<lambda>x. slot_of x = slot_of e) es = Some e"
  by (induction es) (force simp: slots_unique_def image_iff)+

lemma upsert_entries:
  "ml_entries (snd (upsert saved e s)) = filter (\<lambda>x. slot_of x \<noteq> slot_of e) (ml_entries s) @ [e]"
  using save_manifest_fields by (auto simp: upsert_def Let_def split: prod.splits sum.splits)

lemma upsert_disk:
  "case saved of
     Inr _ \<Rightarrow> fst (upsert saved e s) = Inr (rg_id e) \<and>
       ml_disk (snd (upsert saved e s)) = Manifest (ml_entries (snd (upsert saved e s)))
   | Inl x \<Rightarrow> fst (upsert saved e s) = Inl x \<and> ml_disk (snd (upsert saved e s)) = ml_disk s"
  by (simp add: upsert_def save_manifest_def Let_def split: sum.split)

lemma delete_disk:
  "if i \<in> rg_id ` set (ml_entries s)
   then ml_entries (snd (delete_entry saved i s)) = filter (\<lambda>x. rg_id x \<noteq> i) (ml_entries s) \<and>
     (case saved of
        Inr _ \<Rightarrow> fst (delete_entry saved i s) = Inr True \<and>
          ml_disk (snd (delete_entry saved i s)) = Manifest (ml_entries (snd (delete_entry saved i s)))
      | Inl x \<Rightarrow> fst (delete_entry saved i s) = Inl x \<and> ml_disk (snd (delete_entry saved i s)) = ml_disk s)
   else delete_entry saved i s = (Inr False, s)"
proof (cases "find (\<lambda>e. rg_id e = i) (ml_entries s)")
  case None
  moreover from None have "i \<notin> rg_id ` set (ml_entries s)" by (auto simp: find_None_iff)
  ultimately show ?thesis by (simp add: delete_entry_def)
next
  case (Some e)
  then have "i \<in> rg_id ` set (ml_entries s)" by (auto simp: find_Some_iff)
  with Some show ?thesis by (simp add: delete_entry_def save_manifest_def split: sum.split)
qed

text \<open>
  C14. Each slot holds one model: through any history of trainings, deletions, reloads and predictions, failing saves included,
  no two entries share exchange, symbol, regime and cluster, in memory or in the manifest on disk. After
  a registration the slot's model in memory is the new entry while every other slot is as it was. A
  registration or deletion that succeeds leaves on disk exactly the entries in memory; one whose save fails
  raises and leaves the manifest as it was, so disk and memory differ until the next save or reload.
\<close>

theorem registry_one_model_per_slot:
  assumes "slots_unique (load_manifest m)" and "ml_step\<^sup>*\<^sup>* (registry_start m store) s"
  shows "slots_unique (ml_entries s) \<and> slots_unique (load_manifest (ml_disk s)) \<and>
    get_model (slot_of e) (snd (upsert saved e s)) = Some e \<and>
    (\<forall>sl. sl \<noteq> slot_of e \<longrightarrow> get_model sl (snd (upsert saved e s)) = get_model sl s) \<and>
    (case saved of
       Inr _ \<Rightarrow> fst (upsert saved e s) = Inr (rg_id e) \<and>
         ml_disk (snd (upsert saved e s)) = Manifest (ml_entries (snd (upsert saved e s)))
     | Inl x \<Rightarrow> fst (upsert saved e s) = Inl x \<and> ml_disk (snd (upsert saved e s)) = ml_disk s) \<and>
    (if i \<in> rg_id ` set (ml_entries s)
     then ml_entries (snd (delete_entry saved i s)) = filter (\<lambda>x. rg_id x \<noteq> i) (ml_entries s) \<and>
       (case saved of
          Inr _ \<Rightarrow> fst (delete_entry saved i s) = Inr True \<and>
            ml_disk (snd (delete_entry saved i s)) = Manifest (ml_entries (snd (delete_entry saved i s)))
        | Inl x \<Rightarrow> fst (delete_entry saved i s) = Inl x \<and> ml_disk (snd (delete_entry saved i s)) = ml_disk s)
     else delete_entry saved i s = (Inr False, s))"
proof -
  have ok: "ml_ok s" using assms(2)
  proof (induction rule: rtranclp_induct)
    case base
    then show ?case using assms(1) by (simp add: ml_ok_def registry_start_def)
  qed (rule ml_step_ok)
  have "get_model (slot_of e) (snd (upsert saved e s)) = Some e"
    unfolding get_model_def upsert_entries
    by (rule find_unique) (use ok slots_unique_upsert in \<open>auto simp: ml_ok_def\<close>)
  moreover have "find (\<lambda>x. slot_of x = sl) (filter (\<lambda>x. slot_of x \<noteq> slot_of e) xs @ [e]) = find (\<lambda>x. slot_of x = sl) xs"
    if "sl \<noteq> slot_of e" for sl xs using that by (induction xs) auto
  then have "\<forall>sl. sl \<noteq> slot_of e \<longrightarrow> get_model sl (snd (upsert saved e s)) = get_model sl s"
    by (simp add: get_model_def upsert_entries)
  ultimately show ?thesis
    using ok by (intro conjI upsert_disk delete_disk) (simp_all only: ml_ok_def)
qed

section \<open>What a prediction may say\<close>

lemma best_entry_max:
  assumes "best_entry es = Some b" "\<forall>e\<in>set es. \<not> is_nan (rg_cv_score e)"
  shows "b \<in> set es \<and> (\<forall>e\<in>set es. rg_cv_score e \<le> rg_cv_score b)"
proof -
  let ?best = "foldl (\<lambda>m x. if rg_cv_score x > rg_cv_score m then x else m)"
  have f: "?best m xs \<in> set (m # xs) \<and> (\<forall>y\<in>set (m # xs). rg_cv_score y \<le> rg_cv_score (?best m xs))"
    if "\<forall>y\<in>set (m # xs). \<not> is_nan (rg_cv_score y)" for m xs
    using that
  proof (induction xs arbitrary: m)
    case Nil
    then show ?case by (simp add: is_nan_def f64_le_refl)
  next
    case (Cons x xs)
    show ?case
    proof (cases "rg_cv_score m < rg_cv_score x")
      case True
      then show ?thesis using Cons.IH [of x] Cons.prems by (auto intro: f64_le_trans f64_less_imp_le)
    next
      case False
      then have "rg_cv_score x \<le> rg_cv_score m"
        using Cons.prems by (simp add: is_nan_def f64_not_less)
      then show ?thesis using Cons.IH [of m] Cons.prems False by (auto intro: f64_le_trans)
    qed
  qed
  show ?thesis using assms f by (cases es) (auto simp: best_entry_def)
qed

lemma model_signal_cases:
  "model_signal a e x regime dev = Inr sg \<Longrightarrow>
     sg = flat_signal regime dev \<or> sm_model_id sg = Some (rg_id e) \<and> sm_cluster sg = rg_cluster e"
  by (cases "ar_transform a x") (auto simp: model_signal_def split: sum.splits prod.splits)

lemma foldl_pick_mem: "foldl (\<lambda>m x. if P m x then x else m) m xs \<in> set (m # xs)"
proof (induction xs arbitrary: m)
  case (Cons x xs)
  show ?case using Cons [of x] Cons [of m] by (cases "P m x") auto
qed simp

text \<open>
  C40. A prediction other than FLAT is always backed by a model: the regime is not trending, a present Hurst exponent is below one
  half, and the signal names a registered non-noise model of exactly this exchange, symbol and regime, with
  the highest score among them when no score is NaN.
\<close>

theorem prediction_is_backed:
  assumes "fst (predict row ex sy regime s) = Inr sg" and "sm_label sg \<noteq> PFlat"
  shows "regime \<notin> {''TRENDING_UP'', ''TRENDING_DOWN''} \<and> hurst_gate row = Inr False \<and>
    (\<exists>e\<in>set (ml_entries s). rg_exchange e = ex \<and> rg_symbol e = sy \<and> rg_regime e = regime \<and> rg_cluster e \<noteq> -1 \<and>
      sm_model_id sg = Some (rg_id e) \<and>
      ((\<forall>x\<in>set (candidates ex sy regime s). \<not> is_nan (rg_cv_score x)) \<longrightarrow>
        (\<forall>x\<in>set (candidates ex sy regime s). rg_cv_score x \<le> rg_cv_score e)))"
proof -
  have nf: "sg \<noteq> flat_signal regime dev" for dev using assms(2) by (auto simp: flat_signal_def)
  obtain dev where dev: "row_float row ''microprice_mid_delta'' (Fin 0) = Inr dev"
    using assms(1) by (auto simp: predict_def split: sum.splits)
  have r: "regime \<notin> {''TRENDING_UP'', ''TRENDING_DOWN''}"
    using assms(1) nf [of dev] dev by (auto simp: predict_def)
  have h: "hurst_gate row = Inr False"
    using assms(1) nf [of dev] dev r by (auto simp: predict_def split: sum.splits bool.splits)
  obtain best where best: "best_entry (candidates ex sy regime s) = Some best"
    using assms(1) nf [of dev] dev r h by (auto simp: predict_def split: option.splits)
  obtain a x where m: "model_signal a best x regime dev = Inr sg"
    using assms(1) nf [of dev] dev r h best
    by (auto simp: predict_def rbind_Inr_iff split: option.splits prod.splits)
  have mem: "best \<in> set (candidates ex sy regime s)"
    using best foldl_pick_mem [of "\<lambda>m x. rg_cv_score x > rg_cv_score m"]
    by (cases "candidates ex sy regime s") (auto simp: best_entry_def)
  have "sm_model_id sg = Some (rg_id best)" using model_signal_cases [OF m] nf by blast
  then show ?thesis using r h mem best_entry_max [OF best] by (auto simp: candidates_def intro!: bexI [of _ best])
qed

section \<open>Retraining does not reach the engine\<close>

text \<open>
  C38. A retrained model is not used: once the artifacts of a directory are cached, a training that writes
  new artifacts to the same directory and registers a new entry changes the model id the signals carry, but
  they are still computed by the old model; only a reload signal or a restart changes that.
\<close>

theorem retrained_model_not_used:
  assumes "map_of (ml_cache s) (rg_artifact_dir e) = Some old"
    and "candidates (rg_exchange e) (rg_symbol e) (rg_regime e) s = [prev]" "slot_of prev = slot_of e" "rg_cluster e \<noteq> -1"
    and "train (\<lambda>_. Inr ()) [(e, new)] s = (Inr (), s')"
    and "row_float row ''microprice_mid_delta'' (Fin 0) = Inr dev" "hurst_gate row = Inr False"
    and "rg_regime e \<notin> {''TRENDING_UP'', ''TRENDING_DOWN''}"
    and "rmap (\<lambda>c. row_float row c (Fin 0)) (rg_feature_names e) = Inr x"
  shows "map_of (ml_store s') (rg_artifact_dir e) = Some new \<and>
    predict row (rg_exchange e) (rg_symbol e) (rg_regime e) s' = (model_signal old e x (rg_regime e) dev, s') \<and>
    fst (predict row (rg_exchange e) (rg_symbol e) (rg_regime e) (reload_handler s')) = model_signal new e x (rg_regime e) dev"
proof -
  have s': "ml_entries s' = filter (\<lambda>x. slot_of x \<noteq> slot_of e) (ml_entries s) @ [e]"
    "ml_store s' = dset (rg_artifact_dir e) new (ml_store s)" "ml_cache s' = ml_cache s"
    "ml_disk s' = Manifest (ml_entries s')"
    using assms(5) by (auto simp: train_def store_artifacts_def upsert_def save_manifest_def Let_def)
  have "filter (\<lambda>x. slot_of x \<noteq> slot_of e) (candidates (rg_exchange e) (rg_symbol e) (rg_regime e) s) = []"
    using assms(2,3) by simp
  then have c: "filter (\<lambda>x. rg_exchange x = rg_exchange e \<and> rg_symbol x = rg_symbol e \<and> rg_regime x = rg_regime e \<and>
      rg_cluster x \<noteq> -1) (filter (\<lambda>x. slot_of x \<noteq> slot_of e) (ml_entries s)) = []"
    by (auto simp: candidates_def filter_empty_conv)
  have cs: "candidates (rg_exchange e) (rg_symbol e) (rg_regime e) t = [e]" if "ml_entries t = ml_entries s'" for t
    using c assms(4) that by (simp add: candidates_def s')
  show ?thesis
    using cs [of s'] cs [of "reload_handler s'"] assms(1,6-9)
    by (simp add: predict_def best_entry_def load_artifacts_def s' reload_handler_def clear_cache_def load_manifest_def)
qed

section \<open>Instances\<close>

definition sample_entry :: "string \<Rightarrow> entry_m" where
  "sample_entry i = \<lparr>rg_id = i, rg_exchange = ''bybit'', rg_symbol = ''BTCUSDT'', rg_regime = ''RANGING'', rg_cluster = 0,
     rg_model_type = ''xgboost'', rg_cv_score = Fin (1/2), rg_n_samples = 200, rg_feature_names = [],
     rg_shap_summary = [], rg_artifact_dir = ''models/bybit''\<rparr>"

definition sample_artifact :: "f64 list \<Rightarrow> artifact" where
  "sample_artifact p = \<lparr>ar_transform = (\<lambda>x. Inr x), ar_proba = (\<lambda>x. Inr p)\<rparr>"

definition sample_ml :: ml where
  "sample_ml = \<lparr>ml_entries = [sample_entry ''m1''], ml_disk = Manifest [sample_entry ''m1''],
     ml_store = [(''models/bybit'', sample_artifact [Fin 1, Fin 0, Fin 0])],
     ml_cache = [(''models/bybit'', sample_artifact [Fin 1, Fin 0, Fin 0])]\<rparr>"

theorem registry_one_model_per_slot_witness:
  "\<exists>s. ml_step\<^sup>*\<^sup>* (registry_start (Manifest [sample_entry ''m1'']) []) s \<and>
     get_model (slot_of (sample_entry ''m2'')) s = Some (sample_entry ''m2'') \<and>
     ml_disk s = Manifest [sample_entry ''m2''] \<and> delete_entry (Inr ()) ''m1'' s = (Inr False, s)"
proof -
  let ?s0 = "registry_start (Manifest [sample_entry ''m1'']) []"
  let ?s1 = "snd (upsert (Inr ()) (sample_entry ''m2'') ?s0)"
  have u: "slots_unique (load_manifest (Manifest [sample_entry ''m1'']))"
    by (simp add: slots_unique_def load_manifest_def)
  have r: "ml_step\<^sup>*\<^sup>* ?s0 ?s1" by (intro r_into_rtranclp ml_step.intros)
  have e: "ml_entries ?s1 = [sample_entry ''m2'']"
    by (simp add: upsert_entries registry_start_def load_manifest_def slot_of_def sample_entry_def)
  have "get_model (slot_of (sample_entry ''m2'')) ?s1 = Some (sample_entry ''m2'')" "ml_disk ?s1 = Manifest [sample_entry ''m2'']"
    using registry_one_model_per_slot [OF u rtranclp.rtrancl_refl, where saved = "Inr ()" and e = "sample_entry ''m2''" and store = "[]"] e
    by simp_all
  moreover have "delete_entry (Inr ()) ''m1'' ?s1 = (Inr False, ?s1)"
    using registry_one_model_per_slot [OF u r, where saved = "Inr ()" and i = "''m1''"] unfolding e
    by (simp add: sample_entry_def)
  ultimately show ?thesis using r by blast
qed

theorem prediction_is_backed_witness:
  "\<exists>sg. fst (predict [] ''bybit'' ''BTCUSDT'' ''RANGING'' sample_ml) = Inr sg \<and> sm_model_id sg = Some ''m1'' \<and>
     hurst_gate [] = Inr False"
proof -
  have p: "fst (predict [] ''bybit'' ''BTCUSDT'' ''RANGING'' sample_ml) =
      Inr \<lparr>sm_label = PRevert, sm_confidence = Fin 1, sm_model_id = Some ''m1'', sm_regime = ''RANGING'',
           sm_cluster = 0, sm_deviation_bps = Fin 0\<rparr>"
    by (simp add: predict_def row_float_def hurst_gate_def candidates_def sample_ml_def sample_entry_def best_entry_def
        load_artifacts_def model_signal_def best_class_def sample_artifact_def argmax_def is_nan_def label_reverse_def numeral_2_eq_2)
  have "hurst_gate [] = Inr False" using prediction_is_backed [OF p] by simp
  then show ?thesis by (simp add: p)
qed

theorem retrained_model_not_used_witness:
  "\<exists>s' sg. train (\<lambda>_. Inr ()) [(sample_entry ''m2'', sample_artifact [Fin 0, Fin 0, Fin 1])] sample_ml = (Inr (), s') \<and>
     fst (predict [] ''bybit'' ''BTCUSDT'' ''RANGING'' s') = Inr sg \<and> sm_model_id sg = Some ''m2'' \<and> sm_label sg = PRevert"
proof -
  let ?new = "sample_artifact [Fin 0, Fin 0, Fin 1]"
  obtain s' where t: "train (\<lambda>_. Inr ()) [(sample_entry ''m2'', ?new)] sample_ml = (Inr (), s')"
    by (simp add: train_def store_artifacts_def upsert_def save_manifest_def Let_def)
  have "fst (predict [] ''bybit'' ''BTCUSDT'' ''RANGING'' s') =
      model_signal (sample_artifact [Fin 1, Fin 0, Fin 0]) (sample_entry ''m2'') [] ''RANGING'' (Fin 0)"
    using retrained_model_not_used [of sample_ml "sample_entry ''m2''" "sample_artifact [Fin 1, Fin 0, Fin 0]"
        "sample_entry ''m1''" ?new s' "[]" "Fin 0" "[]"] t
    by (simp add: sample_ml_def sample_entry_def candidates_def slot_of_def row_float_def hurst_gate_def)
  then show ?thesis using t
    by (simp add: model_signal_def best_class_def sample_artifact_def argmax_def is_nan_def label_reverse_def sample_entry_def)
qed

end
