(* ===== verification/Ml_Inference.thy ===== *)
theory Ml_Inference
  imports Event_Types Ml_Registry Ml_Labels
begin

text \<open>
  The live inference loops of the machine learning service: one per symbol
  (\<open>ml_service/inference/loop.py\<close>) and the spread loop (\<open>ml_service/inference/spread_arb.py\<close>). An
  iteration is a function of what its awaited calls answer; a loop that runs until it is cancelled is the
  list of its iterations. Fixed-point texts of floats are the argument \<open>fmt\<close>.
\<close>

section \<open>The loop of a symbol\<close>

definition row_query :: "string \<Rightarrow> string \<Rightarrow> string" where
  "row_query ex sy = ''SELECT * FROM snapshot_1s WHERE exchange='' @ [CHR 0x27] @ ex @ [CHR 0x27] @ '' AND symbol='' @
     [CHR 0x27] @ sy @ [CHR 0x27] @ '' ORDER BY ts DESC LIMIT 1''"

definition latest_row :: "json res \<Rightarrow> (string, json) dict option res" where
  "latest_row answer =
     rbind answer (\<lambda>data. rbind (jget data ''dataset'' JNull) (\<lambda>ds.
       if \<not> jtruthy ds then Inr None
       else rbind (jitem data ''columns'') (\<lambda>cs. rbind (column_names cs) (\<lambda>cols.
            rbind (jfirst ds) (\<lambda>row. rbind (jiter row) (\<lambda>vs. Inr (Some (zip_row cols vs))))))))"

definition regime_of :: "string option \<Rightarrow> string" where
  "regime_of val = (case val of None \<Rightarrow> ''RANGING'' | Some v \<Rightarrow> if v = [] then ''RANGING'' else v)"

record sym_loop =
  sl_last_ts :: "string option"
  sl_errors :: nat
  sl_published :: "entry list"
  sl_alarms :: nat        \<comment> \<open>error log lines of repeated errors\<close>

definition sym_loop_init :: sym_loop where
  "sym_loop_init = \<lparr>sl_last_ts = None, sl_errors = 0, sl_published = [], sl_alarms = 0\<rparr>"

text \<open>What one iteration is answered: the row, the regime, the outcome of the append and the latency.\<close>

record sym_answers =
  sa_row :: "(string, json) dict option res"
  sa_regime :: "string option res"
  sa_added :: "unit res"
  sa_latency_ms :: int

definition signal_name :: "prediction \<Rightarrow> string" where
  "signal_name p = (case p of PRevert \<Rightarrow> ''REVERT'' | PFlat \<Rightarrow> ''FLAT'' | PTrend \<Rightarrow> ''TREND'')"

definition signal_entry ::
  "(f64 \<Rightarrow> string) \<Rightarrow> string \<Rightarrow> string \<Rightarrow> string \<Rightarrow> signal_m \<Rightarrow> int \<Rightarrow> entry" where
  "signal_entry fmt ts ex sy sig latency =
     [(''ts'', ts), (''exchange'', ex), (''symbol'', sy), (''regime'', sm_regime sig),
      (''cluster'', int_str (sm_cluster sig)), (''signal'', signal_name (sm_label sig)),
      (''confidence'', fmt (sm_confidence sig)),
      (''model_id'', case sm_model_id sig of None \<Rightarrow> [] | Some i \<Rightarrow> i),
      (''deviation_bps'', fmt (sm_deviation_bps sig)), (''latency_ms'', int_str latency)]"

definition row_ts :: "(json \<Rightarrow> string) \<Rightarrow> (string, json) dict \<Rightarrow> string" where
  "row_ts other row = (case map_of row ''ts'' of None \<Rightarrow> ''None'' | Some v \<Rightarrow> jstr other v)"

text \<open>None: nothing new; else the entry to append and the time stamp it carries.\<close>

definition loop_body ::
  "(json \<Rightarrow> string) \<Rightarrow> (f64 \<Rightarrow> string) \<Rightarrow> string \<Rightarrow> string \<Rightarrow> sym_answers \<Rightarrow> string option \<Rightarrow> ml \<Rightarrow>
   (string \<times> entry) option res \<times> ml" where
  "loop_body other fmt ex sy a last_ts s =
     (case sa_row a of
        Inl e \<Rightarrow> (Inl e, s)
      | Inr None \<Rightarrow> (Inr None, s)
      | Inr (Some row) \<Rightarrow>
          if Some (row_ts other row) = last_ts then (Inr None, s)
          else case sa_regime a of
            Inl e \<Rightarrow> (Inl e, s)
          | Inr val \<Rightarrow>
              (case predict row ex sy (regime_of val) s of
                 (Inl e, s1) \<Rightarrow> (Inl e, s1)
               | (Inr sig, s1) \<Rightarrow>
                   (if map_of row ''ts'' = None then (Inl KeyError, s1)
                    else let ts = row_ts other row in
                      (rbind (sa_added a) (\<lambda>_. Inr (Some (ts, signal_entry fmt ts ex sy sig (sa_latency_ms a)))), s1))))"

definition loop_step ::
  "(json \<Rightarrow> string) \<Rightarrow> (f64 \<Rightarrow> string) \<Rightarrow> string \<Rightarrow> string \<Rightarrow> sym_answers \<Rightarrow> sym_loop \<times> ml \<Rightarrow> sym_loop \<times> ml" where
  "loop_step other fmt ex sy a st =
     (let (l, s) = st in
      case loop_body other fmt ex sy a (sl_last_ts l) s of
        (Inl e, s1) \<Rightarrow>
          (let n = Suc (sl_errors l) in
           (l\<lparr>sl_errors := n, sl_alarms := sl_alarms l + (if 3 \<le> n then 1 else 0)\<rparr>, s1))
      | (Inr None, s1) \<Rightarrow> (l, s1)
      | (Inr (Some (ts, e)), s1) \<Rightarrow>
          (l\<lparr>sl_published := sl_published l @ [e], sl_last_ts := Some ts, sl_errors := 0\<rparr>, s1))"

section \<open>Starting and stopping\<close>

text \<open>The tasks by key: whether the task is done.\<close>

type_synonym tasks = "(string, bool) dict"

definition task_key_m :: "string \<times> string \<Rightarrow> string" where
  "task_key_m s = fst s @ '':'' @ snd s"

fun start_loops :: "(string \<times> string) list \<Rightarrow> tasks \<Rightarrow> string list \<times> string list \<times> tasks" where
  "start_loops [] ts = ([], [], ts)"
| "start_loops (s # ss) ts =
     (let key = task_key_m s in
      if map_of ts key = Some False
      then (case start_loops ss ts of (started, running, ts') \<Rightarrow> (started, key # running, ts'))
      else (case start_loops ss (dset key False ts) of (started, running, ts') \<Rightarrow> (key # started, running, ts')))"

text \<open>An absent or empty list of keys stops every task.\<close>

fun stop_keys :: "string list \<Rightarrow> tasks \<Rightarrow> string list \<times> tasks" where
  "stop_keys [] ts = ([], ts)"
| "stop_keys (k # ks) ts =
     (case stop_keys ks (dpop k ts) of (stopped, ts') \<Rightarrow>
        (if map_of ts k = Some False then k # stopped else stopped, ts'))"

definition stop_loops :: "string list option \<Rightarrow> tasks \<Rightarrow> string list \<times> tasks" where
  "stop_loops keys ts = stop_keys (case keys of Some (k # ks) \<Rightarrow> k # ks | _ \<Rightarrow> dkeys ts) ts"

definition loop_status :: "tasks \<Rightarrow> (string, string) dict" where
  "loop_status ts = map (\<lambda>(k, finished). (k, if finished then ''stopped'' else ''running'')) ts"

section \<open>The spread loop\<close>

definition spread_window :: nat where "spread_window = 60"

definition zscore_threshold :: f64 where "zscore_threshold = Fin (3/2)"

definition stale_seconds :: f64 where "stale_seconds = Fin 5"

definition spread_query :: "string \<Rightarrow> string \<Rightarrow> string" where
  "spread_query ex sy = ''SELECT ts, best_bid, best_ask, hurst_60, adf_pvalue_60 FROM snapshot_1s WHERE exchange='' @
     [CHR 0x27] @ ex @ [CHR 0x27] @ '' AND symbol='' @ [CHR 0x27] @ sy @ [CHR 0x27] @ '' ORDER BY ts DESC LIMIT 1''"

text \<open>The row, None when there is none or anything fails, with the wall clock before the request.\<close>

definition fetch_latest :: "json res \<Rightarrow> f64 \<Rightarrow> (string, json) dict option \<times> f64" where
  "fetch_latest answer t = (case latest_row answer of Inl e \<Rightarrow> (None, t) | Inr r \<Rightarrow> (r, t))"

definition mid_m :: "(string, json) dict \<Rightarrow> f64 res" where
  "mid_m row = rbind (row_float row ''best_bid'' (Fin 0)) (\<lambda>b. rbind (row_float row ''best_ask'' (Fin 0)) (\<lambda>a.
     Inr (fdiv (b + a) (Fin 2))))"

datatype spread_signal = SConverge | SNeutral | SDiverge

record spread_result =
  sr_signal :: spread_signal
  sr_confidence :: f64
  sr_model_id :: "string option"

definition neutral :: spread_result where
  "neutral = \<lparr>sr_signal = SNeutral, sr_confidence = Fin 1, sr_model_id = None\<rparr>"

definition spread_name :: "nat \<Rightarrow> spread_signal" where
  "spread_name i = (if i = 0 then SConverge else if i = 1 then SNeutral else if i = 2 then SDiverge else SNeutral)"

definition spread_answer :: "artifact \<Rightarrow> entry_m \<Rightarrow> f64 list \<Rightarrow> spread_result" where
  "spread_answer a e scaled =
     (case best_class a scaled of
        Inl _ \<Rightarrow> neutral
      | Inr b \<Rightarrow> \<lparr>sr_signal = spread_name (fst b), sr_confidence = snd b, sr_model_id = Some (rg_id e)\<rparr>)"

definition predict_spread :: "(string, json) dict \<Rightarrow> ml \<Rightarrow> spread_result res \<times> ml" where
  "predict_spread row s =
     (case best_entry (filter (\<lambda>e. rg_symbol e = ''BTC-ETH-spread'') (ml_entries s)) of
        None \<Rightarrow> (Inr neutral, s)
      | Some best \<Rightarrow>
          (case load_artifacts (rg_artifact_dir best) s of
             (None, s1) \<Rightarrow> (Inr neutral, s1)
           | (Some a, s1) \<Rightarrow>
               (rbind (rmap (\<lambda>c. row_float row c (Fin 0)) (rg_feature_names best)) (\<lambda>x.
                rbind (ar_transform a x) (\<lambda>scaled.
                  Inr (spread_answer a best scaled))), s1)))"

record spread_loop =
  sp_kalman :: kalman
  sp_spreads :: "f64 list"
  sp_last_btc :: "string option"
  sp_last_eth :: "string option"
  sp_published :: "(string \<times> f64 \<times> f64 \<times> f64 \<times> f64 \<times> spread_result) list"
    \<comment> \<open>time stamp, spread, z-score, hedge ratio, p-value and result of each entry\<close>

definition spread_loop_init :: spread_loop where
  "spread_loop_init = \<lparr>sp_kalman = kalman_init process_noise observation_noise, sp_spreads = [],
     sp_last_btc = None, sp_last_eth = None, sp_published = []\<rparr>"

text \<open>What an iteration is given: both rows with the clock before their request, and the clock after.\<close>

record spread_answers =
  aw_btc :: "(string, json) dict option \<times> f64"
  aw_eth :: "(string, json) dict option \<times> f64"
  aw_now :: f64
  aw_added :: "unit res"

definition fresh :: "spread_answers \<Rightarrow> bool" where
  "fresh a \<longleftrightarrow> fst (aw_btc a) \<noteq> None \<and> fst (aw_eth a) \<noteq> None \<and>
     \<not> aw_now a - snd (aw_btc a) > stale_seconds \<and> \<not> aw_now a - snd (aw_eth a) > stale_seconds"

text \<open>\<open>deque(maxlen=60).append\<close>.\<close>

definition push_spread :: "f64 \<Rightarrow> f64 list \<Rightarrow> f64 list" where
  "push_spread x xs = (let ys = xs @ [x] in drop (length ys - spread_window) ys)"

definition p_value :: "(string, json) dict \<Rightarrow> f64 res" where
  "p_value row = row_float row ''adf_pvalue_60'' (Fin 1)"

text \<open>The result from a full window; \<open>stats\<close> gives its mean and standard deviation.\<close>

definition spread_decide ::
  "(f64 list \<Rightarrow> f64 \<times> f64) \<Rightarrow> (string, json) dict \<Rightarrow> f64 \<Rightarrow> f64 list \<Rightarrow> ml \<Rightarrow>
   (f64 \<times> f64 \<times> spread_result) res \<times> ml" where
  "spread_decide stats row spread window s =
     (let (mean, std) = stats window;
          zscore = (if std > fl (1 / 10 ^ 10) then fdiv (spread - mean) std else Fin 0)
      in case p_value row of
           Inl e \<Rightarrow> (Inl e, s)
         | Inr p \<Rightarrow>
             if \<bar>zscore\<bar> \<le> zscore_threshold \<or> p > fl (1/10) then (Inr (zscore, p, neutral), s)
             else (case predict_spread row s of (r, s1) \<Rightarrow> (rbind r (\<lambda>r. Inr (zscore, p, r)), s1)))"

definition spread_step ::
  "(json \<Rightarrow> string) \<Rightarrow> (f64 \<Rightarrow> f64) \<Rightarrow> (f64 list \<Rightarrow> f64 \<times> f64) \<Rightarrow> spread_answers \<Rightarrow> spread_loop \<times> ml \<Rightarrow> spread_loop \<times> ml" where
  "spread_step other logf stats a st =
     (let (l, s) = st in
      case (fst (aw_btc a), fst (aw_eth a)) of
        (Some row_btc, Some row_eth) \<Rightarrow>
          if \<not> fresh a then (l, s)
          else if map_of row_btc ''ts'' = None then (l, s)
          else if map_of row_eth ''ts'' = None then (l\<lparr>sp_last_btc := Some (row_ts other row_btc)\<rparr>, s)
          else let tb = row_ts other row_btc; te = row_ts other row_eth in
            if Some tb = sp_last_btc l \<and> Some te = sp_last_eth l then (l, s)
            else let l1 = l\<lparr>sp_last_btc := Some tb, sp_last_eth := Some te\<rparr> in
              (case rbind (mid_m row_btc) (\<lambda>b. rbind (mid_m row_eth) (\<lambda>e. Inr (b, e))) of
                 Inl _ \<Rightarrow> (l1, s)
               | Inr (mid_btc, mid_eth) \<Rightarrow>
                   if mid_btc \<le> Fin 0 \<or> mid_eth \<le> Fin 0 then (l1, s)
                   else let k = kalman_update (logf mid_btc) (logf mid_eth) (sp_kalman l1);
                            spread = logf mid_btc - ka_beta k * logf mid_eth;
                            window = push_spread spread (sp_spreads l1);
                            l2 = l1\<lparr>sp_kalman := k, sp_spreads := window\<rparr>
                        in if length window < spread_window then (l2, s)
                           else (case spread_decide stats row_btc spread window s of
                                   (Inl e, s1) \<Rightarrow> (l2, s1)
                                 | (Inr (z, p, r), s1) \<Rightarrow>
                                     (case aw_added a of
                                        Inl e \<Rightarrow> (l2, s1)
                                      | Inr _ \<Rightarrow> (l2\<lparr>sp_published := sp_published l2 @ [(tb, spread, z, ka_beta k, p, r)]\<rparr>, s1))))
      | _ \<Rightarrow> (l, s))"


section \<open>A row is published once\<close>

definition entry_ts :: "entry \<Rightarrow> string" where
  "entry_ts e = dget e ''ts'' []"

lemma entry_ts_signal [simp]: "entry_ts (signal_entry fmt ts ex sy sig latency) = ts"
  by (simp add: entry_ts_def signal_entry_def dget_def)

definition loop_ok :: "sym_loop \<Rightarrow> bool" where
  "loop_ok l \<longleftrightarrow> distinct_adj (map entry_ts (sl_published l)) \<and>
     sl_last_ts l = (if sl_published l = [] then None else Some (entry_ts (last (sl_published l))))"

lemma loop_body_publishes:
  "loop_body other fmt ex sy a lst s = (Inr (Some (ts, e)), s1) \<Longrightarrow>
     Some ts \<noteq> lst \<and> entry_ts e = ts \<and> (\<exists>row. sa_row a = Inr (Some row) \<and> ts = row_ts other row)"
  by (auto simp: loop_body_def Let_def rbind_Inr_iff split: sum.splits option.splits if_splits prod.splits)

lemma distinct_adj_snoc: "distinct_adj (xs @ [x]) \<longleftrightarrow> distinct_adj xs \<and> (xs \<noteq> [] \<longrightarrow> last xs \<noteq> x)"
  by (auto simp: distinct_adj_append_iff)

lemma loop_step_ok:
  assumes "loop_ok l" "loop_step other fmt ex sy a (l, s) = (l', s')"
  shows "loop_ok l' \<and> (sl_published l' = sl_published l \<or>
    (\<exists>e row. sl_published l' = sl_published l @ [e] \<and> sa_row a = Inr (Some row) \<and> entry_ts e = row_ts other row))"
proof (cases "loop_body other fmt ex sy a (sl_last_ts l) s")
  case (Pair r s1)
  show ?thesis
  proof (cases r)
    case (Inl e)
    then show ?thesis using assms Pair by (auto simp: loop_step_def Let_def loop_ok_def)
  next
    case (Inr p)
    show ?thesis
    proof (cases p)
      case None
      then show ?thesis using assms Pair Inr by (auto simp: loop_step_def loop_ok_def)
    next
      case (Some q)
      obtain ts e where q: "q = (ts, e)" by fastforce
      have l': "l' = l\<lparr>sl_published := sl_published l @ [e], sl_last_ts := Some ts, sl_errors := 0\<rparr>"
        using assms(2) Pair Inr Some q by (simp add: loop_step_def)
      show ?thesis
        using loop_body_publishes [of other fmt ex sy a "sl_last_ts l" s ts e s1] assms(1) Pair Inr Some q
        by (auto simp: l' loop_ok_def distinct_adj_snoc last_map)
    qed
  qed
qed

text \<open>
  The loop of a symbol is idempotent: over any sequence of iterations, failing ones included, two
  successive entries never carry the same time stamp, and every entry carries the time stamp of the row
  its iteration was answered.
\<close>

theorem loop_publishes_row_once:
  assumes "fold (loop_step other fmt ex sy) answers (sym_loop_init, s) = (l, s')"
  shows "distinct_adj (map entry_ts (sl_published l)) \<and> length (sl_published l) \<le> length answers \<and>
    (\<forall>e\<in>set (sl_published l). \<exists>a\<in>set answers. \<exists>row. sa_row a = Inr (Some row) \<and> entry_ts e = row_ts other row)"
proof -
  have "loop_ok l \<and> length (sl_published l) \<le> n + length answers \<and>
      (\<forall>e\<in>set (sl_published l). P e \<or> (\<exists>a\<in>set answers. \<exists>row. sa_row a = Inr (Some row) \<and> entry_ts e = row_ts other row))"
    if "loop_ok l0" "length (sl_published l0) \<le> n" "\<forall>e\<in>set (sl_published l0). P e"
      "fold (loop_step other fmt ex sy) answers (l0, s0) = (l, s')" for l0 s0 n P
    using that
  proof (induction answers arbitrary: l0 s0 n P)
    case Nil
    then show ?case by simp
  next
    case (Cons a answers)
    obtain l1 s1 where st: "loop_step other fmt ex sy a (l0, s0) = (l1, s1)" by fastforce
    let ?P = "\<lambda>e. P e \<or> (\<exists>row. sa_row a = Inr (Some row) \<and> entry_ts e = row_ts other row)"
    have ok: "loop_ok l1" "length (sl_published l1) \<le> Suc n" "\<forall>e\<in>set (sl_published l1). ?P e"
      using loop_step_ok [OF Cons.prems(1) st] Cons.prems(2,3) by auto
    show ?case using Cons.IH [OF ok, of s1] Cons.prems(4) st by auto
  qed
  from this [of sym_loop_init 0 "\<lambda>e. False"] show ?thesis
    using assms by (simp add: sym_loop_init_def loop_ok_def)
qed

definition trending_answer :: sym_answers where
  "trending_answer = \<lparr>sa_row = Inr (Some [(''ts'', JStr ''t'')]), sa_regime = Inr (Some ''TRENDING_UP''), sa_added = Inr (),
     sa_latency_ms = 0\<rparr>"

theorem loop_publishes_row_once_witness:
  "\<exists>l s'. fold (loop_step (\<lambda>_. []) (\<lambda>_. []) ''e'' ''s'') [trending_answer, trending_answer] (sym_loop_init, registry_start Absent [])
       = (l, s') \<and> distinct_adj (map entry_ts (sl_published l)) \<and> sl_published l \<noteq> []"
proof -
  have "\<exists>l s'. fold (loop_step (\<lambda>_. []) (\<lambda>_. []) ''e'' ''s'') [trending_answer, trending_answer]
      (sym_loop_init, registry_start Absent []) = (l, s') \<and> sl_published l \<noteq> []"
    by (simp add: loop_step_def loop_body_def sym_loop_init_def trending_answer_def row_ts_def jstr_def predict_def row_float_def
        regime_of_def Let_def)
  then show ?thesis using loop_publishes_row_once by blast
qed

section \<open>The spread loop keeps its gates\<close>

definition spread_ok :: "spread_loop \<Rightarrow> bool" where
  "spread_ok l \<longleftrightarrow> length (sp_spreads l) \<le> spread_window \<and>
     (\<forall>(ts, x, z, h, p, r)\<in>set (sp_published l). sr_signal r \<noteq> SNeutral \<longrightarrow>
        \<not> \<bar>z\<bar> \<le> zscore_threshold \<and> \<not> p > fl (1/10) \<and> sr_model_id r \<noteq> None) \<and>
     (sp_published l \<noteq> [] \<longrightarrow> length (sp_spreads l) = spread_window)"

lemma length_push_spread: "length (push_spread x xs) = min (Suc (length xs)) spread_window"
  by (simp add: push_spread_def Let_def)

lemma spread_answer_model: "sr_signal (spread_answer a e x) \<noteq> SNeutral \<Longrightarrow> sr_model_id (spread_answer a e x) \<noteq> None"
  by (cases "best_class a x") (simp_all add: spread_answer_def neutral_def)

lemma predict_spread_model:
  "predict_spread row s = (Inr r, s') \<Longrightarrow> sr_signal r \<noteq> SNeutral \<Longrightarrow> sr_model_id r \<noteq> None"
  by (auto simp: predict_spread_def neutral_def rbind_Inr_iff dest: spread_answer_model split: option.splits prod.splits)

lemma spread_decide_gates:
  "spread_decide stats row x w s = (Inr (z, p, r), s') \<Longrightarrow> sr_signal r \<noteq> SNeutral \<Longrightarrow>
     \<not> \<bar>z\<bar> \<le> zscore_threshold \<and> \<not> p > fl (1/10) \<and> sr_model_id r \<noteq> None"
  by (auto simp: spread_decide_def Let_def neutral_def rbind_Inr_iff dest: predict_spread_model
      split: prod.splits sum.splits if_splits)

lemma spread_step_ok: "spread_ok l \<Longrightarrow> spread_step other logf stats a (l, s) = (l', s') \<Longrightarrow> spread_ok l'"
proof -
  assume ok: "spread_ok l" and st: "spread_step other logf stats a (l, s) = (l', s')"
  define k where "k rb re = kalman_update (logf rb) (logf re) (sp_kalman l)" for rb re
  define x where "x rb re = logf rb - ka_beta (k rb re) * logf re" for rb re
  define w where "w rb re = push_spread (x rb re) (sp_spreads l)" for rb re
  consider "sp_spreads l' = sp_spreads l" "sp_published l' = sp_published l"
    | rb re where "sp_spreads l' = w rb re" "sp_published l' = sp_published l"
    | rb re row z p r ts h where "sp_spreads l' = w rb re" "length (w rb re) \<ge> spread_window"
        "spread_decide stats row (x rb re) (w rb re) s = (Inr (z, p, r), s')"
        "sp_published l' = sp_published l @ [(ts, x rb re, z, h, p, r)]"
    using st
    by (auto simp: spread_step_def Let_def k_def [symmetric] x_def [symmetric] w_def [symmetric]
        split: option.splits if_splits sum.splits prod.splits)
  then show ?thesis
  proof cases
    case 1
    then show ?thesis using ok by (simp add: spread_ok_def)
  next
    case 2
    then show ?thesis using ok by (auto simp: spread_ok_def w_def length_push_spread)
  next
    case 3
    then show ?thesis using ok spread_decide_gates [OF 3(3)]
      by (auto simp: spread_ok_def w_def length_push_spread)
  qed
qed

text \<open>
  The spread loop trades only behind its gates: over any sequence of iterations the window never holds more
  than 60 spreads, nothing is published before it is full, and every published signal other than NEUTRAL
  passed the z-score and the p-value gate and names a model.
\<close>

theorem spread_signals_gated:
  assumes "fold (spread_step other logf stats) answers (spread_loop_init, s) = (l, s')"
  shows "length (sp_spreads l) \<le> 60 \<and> (sp_published l \<noteq> [] \<longrightarrow> length (sp_spreads l) = 60) \<and>
    (\<forall>(ts, x, z, h, p, r)\<in>set (sp_published l). sr_signal r \<noteq> SNeutral \<longrightarrow>
       \<not> \<bar>z\<bar> \<le> Fin (3/2) \<and> \<not> p > fl (1/10) \<and> sr_model_id r \<noteq> None)"
proof -
  have "spread_ok (fst (fold (spread_step other logf stats) answers (spread_loop_init, s)))"
  proof (rule fold_invariant [where P = "\<lambda>st :: spread_loop \<times> ml. spread_ok (fst st)"])
    show "spread_ok (fst (spread_loop_init, s))" by (simp add: spread_ok_def spread_loop_init_def)
  next
    fix a and st :: "spread_loop \<times> ml"
    assume "spread_ok (fst st)"
    then show "spread_ok (fst (spread_step other logf stats a st))"
      using spread_step_ok [of "fst st" other logf stats a "snd st"] by (metis prod.collapse)
  qed
  then show ?thesis using assms by (simp add: spread_ok_def spread_window_def zscore_threshold_def)
qed

theorem spread_signals_gated_witness:
  "length (sp_spreads (fst (fold (spread_step (\<lambda>j. []) id (\<lambda>w. (Fin 0, Fin 1)))
     (replicate 3 \<lparr>aw_btc = (None, Fin 0), aw_eth = (None, Fin 0), aw_now = Fin 0, aw_added = Inr ()\<rparr>)
     (spread_loop_init, sample_ml)))) \<le> 60"
  using spread_signals_gated [OF prod.collapse [symmetric]] by blast

section \<open>Staleness and a perfect test result\<close>

text \<open>
  The staleness guard does not look at the data: with a window one short of full, rows with positive
  prices whose time stamps are any texts not seen before, however old, are published whenever the requests
  themselves took no more than five seconds.
\<close>

theorem stale_rows_published:
  assumes "aw_btc a = (Some rb, t)" "aw_eth a = (Some re, t')" "\<not> aw_now a - t > Fin 5" "\<not> aw_now a - t' > Fin 5"
    and "map_of rb ''ts'' = Some (JStr old)" "map_of re ''ts'' = Some (JStr old')" "Some old \<noteq> sp_last_btc l"
    and "mid_m rb = Inr pb" "mid_m re = Inr pe" "\<not> pb \<le> Fin 0" "\<not> pe \<le> Fin 0"
    and "length (sp_spreads l) = 59" "p_value rb = Inr p" "p > fl (1/10)" "aw_added a = Inr ()"
    and "spread_step other logf stats a (l, s) = (l', s')"
  shows "\<exists>x z h. sp_published l' = sp_published l @ [(old, x, z, h, p, neutral)]"
proof -
  let ?k = "kalman_update (logf pb) (logf pe) (sp_kalman l)"
  let ?x = "logf pb - ka_beta ?k * logf pe"
  let ?w = "push_spread ?x (sp_spreads l)"
  have w: "\<not> length ?w < spread_window" using assms(12) by (simp add: length_push_spread spread_window_def)
  obtain z where z: "spread_decide stats rb ?x ?w s = (Inr (z, p, neutral), s)"
    using assms(13,14) by (cases "stats ?w") (simp add: spread_decide_def Let_def)
  show ?thesis
    using assms z w by (auto simp: spread_step_def fresh_def stale_seconds_def row_ts_def jstr_def Let_def)
qed

theorem stale_rows_published_witness:
  "\<exists>l x z h. sp_published (fst (spread_step (\<lambda>j. []) id (\<lambda>w. (Fin 0, Fin 1))
      \<lparr>aw_btc = (Some [(''ts'', JStr ''1970''), (''best_bid'', JInt 2), (''best_ask'', JInt 2)], Fin 0),
       aw_eth = (Some [(''ts'', JStr ''1970''), (''best_bid'', JInt 2), (''best_ask'', JInt 2)], Fin 0),
       aw_now = Fin 1, aw_added = Inr ()\<rparr> (l, sample_ml))) = [(''1970'', x, z, h, Fin 1, neutral)]"
proof -
  let ?l = "spread_loop_init\<lparr>sp_spreads := replicate 59 (Fin 0)\<rparr>"
  let ?row = "[(''ts'', JStr ''1970''), (''best_bid'', JInt 2), (''best_ask'', JInt 2)]"
  let ?a = "\<lparr>aw_btc = (Some ?row, Fin 0), aw_eth = (Some ?row, Fin 0), aw_now = Fin 1, aw_added = Inr ()\<rparr>"
  have m: "mid_m ?row = Inr (Fin 2)" by code_simp
  have p: "p_value ?row = Inr (Fin 1)" by code_simp
  have c: "fl (1/10) < Fin 1" by code_simp
  have d: "\<not> Fin 5 < Fin 1 - Fin 0" by code_simp
  obtain l' s' where "spread_step (\<lambda>j. []) id (\<lambda>w. (Fin 0, Fin 1)) ?a (?l, sample_ml) = (l', s')" by fastforce
  from stale_rows_published [OF _ _ _ _ _ _ _ m m _ _ _ p c _ this, of "Fin 0" "Fin 0" "''1970''" "''1970''"] d this
  show ?thesis by (intro exI [of _ ?l]) (simp add: spread_loop_init_def)
qed

text \<open>
  A p-value of exactly zero is the strongest evidence that the pair is cointegrated; the code's \<open>or 1.0\<close>
  reads it as one, so it closes the gate.
\<close>

theorem zero_p_value_closes_gate:
  assumes "map_of row ''adf_pvalue_60'' = Some (JFloat (Fin 0))"
  shows "\<exists>z. spread_decide stats row x w s = (Inr (z, Fin 1, neutral), s)"
proof -
  have "fl (1/10) < Fin 1" by code_simp
  then show ?thesis
    using assms by (cases "stats w") (simp add: spread_decide_def p_value_def row_float_def jtruthy_def truthy_def Let_def)
qed

section \<open>Starting and stopping the loops\<close>

lemma start_loops_running:
  "start_loops ss ts = (started, running, ts') \<Longrightarrow>
     map_of ts' k = (if k \<in> set started then Some False else map_of ts k) \<and>
     set started \<union> set running = set (map task_key_m ss) \<and> distinct started \<and>
     (\<forall>k\<in>set started. map_of ts k \<noteq> Some False)"
proof (induction ss arbitrary: ts started running ts')
  case (Cons s ss)
  show ?case
  proof (cases "map_of ts (task_key_m s) = Some False")
    case True
    then obtain r' where "start_loops ss ts = (started, r', ts')" "running = task_key_m s # r'"
      using Cons.prems by (auto simp: Let_def split: prod.splits)
    then show ?thesis using Cons.IH by auto
  next
    case False
    then obtain st' where st: "start_loops ss (dset (task_key_m s) False ts) = (st', running, ts')"
        "started = task_key_m s # st'"
      using Cons.prems by (auto simp: Let_def split: prod.splits)
    have "task_key_m s \<notin> set st'" using Cons.IH [OF st(1)] by force
    then show ?thesis using Cons.IH [OF st(1)] st(2) False by (auto split: if_splits)
  qed
qed simp

text \<open>
  Starting is idempotent per symbol: after a start request each requested key has exactly one running loop; the keys
  reported as started are distinct and had none before, every other requested key is reported as
  already running, and no other task is touched.
\<close>

theorem one_loop_per_symbol:
  assumes "start_loops ss ts = (started, running, ts')"
  shows "distinct started \<and> set started \<union> set running = set (map task_key_m ss) \<and>
    (\<forall>k\<in>set started. map_of ts k \<noteq> Some False) \<and>
    (\<forall>k. map_of ts' k = (if k \<in> set started then Some False else map_of ts k))"
  using start_loops_running [OF assms] by blast

theorem one_loop_per_symbol_witness:
  "\<exists>started running ts. start_loops [(''bybit'', ''BTCUSDT''), (''bybit'', ''BTCUSDT'')] [] = (started, running, ts) \<and>
     distinct started \<and> started \<noteq> []"
proof -
  obtain started running ts where st:
    "start_loops [(''bybit'', ''BTCUSDT''), (''bybit'', ''BTCUSDT'')] [] = (started, running, ts)" "started \<noteq> []"
    by (simp add: task_key_m_def Let_def)
  then show ?thesis using one_loop_per_symbol [OF st(1)] by blast
qed

end
