(* ===== verification/Ml_Training.thy ===== *)
theory Ml_Training
  imports Ml_Labels
begin

text \<open>
  Training (\<open>ml_service/training/trainer.py\<close>) and clustering (\<open>ml_service/clustering/pipeline.py\<close>): the purged
  walk-forward splits, the choice among the candidate models, the loop over regimes and clusters,
  and the assignment of cluster labels. Fitting and scoring a model, and the clustering itself, are
  arguments; a block of rows is its first index and the index after its last. A cluster is an integer: the text of one
  that pandas holds as a float because of missing values would have a decimal place.
\<close>

section \<open>Walk-forward splits\<close>

definition purge_gap :: nat where "purge_gap = 5"

definition min_samples :: nat where "min_samples = 200"

record split =
  sp_train_end :: nat
  sp_test_start :: nat
  sp_test_end :: nat

definition split_at :: "nat \<Rightarrow> nat \<Rightarrow> nat \<Rightarrow> split" where
  "split_at fold_size gap i =
     (let train_end = fold_size * (i + 1); test_start = train_end + gap
      in \<lparr>sp_train_end = train_end, sp_test_start = test_start, sp_test_end = test_start + fold_size\<rparr>)"

definition purged_wf_splits :: "nat \<Rightarrow> nat \<Rightarrow> nat \<Rightarrow> split list" where
  "purged_wf_splits n n_splits gap =
     takeWhile (\<lambda>s. \<not> sp_test_end s > n) (map (split_at (n div (n_splits + 1)) gap) [0..<n_splits])"

section \<open>Choosing a model\<close>

datatype model_type = XGBoost | RandomForest | LogisticRegression

definition class_weight :: "nat \<Rightarrow> f64 res" where
  "class_weight v = (if v = 0 \<or> v = 2 then Inr (Fin 2) else if v = 1 then Inr (Fin 1) else Inl KeyError)"

definition make_sample_weights :: "nat list \<Rightarrow> f64 list res" where
  "make_sample_weights y = rmap class_weight y"

text \<open>
  \<open>score t s w\<close>: fitting a fresh model with the weights on the training rows and its weighted F1 on the test rows; a
  failure of it counts zero.
\<close>

definition fold_score ::
  "(model_type \<Rightarrow> split \<Rightarrow> f64 list \<Rightarrow> f64 res) \<Rightarrow> nat list \<Rightarrow> model_type \<Rightarrow> split \<Rightarrow> f64 res" where
  "fold_score score y t s =
     rbind (make_sample_weights (take (sp_train_end s) y)) (\<lambda>w.
       Inr (case score t s w of Inl e \<Rightarrow> Fin 0 | Inr x \<Rightarrow> x))"

definition mean_score :: "f64 list \<Rightarrow> f64" where
  "mean_score xs = (if xs = [] then Fin 0 else fdiv (sum_f64 xs) (of_nat_f64 (length xs)))"

definition cv_score ::
  "(model_type \<Rightarrow> split \<Rightarrow> f64 list \<Rightarrow> f64 res) \<Rightarrow> nat list \<Rightarrow> nat \<Rightarrow> model_type \<Rightarrow> f64 res" where
  "cv_score score y n_splits t =
     rbind (rmap (fold_score score y t) (purged_wf_splits (length y) n_splits purge_gap)) (\<lambda>xs. Inr (mean_score xs))"

definition candidate_types :: "model_type list" where
  "candidate_types = [XGBoost, RandomForest, LogisticRegression]"

text \<open>The loop over the candidates: the scores so far and the best type and score so far.\<close>

fun choose_model ::
  "(model_type \<Rightarrow> f64 res) \<Rightarrow> model_type list \<Rightarrow> (model_type, f64) dict \<times> model_type \<times> f64 \<Rightarrow>
   ((model_type, f64) dict \<times> model_type \<times> f64) res" where
  "choose_model mean_of [] st = Inr st"
| "choose_model mean_of (t # ts) st =
     rbind (mean_of t) (\<lambda>m. case st of (scores, best, best_score) \<Rightarrow>
       choose_model mean_of ts (dset t m scores, if m > best_score then (t, m) else (best, best_score)))"

definition train_one ::
  "(model_type \<Rightarrow> split \<Rightarrow> f64 list \<Rightarrow> f64 res) \<Rightarrow> (model_type \<Rightarrow> f64 list \<Rightarrow> unit res) \<Rightarrow> nat list \<Rightarrow> nat \<Rightarrow>
   ((model_type, f64) dict \<times> model_type \<times> f64) res" where
  "train_one score fit y n_splits =
     rbind (choose_model (cv_score score y n_splits) candidate_types ([], LogisticRegression, Fin (-1))) (\<lambda>r.
     rbind (make_sample_weights y) (\<lambda>sw. rbind (fit (fst (snd r)) sw) (\<lambda>_. Inr r)))"

section \<open>The feature files\<close>

text \<open>
  A row: time, regime, cluster, the label trained for, and all other columns (features, prices, other labels);
  None and null for a missing value, also for a column the row's file does not have. A file has its columns.
\<close>

record feat_row =
  fr_ts :: int
  fr_regime :: "string option"
  fr_cluster :: "int option"
  fr_label :: "string option"
  fr_rest :: "(string, json) dict"

record feat_file =
  ff_date :: string
  ff_cols :: "string list"
  ff_rows :: "feat_row list"

definition in_range :: "string \<Rightarrow> string \<Rightarrow> feat_file \<Rightarrow> bool" where
  "in_range start_date end_date f = (start_date \<le> ff_date f \<and> ff_date f \<le> end_date)"

definition frames_of :: "string \<Rightarrow> string \<Rightarrow> feat_file list \<Rightarrow> feat_file list" where
  "frames_of start_date end_date files = filter (in_range start_date end_date) (sort_key ff_date files)"

definition has_col :: "string \<Rightarrow> feat_file list \<Rightarrow> bool" where
  "has_col c frames = (\<exists>f\<in>set frames. c \<in> set (ff_cols f))"

definition default_col :: "string \<Rightarrow> (feat_row \<Rightarrow> feat_row) \<Rightarrow> feat_file list \<Rightarrow> feat_row list \<Rightarrow> feat_row list" where
  "default_col c f frames rows = (if has_col c frames then rows else map f rows)"

section \<open>The training run\<close>

record trained =
  td_regime :: string
  td_cluster :: int
  td_model_type :: model_type
  td_cv_score :: f64
  td_n_samples :: nat
  td_scores :: "(model_type, f64) dict"

datatype train_result = NoData | TargetNotFound string | Trained "(string, trained) dict"

definition label_class :: "string option \<Rightarrow> nat" where
  "label_class l = (if l = Some ''REVERT'' then 0 else if l = Some ''TREND'' then 2 else 1)"

fun unique_vals :: "'a list \<Rightarrow> 'a list" where
  "unique_vals [] = []"
| "unique_vals (x # xs) = x # filter (\<lambda>y. y \<noteq> x) (unique_vals xs)"

definition present :: "('r \<Rightarrow> 'a option) \<Rightarrow> 'r list \<Rightarrow> 'a list" where
  "present f rows = unique_vals (concat (map (\<lambda>r. case f r of None \<Rightarrow> [] | Some v \<Rightarrow> [v]) rows))"

definition skip_regimes :: "string list" where
  "skip_regimes = [''TRENDING_UP'', ''TRENDING_DOWN'']"

definition group_rows :: "feat_row list \<Rightarrow> string \<Rightarrow> int \<Rightarrow> feat_row list" where
  "group_rows rows regime cluster =
     filter (\<lambda>r. fr_regime r = Some regime \<and> fr_cluster r = Some cluster \<and> fr_label r \<noteq> None \<and> fr_label r \<noteq> Some []) rows"

text \<open>\<open>score rows\<close> scores on the chosen rows; \<open>fit rows\<close> is the final fit, whose failure ends the run.\<close>

definition train_group ::
  "(feat_row list \<Rightarrow> model_type \<Rightarrow> split \<Rightarrow> f64 list \<Rightarrow> f64 res) \<Rightarrow> (feat_row list \<Rightarrow> model_type \<Rightarrow> f64 list \<Rightarrow> unit res) \<Rightarrow>
   feat_row list \<Rightarrow> string \<times> int \<Rightarrow> (string \<times> trained) option res" where
  "train_group score fit rows g =
     (let part = group_rows rows (fst g) (snd g) in
      if fst g \<in> set skip_regimes \<or> snd g = -1 \<or> length part < min_samples then Inr None
      else rbind (train_one (score part) (fit part) (map (label_class \<circ> fr_label) part) 5) (\<lambda>r.
           Inr (Some (fst g @ ''/'' @ int_str (snd g),
             \<lparr>td_regime = fst g, td_cluster = snd g, td_model_type = fst (snd r), td_cv_score = py_round (snd (snd r)) 4,
              td_n_samples = length part, td_scores = fst r\<rparr>))))"

definition groups_of :: "feat_row list \<Rightarrow> (string \<times> int) list" where
  "groups_of rows =
     concat (map (\<lambda>regime. map (\<lambda>c. (regime, c)) (present fr_cluster (filter (\<lambda>r. fr_regime r = Some regime) rows)))
       (present fr_regime rows))"

fun train_groups ::
  "(string \<times> int \<Rightarrow> (string \<times> trained) option res) \<Rightarrow> (string \<times> int) list \<Rightarrow> (string, trained) dict \<Rightarrow> (string, trained) dict res" where
  "train_groups step [] results = Inr results"
| "train_groups step (g # gs) results =
     rbind (step g) (\<lambda>r. train_groups step gs (case r of None \<Rightarrow> results | Some kt \<Rightarrow> dset (fst kt) (snd kt) results))"

text \<open>The sort of the source is not stable; rows of one time keep their order here.\<close>

definition training_rows :: "feat_file list \<Rightarrow> feat_row list" where
  "training_rows frames =
     default_col ''cluster'' (fr_cluster_update (\<lambda>_. Some 0)) frames
       (default_col ''regime'' (fr_regime_update (\<lambda>_. Some ''RANGING'')) frames
         (sort_key fr_ts (concat (map ff_rows frames))))"

definition run_training ::
  "(feat_row list \<Rightarrow> model_type \<Rightarrow> split \<Rightarrow> f64 list \<Rightarrow> f64 res) \<Rightarrow> (feat_row list \<Rightarrow> model_type \<Rightarrow> f64 list \<Rightarrow> unit res) \<Rightarrow>
   string \<Rightarrow> string \<Rightarrow> string \<Rightarrow> feat_file list \<Rightarrow> train_result res" where
  "run_training score fit target start_date end_date files =
     (let frames = frames_of start_date end_date files in
      if frames = [] then Inr (NoData)
      else if \<not> has_col target frames then Inr (TargetNotFound target)
      else let df = training_rows frames in
        rbind (train_groups (train_group score fit df) (groups_of df) []) (\<lambda>d. Inr (Trained d)))"

section \<open>Clustering\<close>













section \<open>The splits\<close>

lemma purged_split_nth:
  assumes "i < length (purged_wf_splits n k gap)"
  shows "purged_wf_splits n k gap ! i = split_at (n div (k + 1)) gap i \<and> i < k"
proof -
  have l: "length (purged_wf_splits n k gap) \<le> k"
    unfolding purged_wf_splits_def by (rule order_trans [OF length_takeWhile_le]) simp
  then show ?thesis using assms unfolding purged_wf_splits_def by (simp add: takeWhile_nth)
qed

lemma purged_splits_mem:
  assumes "s \<in> set (purged_wf_splits n k gap)"
  obtains i where "i < k" "s = split_at (n div (k + 1)) gap i" "sp_test_end s \<le> n"
proof -
  have a: "\<not> sp_test_end s > n" "s \<in> set (map (split_at (n div (k + 1)) gap) [0..<k])"
    using assms set_takeWhileD unfolding purged_wf_splits_def by fast+
  from a(2) obtain i where "i < k" "s = split_at (n div (k + 1)) gap i" by auto
  then show thesis using a(1) that by simp
qed

lemma split_at_fields [simp]:
  "sp_train_end (split_at f gap i) = f * (i + 1)"
  "sp_test_start (split_at f gap i) = f * (i + 1) + gap"
  "sp_test_end (split_at f gap i) = f * (i + 1) + gap + f"
  by (simp_all add: split_at_def Let_def)

lemma takeWhile_map_upt:
  assumes "\<And>i. i < m \<Longrightarrow> P (h i)" and "m < k \<Longrightarrow> \<not> P (h m)" and "m \<le> k"
  shows "takeWhile P (map h [0..<k]) = map h [0..<m]"
proof -
  have "[0..<k] = [0..<m] @ [m..<k]" using assms(3) upt_add_eq_append [of 0 m "k - m"] by simp
  then have "map h [0..<k] = map h [0..<m] @ map h [m..<k]" by simp
  moreover have "takeWhile P (map h [m..<k]) = []" using assms(2) by (cases "m < k") (simp_all add: upt_conv_Cons)
  moreover have "takeWhile P (map h [0..<m] @ map h [m..<k]) = map h [0..<m] @ takeWhile P (map h [m..<k])"
    by (rule takeWhile_append2) (use assms(1) in auto)
  ultimately show ?thesis by simp
qed

lemma purged_splits_eq:
  assumes "gap \<le> n div (k + 1)" and "0 < k"
  shows "purged_wf_splits n k gap = map (split_at (n div (k + 1)) gap) [0..<if n mod (k + 1) < gap then k - 1 else k]"
  unfolding purged_wf_splits_def
proof (rule takeWhile_map_upt)
  define f where "f = n div (k + 1)"
  have n: "n = f * (k + 1) + n mod (k + 1)" unfolding f_def by (metis div_mult_mod_eq mult.commute)
  have last: "f * (k - 1 + 1) + gap + f = f * (k + 1) + gap" using assms(2) by (simp add: algebra_simps)
  show "\<not> sp_test_end (split_at (n div (k + 1)) gap i) > n" if "i < (if n mod (k + 1) < gap then k - 1 else k)" for i
  proof (cases "i < k - 1")
    case True
    then have "f * (i + 2) \<le> f * k" by (intro mult_le_mono) auto
    moreover have "f * (k + 1) = f * k + f" by simp
    ultimately have "f * (i + 1) + gap + f \<le> f * (k + 1)" using assms(1) unfolding f_def [symmetric] by simp
    then have "f * (i + 1) + gap + f \<le> n" using n by linarith
    then show ?thesis unfolding f_def [symmetric] split_at_fields by linarith
  next
    case False
    then have "i = k - 1" and "\<not> n mod (k + 1) < gap" using that by (auto split: if_splits)
    then have "f * (i + 1) + gap + f = f * (k + 1) + gap" "gap \<le> n mod (k + 1)" using last by auto
    then show ?thesis using n unfolding f_def [symmetric] split_at_fields by linarith
  qed
  show "\<not> \<not> sp_test_end (split_at (n div (k + 1)) gap (if n mod (k + 1) < gap then k - 1 else k)) > n"
    if "(if n mod (k + 1) < gap then k - 1 else k) < k"
  proof -
    have "n mod (k + 1) < gap" using that by (auto split: if_splits)
    then have "n < f * (k - 1 + 1) + gap + f" using last n by linarith
    then show ?thesis using \<open>n mod (k + 1) < gap\<close> unfolding f_def [symmetric] split_at_fields if_P [OF \<open>n mod (k + 1) < gap\<close>] by blast
  qed
qed simp

text \<open>
  The cross validation is walk-forward and purged: in every split the training rows are a prefix, the test
  block starts the gap after it and lies inside the data, and the test blocks have one size and do not overlap.
  Of the requested splits all but the last are always produced, and the last one only when the rows left over by
  the division into blocks are at least the gap: with the literals 5 and 5 that is one length in six.
\<close>

theorem purged_splits_sound:
  assumes "gap \<le> n div (k + 1)" and "0 < k"
  shows "(\<forall>s\<in>set (purged_wf_splits n k gap). sp_test_start s = sp_train_end s + gap \<and>
      sp_test_end s = sp_test_start s + n div (k + 1) \<and> sp_test_end s \<le> n) \<and>
    sorted_wrt (\<lambda>s t. sp_test_end s \<le> sp_test_start t \<and> sp_train_end s < sp_train_end t \<or> n < k + 1)
      (purged_wf_splits n k gap) \<and>
    length (purged_wf_splits n k gap) = (if n mod (k + 1) < gap then k - 1 else k)"
proof -
  have "sp_test_end s \<le> n" if "s \<in> set (purged_wf_splits n k gap)" for s
    using that by (rule purged_splits_mem) simp
  moreover have "sp_test_start s = sp_train_end s + gap \<and> sp_test_end s = sp_test_start s + n div (k + 1)"
    if "s \<in> set (purged_wf_splits n k gap)" for s
    using that by (rule purged_splits_mem) simp
  moreover have "sorted_wrt (\<lambda>s t. sp_test_end s \<le> sp_test_start t \<and> sp_train_end s < sp_train_end t \<or> n < k + 1)
      (purged_wf_splits n k gap)"
  proof -
    have "sp_test_end (split_at f gap i) \<le> sp_test_start (split_at f gap j) \<and>
        sp_train_end (split_at f gap i) < sp_train_end (split_at f gap j) \<or> n < k + 1"
      if "i < j" "f = n div (k + 1)" for i j f
    proof (cases "n < k + 1")
      case False
      then have "0 < f" using that(2) by (simp add: div_greater_zero_iff)
      have "f * (i + 2) \<le> f * (j + 1)" using that(1) by (intro mult_le_mono) auto
      then show ?thesis using \<open>0 < f\<close> that(1) by simp
    qed simp
    then show ?thesis
      unfolding purged_splits_eq [OF assms] sorted_wrt_map
      by (intro sorted_wrt_mono_rel [OF _ sorted_wrt_upt]) blast
  qed
  ultimately show ?thesis unfolding purged_splits_eq [OF assms, THEN arg_cong, of length] by auto
qed

lemma purged_splits_sound_witness:
  "length (purged_wf_splits 240 5 purge_gap) = 4 \<and> length (purged_wf_splits 245 5 purge_gap) = 5"
  using purged_splits_sound [of purge_gap 240 5] purged_splits_sound [of purge_gap 245 5] by (simp add: purge_gap_def)

section \<open>Training\<close>

lemma label_class_cases: "label_class l = 0 \<or> label_class l = 1 \<or> label_class l = 2"
  by (simp add: label_class_def)

lemma weights_total:
  assumes "\<forall>v\<in>set y. v = 0 \<or> v = 1 \<or> v = 2"
  shows "\<exists>w. make_sample_weights y = Inr w"
  using assms unfolding make_sample_weights_def
  by (induction y) (auto simp: class_weight_def)

lemma label_weights_total: "\<exists>w. make_sample_weights (map (label_class \<circ> f) rows) = Inr w"
  by (rule weights_total) (use label_class_cases in auto)

lemma choose_model_keys:
  "choose_model mean_of ts st = Inr st' \<Longrightarrow> set (dkeys (fst st')) = set (dkeys (fst st)) \<union> set ts"
proof (induction ts arbitrary: st)
  case (Cons t ts)
  obtain scores best b where st: "st = (scores, best, b)" by (cases st) auto
  obtain m where "mean_of t = Inr m" using Cons.prems by (cases "mean_of t") auto
  with Cons.prems Cons.IH [of "(dset t m scores, if m > b then (t, m) else (best, b))"] show ?case
    by (simp add: st)
qed simp

text \<open>A best score that is a number is never beaten by an earlier score, and it belongs to the best type.\<close>

definition best_so_far :: "(model_type, f64) dict \<times> model_type \<times> f64 \<Rightarrow> bool" where
  "best_so_far st = (\<not> is_nan (snd (snd st)) \<and> (\<forall>t m. map_of (fst st) t = Some m \<longrightarrow> \<not> m > snd (snd st)))"

lemma f64_gt_trans: "\<not> (m::f64) > b \<Longrightarrow> c > b \<Longrightarrow> \<not> m > c"
  by (cases m; cases b; cases c) auto

lemma f64_gt_not_nan: "(m::f64) > b \<Longrightarrow> \<not> is_nan m"
  by (cases m; cases b) (auto simp: is_nan_def)

lemma f64_not_gt_self: "\<not> (m::f64) > m"
  by (cases m) auto

lemma choose_model_best:
  "choose_model mean_of ts st = Inr st' \<Longrightarrow> best_so_far st \<Longrightarrow> distinct ts \<Longrightarrow> set ts \<inter> set (dkeys (fst st)) = {} \<Longrightarrow>
   best_so_far st' \<and> (snd st' = snd st \<or> map_of (fst st') (fst (snd st')) = Some (snd (snd st'))) \<and>
   (\<forall>t. t \<notin> set ts \<longrightarrow> map_of (fst st') t = map_of (fst st) t)"
proof (induction ts arbitrary: st)
  case (Cons t ts)
  obtain scores best b where st: "st = (scores, best, b)" by (cases st) auto
  obtain m where m: "mean_of t = Inr m" using Cons.prems by (cases "mean_of t") auto
  define st1 where "st1 = (dset t m scores, if m > b then (t, m) else (best, b))"
  have run: "choose_model mean_of ts st1 = Inr st'" using Cons.prems(1) by (simp add: st m st1_def)
  have b: "\<not> is_nan b" "\<And>t' m'. map_of scores t' = Some m' \<Longrightarrow> \<not> m' > b"
    using Cons.prems(2) by (auto simp: best_so_far_def st)
  have "best_so_far st1"
    unfolding best_so_far_def st1_def using b f64_gt_trans [OF b(2)] f64_gt_not_nan f64_not_gt_self by auto
  moreover have "set ts \<inter> set (dkeys (fst st1)) = {}" using Cons.prems(3,4) by (auto simp: st1_def st)
  ultimately have IH: "best_so_far st' \<and> (snd st' = snd st1 \<or> map_of (fst st') (fst (snd st')) = Some (snd (snd st'))) \<and>
      (\<forall>t. t \<notin> set ts \<longrightarrow> map_of (fst st') t = map_of (fst st1) t)"
    using Cons.IH run Cons.prems(3) by simp
  have "map_of (fst st') t = Some m" using IH Cons.prems(3) by (simp add: st1_def)
  moreover have "\<forall>t'. t' \<notin> set (t # ts) \<longrightarrow> map_of (fst st') t' = map_of (fst st) t'" using IH by (simp add: st1_def st)
  ultimately show ?case using IH by (auto simp: st1_def st split: if_splits)
qed simp

lemma train_one_best:
  assumes "train_one score fit y k = Inr (scores, best, b)"
  shows "set (dkeys scores) = set candidate_types" "\<not> is_nan b"
    "map_of scores t = Some m \<Longrightarrow> \<not> m > b"
    "map_of scores best = Some b \<or> best = LogisticRegression \<and> b = Fin (-1)"
proof -
  let ?st = "([] :: (model_type, f64) dict, LogisticRegression, Fin (-1))"
  have run: "choose_model (cv_score score y k) candidate_types ?st = Inr (scores, best, b)"
    using assms unfolding train_one_def by (auto simp: rbind_def split: sum.splits)
  show "set (dkeys scores) = set candidate_types" using choose_model_keys [OF run] by simp
  have "best_so_far ?st" by (simp add: best_so_far_def is_nan_def)
  then have r: "best_so_far (scores, best, b) \<and> ((best, b) = (LogisticRegression, Fin (-1)) \<or> map_of scores best = Some b)"
    using choose_model_best [OF run] by (auto simp: candidate_types_def)
  then show "\<not> is_nan b" "map_of scores t = Some m \<Longrightarrow> \<not> m > b"
    "map_of scores best = Some b \<or> best = LogisticRegression \<and> b = Fin (-1)"
    by (auto simp: best_so_far_def)
qed

definition entry_sound :: "feat_row list \<Rightarrow> string \<times> trained \<Rightarrow> bool" where
  "entry_sound df kt = (let t = snd kt in
     fst kt = td_regime t @ ''/'' @ int_str (td_cluster t) \<and> td_regime t \<notin> set skip_regimes \<and> td_cluster t \<noteq> -1 \<and>
     td_n_samples t = length (group_rows df (td_regime t) (td_cluster t)) \<and> min_samples \<le> td_n_samples t \<and>
     set (dkeys (td_scores t)) = {XGBoost, RandomForest, LogisticRegression} \<and>
     (\<exists>b. td_cv_score t = py_round b 4 \<and> (\<forall>y m. map_of (td_scores t) y = Some m \<longrightarrow> \<not> m > b) \<and>
       (map_of (td_scores t) (td_model_type t) = Some b \<or> b = Fin (-1))))"

lemma train_group_sound:
  assumes "train_group score fit df g = Inr (Some kt)"
  shows "entry_sound df kt"
proof -
  define part where "part = group_rows df (fst g) (snd g)"
  define y where "y = map (label_class \<circ> fr_label) part"
  have guard: "fst g \<notin> set skip_regimes" "snd g \<noteq> -1" "min_samples \<le> length part"
    using assms unfolding train_group_def part_def [symmetric] by (auto simp: Let_def split: if_splits)
  then have "rbind (train_one (score part) (fit part) y 5) (\<lambda>r.
      Inr (Some (fst g @ ''/'' @ int_str (snd g),
        \<lparr>td_regime = fst g, td_cluster = snd g, td_model_type = fst (snd r), td_cv_score = py_round (snd (snd r)) 4,
         td_n_samples = length part, td_scores = fst r\<rparr>))) = Inr (Some kt)"
    using assms unfolding train_group_def part_def [symmetric] y_def by (auto simp: Let_def split: if_splits)
  then obtain scores best b where r: "train_one (score part) (fit part) y 5 = Inr (scores, best, b)"
    and kt: "kt = (fst g @ ''/'' @ int_str (snd g),
        \<lparr>td_regime = fst g, td_cluster = snd g, td_model_type = best, td_cv_score = py_round b 4,
         td_n_samples = length part, td_scores = scores\<rparr>)"
    by (auto simp: rbind_Inr_iff)
  show ?thesis
    unfolding entry_sound_def kt Let_def using guard train_one_best [OF r]
    by (auto simp: part_def candidate_types_def intro!: exI [of _ b])
qed

lemma train_groups_sound:
  "train_groups (train_group score fit df) gs d = Inr d' \<Longrightarrow> (\<And>k t. map_of d k = Some t \<Longrightarrow> entry_sound df (k, t)) \<Longrightarrow>
   map_of d' k = Some t \<Longrightarrow> entry_sound df (k, t)"
proof (induction gs arbitrary: d)
  case (Cons g gs)
  obtain r where g: "train_group score fit df g = Inr r" using Cons.prems(1) by (cases "train_group score fit df g") auto
  define d1 where "d1 = (case r of None \<Rightarrow> d | Some kt \<Rightarrow> dset (fst kt) (snd kt) d)"
  have "train_groups (train_group score fit df) gs d1 = Inr d'" using Cons.prems(1) g by (simp add: d1_def)
  moreover have "entry_sound df (k, t)" if "map_of d1 k = Some t" for k t
  proof (cases r)
    case (Some kt)
    then have "entry_sound df kt" using g train_group_sound by blast
    then show ?thesis using Some that Cons.prems(2) by (cases kt) (auto simp: d1_def split: if_splits)
  qed (use that Cons.prems(2) in \<open>simp add: d1_def\<close>)
  ultimately show ?case using Cons.IH Cons.prems(3) by blast
qed simp

text \<open>The example of the witness: 200 rows of one regime without a cluster column.\<close>

definition example_row :: "feat_row" where
  "example_row = \<lparr>fr_ts = 0, fr_regime = None, fr_cluster = None, fr_label = Some ''REVERT'', fr_rest = []\<rparr>"

definition example_files :: "feat_file list" where
  "example_files = [\<lparr>ff_date = ''2025-01-01'', ff_cols = [''label''], ff_rows = replicate 200 example_row\<rparr>]"

lemma ex_frames: "frames_of ''2025-01-01'' ''2025-01-02'' example_files = example_files"
  by (simp add: frames_of_def example_files_def in_range_def)

lemma sort_key_replicate: "sort_key f (replicate n x) = replicate n x"
proof (induction n)
  case (Suc n)
  have "insort_key f x (replicate n x) = x # replicate n x" by (cases n) simp_all
  then show ?case using Suc by simp
qed simp

lemma unique_replicate: "unique_vals (replicate (Suc n) x) = [x]"
  by (induction n) auto

lemma ex_cols: "has_col ''label'' example_files" "\<not> has_col ''cluster'' example_files" "\<not> has_col ''regime'' example_files"
  by (simp_all add: has_col_def example_files_def)

definition example_full :: "feat_row" where
  "example_full = \<lparr>fr_ts = 0, fr_regime = Some ''RANGING'', fr_cluster = Some 0, fr_label = Some ''REVERT'', fr_rest = []\<rparr>"

lemma ex_rows: "training_rows example_files = replicate 200 example_full"
  by (simp add: training_rows_def default_col_def ex_cols) (simp add: example_files_def sort_key_replicate example_row_def example_full_def)

lemma concat_single: "concat (replicate n [x]) = replicate n x" by (induction n) auto

lemma ex_groups: "groups_of (replicate 200 example_full) = [(''RANGING'', 0)]"
  using unique_replicate [of 199 "''RANGING''"]  unique_replicate [of 199 "0::int"] by (simp add: groups_of_def present_def concat_single) (simp add: example_full_def)

lemma ex_group: "group_rows (replicate 200 example_full) ''RANGING'' 0 = replicate 200 example_full"
  by (simp add: group_rows_def)  (simp add: example_full_def)

lemma rmap_const: "(\<And>x. x \<in> set xs \<Longrightarrow> f x = Inr y) \<Longrightarrow> rmap f xs = Inr (replicate (length xs) y)"
  by (induction xs) auto

lemma mz: "mean_score (replicate 4 (Fin 0)) = Fin 0"
proof -
  have r: "replicate 4 (Fin 0) = [Fin 0, Fin 0, Fin 0, Fin 0]" by (simp add: numeral_eq_Suc)
  have "of_nat_f64 4 = Fin 4" by (simp add: of_nat_f64_def)
  moreover have "sum_f64 (replicate 4 (Fin 0)) = Fin 0" unfolding r by (simp add: sum_f64_def)
  ultimately show ?thesis by (simp add: mean_score_def)
qed

lemma ex_cv:
  assumes "length y = 200" "\<forall>v\<in>set y. v = 0 \<or> v = 1 \<or> v = 2"
  shows "cv_score (\<lambda>_ _ _. Inr (Fin 0)) y 5 t = Inr (Fin 0)"
proof -
  let ?s = "purged_wf_splits 200 5 purge_gap"
  have f: "fold_score (\<lambda>_ _ _. Inr (Fin 0)) y t s = Inr (Fin 0)" for s
  proof -
    obtain w where "make_sample_weights (take (sp_train_end s) y) = Inr w"
      using weights_total [of "take (sp_train_end s) y"] assms(2) by (auto dest: in_set_takeD)
    then show ?thesis by (simp add: fold_score_def)
  qed
  have "length ?s = 4" by (simp add: purged_splits_eq purge_gap_def)
  then have "rmap (fold_score (\<lambda>_ _ _. Inr (Fin 0)) y t) ?s = Inr (replicate 4 (Fin 0))"
    using rmap_const [of ?s "fold_score (\<lambda>_ _ _. Inr (Fin 0)) y t" "Fin 0"] f by simp
  then show ?thesis unfolding cv_score_def assms(1) by (simp only: rbind_simps mz)
qed

lemma ex_train:
  assumes "length y = 200" "\<forall>v\<in>set y. v = 0 \<or> v = 1 \<or> v = 2"
  shows "\<exists>scores. train_one (\<lambda>_ _ _. Inr (Fin 0)) (\<lambda>_ _. Inr ()) y 5 = Inr (scores, XGBoost, Fin 0)"
proof -
  obtain w where "make_sample_weights y = Inr w" using weights_total [OF assms(2)] by auto
  then show ?thesis by (simp add: train_one_def candidate_types_def ex_cv [OF assms])
qed

lemma train_groups_single: "train_groups step [g] [] = rbind (step g) (\<lambda>r. Inr (case r of None \<Rightarrow> [] | Some kt \<Rightarrow> [(fst kt, snd kt)]))"
  by (simp add: rbind_def split: sum.splits option.splits)

text \<open>
  C23. Every model a training run reports stands for a group it may be trained on: the key is regime and cluster, the
  regime is not a trending one, the cluster is not the noise cluster, and the group has at least 200 labelled rows of
  that regime and cluster, which is the reported number. All three candidates were scored, no score is above the
  winner's, and the reported score is the winner's, rounded to four places, unless no candidate had a score above -1.
\<close>

theorem training_results_sound:
  assumes "run_training score fit target start_date end_date files = Inr (Trained results)"
    and "map_of results k = Some t"
  shows "entry_sound (training_rows (frames_of start_date end_date files)) (k, t)"
proof -
  let ?df = "training_rows (frames_of start_date end_date files)"
  have "train_groups (train_group score fit ?df) (groups_of ?df) [] = Inr results"
    using assms(1) unfolding run_training_def by (auto simp: Let_def rbind_Inr_iff split: if_splits)
  then show ?thesis by (rule train_groups_sound) (use assms(2) in simp_all)
qed

lemma training_results_sound_witness: 
  "\<exists>results t. run_training (\<lambda>_ _ _ _. Inr (Fin 0)) (\<lambda>_ _ _. Inr ()) ''label'' ''2025-01-01'' ''2025-01-02'' example_files
       = Inr (Trained results) \<and> map_of results (''RANGING'' @ ''/'' @ int_str 0) = Some t \<and>
     entry_sound (training_rows (frames_of ''2025-01-01'' ''2025-01-02'' example_files)) (''RANGING'' @ ''/'' @ int_str 0, t)"
proof -
  obtain scores where t: "train_one (\<lambda>_ _ _. Inr (Fin 0)) (\<lambda>_ _. Inr ()) (replicate 200 0) 5 = Inr (scores, XGBoost, Fin 0)"
    using ex_train [of "replicate 200 0"] by auto
  have y: "map (label_class \<circ> fr_label) (replicate 200 example_full) = replicate 200 0"
    by (simp add: label_class_def example_full_def)
  have "train_group (\<lambda>_ _ _ _. Inr (Fin 0)) (\<lambda>_ _ _. Inr ()) (replicate 200 example_full) (''RANGING'', 0) = Inr (Some (''RANGING'' @ ''/'' @ int_str 0,
             \<lparr>td_regime = ''RANGING'', td_cluster = 0, td_model_type = XGBoost, td_cv_score = py_round (Fin 0) 4,
              td_n_samples = 200, td_scores = scores\<rparr>))"
    unfolding train_group_def fst_conv snd_conv Let_def ex_group y t
    by (simp add: skip_regimes_def min_samples_def)
  moreover have "example_files \<noteq> []" by (simp add: example_files_def)
  ultimately obtain results t where "run_training (\<lambda>_ _ _ _. Inr (Fin 0)) (\<lambda>_ _ _. Inr ()) ''label'' ''2025-01-01'' ''2025-01-02''
      example_files = Inr (Trained results)" "map_of results (''RANGING'' @ ''/'' @ int_str 0) = Some t"
    unfolding run_training_def ex_frames Let_def ex_rows ex_groups train_groups_single by (simp add: ex_cols)
  then show ?thesis using training_results_sound by blast
qed

section \<open>Clustering\<close>

text \<open>A row and what may become of it: with the regimes \<open>K\<close> clustered, only their rows change cluster.\<close>

definition row_kept :: "string set \<Rightarrow> feat_row \<Rightarrow> feat_row \<Rightarrow> bool" where
  "row_kept K r r' = (fr_ts r' = fr_ts r \<and> fr_regime r' = fr_regime r \<and> fr_label r' = fr_label r \<and>
     fr_rest r' = fr_rest r \<and>
     (fr_regime r \<in> Some ` K \<or> fr_cluster r' = fr_cluster r))"

lemma row_kept_refl [simp]: "row_kept K r r"
  by (simp add: row_kept_def)

lemma rows_kept_refl [simp]: "list_all2 (row_kept K) rows rows"
  by (rule list_all2_refl) simp

















end
