(* ===== verification/Ml_Features.thy ===== *)
theory Ml_Features
  imports Questdb
begin

text \<open>
  The feature store assembler (\<open>ml_service/features/extractor.py\<close>): fetching one day of snapshots page by page,
  the rolling and derived columns, and the loop over the days. A column is the list of its values, NaN for a
  missing one. What numpy and scipy compute (logarithm, mean, standard deviation, the slope of a regression, the
  Savitzky-Golay filter) is the argument \<open>numlib\<close>; the rolling windows, masks, clips and fallbacks are modelled. The
  divisors of the source are guarded or exceed a positive constant for depths and counts that are not negative.
\<close>

section \<open>Fetching one day\<close>

definition questdb_page :: nat where "questdb_page = 50000"

text \<open>\<open>page lo hi\<close> is the answer to the query with the parameter \<open>limit=lo,hi\<close>; the pages read so far are \<open>rows\<close>.\<close>

partial_function (option) fetch_pages ::
  "(nat \<Rightarrow> nat \<Rightarrow> json res) \<Rightarrow> nat \<Rightarrow> json list \<Rightarrow> (string list \<times> json list) res option" where
  [code]: "fetch_pages page offset rows =
     (case rbind (page offset questdb_page) (\<lambda>data. rbind (jitem data ''columns'') (\<lambda>cs. rbind (column_names cs) (\<lambda>cols.
           rbind (jitem data ''dataset'') (\<lambda>ds. rbind (jiter ds) (\<lambda>batch. Inr (cols, batch)))))) of
        Inl e \<Rightarrow> Some (Inl e)
      | Inr (cols, batch) \<Rightarrow>
          if batch = [] then Some (Inr (cols, rows))
          else if length batch < questdb_page then Some (Inr (cols, rows @ batch))
          else fetch_pages page (offset + questdb_page) (rows @ batch))"

text \<open>The rows as dictionaries; a row that does not fit the columns is a ValueError.\<close>

definition frame_row :: "string list \<Rightarrow> json \<Rightarrow> (string, json) dict res" where
  "frame_row cols row = rbind (jiter row) (\<lambda>vs. if length vs = length cols then Inr (zip_row cols vs) else Inl ValueError)"

definition fetch_day :: "(nat \<Rightarrow> nat \<Rightarrow> json res) \<Rightarrow> (string, json) dict list res option" where
  "fetch_day page = map_option (\<lambda>r. rbind r (\<lambda>cr. rmap (frame_row (fst cr)) (snd cr))) (fetch_pages page 0 [])"

section \<open>Statistics of a window\<close>

record numlib =
  nl_ln :: "f64 \<Rightarrow> f64"
  nl_mean :: "f64 list \<Rightarrow> f64"
  nl_std :: "f64 list \<Rightarrow> f64"
  nl_slope :: "f64 list \<Rightarrow> f64 list \<Rightarrow> f64 res"   \<comment> \<open>\<open>linregress(x, y)\<close>\<close>
  nl_savgol :: "f64 list \<Rightarrow> f64 list"

definition np_max :: "f64 list \<Rightarrow> f64" where
  "np_max xs = (if \<exists>x\<in>set xs. is_nan x then NaN else fold py_max xs NInf)"

definition np_min :: "f64 list \<Rightarrow> f64" where
  "np_min xs = (if \<exists>x\<in>set xs. is_nan x then NaN else fold py_min xs PInf)"

fun cumsum :: "f64 \<Rightarrow> f64 list \<Rightarrow> f64 list" where
  "cumsum acc [] = []"
| "cumsum acc (x # xs) = (acc + x) # cumsum (acc + x) xs"

definition clip :: "f64 \<Rightarrow> f64 \<Rightarrow> f64 \<Rightarrow> f64" where
  "clip lo hi x = (if is_nan x then NaN else if x < lo then lo else if hi < x then hi else x)"

definition tiny :: f64 where "tiny = fl (1 / 10 ^ 10)"

text \<open>The chunks \<open>series[i : i + lag]\<close> for \<open>i\<close> in \<open>range(0, n - lag, lag)\<close>.\<close>

definition chunks_of :: "nat \<Rightarrow> f64 list \<Rightarrow> f64 list list" where
  "chunks_of lag series =
     map (\<lambda>j. take lag (drop (j * lag) series)) [0..<(length series - lag + lag - 1) div lag]"

definition rescaled_range :: "numlib \<Rightarrow> f64 list \<Rightarrow> f64 option" where
  "rescaled_range nl c =
     (let mean = nl_mean nl c; std = nl_std nl c in
      if std < tiny then None
      else let cumdev = cumsum (Fin 0) (map (\<lambda>x. x - mean) c) in Some (fdiv (np_max cumdev - np_min cumdev) std))"

definition some_vals :: "'a option list \<Rightarrow> 'a list" where
  "some_vals xs = concat (map (\<lambda>x. case x of None \<Rightarrow> [] | Some v \<Rightarrow> [v]) xs)"

text \<open>One lag of the loop: the logarithms of the lag and of the mean rescaled range, unless there is none.\<close>

definition rs_point :: "numlib \<Rightarrow> f64 list \<Rightarrow> nat \<Rightarrow> (f64 \<times> f64) option" where
  "rs_point nl series lag =
     (if length series \<le> lag then None
      else let rs_list = some_vals (map (rescaled_range nl) (chunks_of lag series)) in
        if rs_list = [] then None
        else Some (nl_ln nl (of_nat_f64 lag), nl_ln nl (nl_mean nl rs_list)))"

definition hurst :: "numlib \<Rightarrow> f64 list \<Rightarrow> f64 res" where
  "hurst nl series =
     (let n = length series in
      if n < 20 then Inr (Fin (1/2))
      else let points = some_vals (map (rs_point nl series) [4, 8, 16, min 32 (n div 2)]) in
        if length points < 2 then Inr (Fin (1/2))
        else rbind (nl_slope nl (map fst points) (map snd points)) (\<lambda>slope. Inr (clip (Fin 0) (Fin 1) slope)))"

definition ou_halflife :: "numlib \<Rightarrow> f64 list \<Rightarrow> f64 res" where
  "ou_halflife nl series =
     (if length series < 10 then Inr (Fin 60)
      else let y = tl series; x = butlast series in
        if np_max x - np_min x < tiny then Inr (Fin 60)
        else rbind (nl_slope nl x y) (\<lambda>slope.
          if slope \<le> Fin 0 \<or> Fin 1 \<le> slope then Inr (Fin 60)
          else Inr (clip (Fin 1) (Fin 300) (fdiv (- nl_ln nl (Fin 2)) (nl_ln nl slope)))))"

definition is_finite :: "f64 \<Rightarrow> bool" where
  "is_finite x = (case x of Fin r \<Rightarrow> True | _ \<Rightarrow> False)"

definition kyle_lambda :: "numlib \<Rightarrow> f64 list \<Rightarrow> f64 list \<Rightarrow> f64 res" where
  "kyle_lambda nl delta_mid ofi =
     (let pairs = filter (\<lambda>p. is_finite (fst p) \<and> is_finite (snd p)) (zip delta_mid ofi) in
      if length pairs < 10 then Inr (Fin 0)
      else nl_slope nl (map snd pairs) (map fst pairs))"

section \<open>Columns\<close>

text \<open>\<open>rolling(w).apply(f)\<close>: a value only where the window is full and has no missing or infinite value.\<close>

definition window :: "nat \<Rightarrow> nat \<Rightarrow> 'a list \<Rightarrow> 'a list" where
  "window w i xs = take w (drop (Suc i - w) xs)"

definition rolling :: "nat \<Rightarrow> (f64 list \<Rightarrow> f64 res) \<Rightarrow> f64 list \<Rightarrow> f64 list res" where
  "rolling w f xs =
     rmap (\<lambda>i. if Suc i < w \<or> \<not> list_all is_finite (window w i xs) then Inr NaN else f (window w i xs)) [0..<length xs]"

text \<open>The window of Kyle's lambda runs over row numbers, so every full window is applied.\<close>

definition kyle_column :: "numlib \<Rightarrow> f64 list \<Rightarrow> f64 list \<Rightarrow> f64 list res" where
  "kyle_column nl delta_mid ofi =
     rmap (\<lambda>i. if Suc i < 60 then Inr NaN else kyle_lambda nl (window 60 i delta_mid) (window 60 i ofi)) [0..<length ofi]"

fun ffill :: "f64 \<Rightarrow> f64 list \<Rightarrow> f64 list" where
  "ffill prev [] = []"
| "ffill prev (x # xs) = (let v = if is_nan x then prev else x in v # ffill v xs)"

definition fillna :: "f64 \<Rightarrow> f64 list \<Rightarrow> f64 list" where
  "fillna v xs = map (\<lambda>x. if is_nan x then v else x) xs"

definition diff_from :: "f64 \<Rightarrow> f64 list \<Rightarrow> f64 list" where
  "diff_from first xs = map2 (\<lambda>x p. x - p) xs (butlast (first # xs))"

record feature_frame =
  fm_n :: nat
  fm_cols :: "(string, f64 list) dict"

definition col :: "feature_frame \<Rightarrow> string \<Rightarrow> f64 list res" where
  "col df c = of_option KeyError (map_of (fm_cols df) c)"

definition col_or_zero :: "feature_frame \<Rightarrow> string \<Rightarrow> f64 list" where
  "col_or_zero df c = (case map_of (fm_cols df) c of Some xs \<Rightarrow> xs | None \<Rightarrow> replicate (fm_n df) (Fin 0))"

definition set_col :: "string \<Rightarrow> f64 list \<Rightarrow> feature_frame \<Rightarrow> feature_frame" where
  "set_col c xs df = df\<lparr>fm_cols := dset c xs (fm_cols df)\<rparr>"

text \<open>A column the source derives only when it is missing or has no value.\<close>

definition col_unusable :: "feature_frame \<Rightarrow> string \<Rightarrow> bool" where
  "col_unusable df c = (case map_of (fm_cols df) c of None \<Rightarrow> True | Some xs \<Rightarrow> list_all is_nan xs)"

definition smooth :: "numlib \<Rightarrow> string \<Rightarrow> feature_frame \<Rightarrow> f64 list res" where
  "smooth nl c df =
     (if 5 \<le> fm_n df then rbind (col df c) (\<lambda>xs. Inr (nl_savgol nl (fillna (Fin 0) xs))) else Inr (col_or_zero df c))"

definition net_buy_at :: "f64 \<Rightarrow> f64 \<Rightarrow> f64" where
  "net_buy_at vol bvol = (if Fin 0 < vol then fdiv bvol vol else Fin (1/2))"

definition imbalance_at :: "f64 \<Rightarrow> f64 \<Rightarrow> f64" where
  "imbalance_at bl1 al1 = fdiv (bl1 - al1) (bl1 + al1 + fl (1 / 10 ^ 9))"

definition cancel_bias_at :: "f64 \<Rightarrow> f64 \<Rightarrow> f64" where
  "cancel_bias_at bc ac = fdiv (bc - ac) (bc + ac + Fin 1)"

definition microprice_delta_at :: "f64 \<Rightarrow> f64 \<Rightarrow> f64 \<Rightarrow> f64 \<Rightarrow> f64" where
  "microprice_delta_at bid ask bl1 al1 =
     (let mid = fdiv (bid + ask) (Fin 2); mp = fdiv (ask * bl1 + bid * al1) (bl1 + al1 + fl (1 / 10 ^ 9)) in
      if Fin 0 < mid then fdiv (mp - mid) mid * Fin 10000 else Fin 0)"

definition log_returns :: "numlib \<Rightarrow> f64 list \<Rightarrow> f64 list" where
  "log_returns nl mid =
     fillna (Fin 0) (diff_from NaN (map (\<lambda>m. if m = Fin 0 then NaN else nl_ln nl m) mid))"

section \<open>All the features\<close>

text \<open>The columns that are always computed; the derivation of the missing ones comes after them.\<close>

definition rolling_features :: "numlib \<Rightarrow> f64 list \<Rightarrow> f64 list \<Rightarrow> feature_frame \<Rightarrow> feature_frame res" where
  "rolling_features nl bid ask df =
     (let mid = map2 (\<lambda>b a. fdiv (b + a) (Fin 2)) bid ask;
          bl1 = fillna (Fin 0) (col_or_zero df ''bid_depth_l1_close'');
          al1 = fillna (Fin 0) (col_or_zero df ''ask_depth_l1_close'');
          mmd = fillna (Fin 0) (col_or_zero df ''microprice_mid_delta'');
          haw = fillna (Fin 0) (col_or_zero df ''hawkes_intensity'');
          log_ret = log_returns nl mid
      in rbind (smooth nl ''ofi_l1'' df) (\<lambda>ofi_sg. rbind (smooth nl ''spread_mean'' df) (\<lambda>spread_sg.
         rbind (rolling 20 (hurst nl) log_ret) (\<lambda>h20. rbind (rolling 60 (hurst nl) log_ret) (\<lambda>h60.
         rbind (rolling 60 (ou_halflife nl) mmd) (\<lambda>ou.
         rbind (kyle_column nl (diff_from (hd (mid @ [Fin 0])) mid) ofi_sg) (\<lambda>kyle.
           Inr (fold (\<lambda>(c, xs). set_col c xs)
             [(''ofi_sg'', ofi_sg), (''spread_sg'', spread_sg),
              (''net_buy_fraction'', map2 net_buy_at (fillna (Fin 0) (col_or_zero df ''volume'')) (fillna (Fin 0) (col_or_zero df ''buy_volume''))),
              (''depth_imbalance_l1'', map2 imbalance_at bl1 al1), (''hurst_20'', h20), (''hurst_60'', h60),
              (''ou_halflife'', ou), (''kyle_lambda_60'', kyle), (''ofi_x_spread'', map2 (*) ofi_sg spread_sg),
              (''microprice_x_hawkes'', map2 (*) mmd haw)] df))))))))"

definition derive_microprice :: "f64 list \<Rightarrow> f64 list \<Rightarrow> feature_frame \<Rightarrow> feature_frame" where
  "derive_microprice bid ask df =
     (if col_unusable df ''microprice_mid_delta'' then
        set_col ''microprice_mid_delta''
          (map (\<lambda>((b, a), (bl, al)). microprice_delta_at b a bl al)
            (zip (zip bid ask) (zip (fillna (Fin 0) (col_or_zero df ''bid_depth_l1_close''))
                                    (fillna (Fin 0) (col_or_zero df ''ask_depth_l1_close''))))) df
      else df)"

definition derive_cancel_bias :: "feature_frame \<Rightarrow> feature_frame" where
  "derive_cancel_bias df =
     (if col_unusable df ''cancel_bias'' then
        set_col ''cancel_bias''
          (map2 cancel_bias_at (fillna (Fin 0) (col_or_zero df ''bid_cancel_count'')) (fillna (Fin 0) (col_or_zero df ''ask_cancel_count''))) df
      else df)"

definition add_rolling_features :: "numlib \<Rightarrow> feature_frame \<Rightarrow> feature_frame res" where
  "add_rolling_features nl df =
     rbind (col df ''best_bid'') (\<lambda>b. rbind (col df ''best_ask'') (\<lambda>a.
       let bid = ffill NaN b; ask = ffill NaN a in
       rbind (rolling_features nl bid ask df) (\<lambda>df1. Inr (derive_cancel_bias (derive_microprice bid ask df1)))))"

section \<open>The days\<close>

record extraction =
  ex_files :: "(int, feature_frame) dict"
  ex_days_written :: nat
  ex_rows_total :: nat

text \<open>\<open>day_frame d\<close> is the fetched frame of day \<open>d\<close>. A failure ends the run and keeps the files written before.\<close>

fun extract_days :: "numlib \<Rightarrow> (int \<Rightarrow> feature_frame res) \<Rightarrow> int list \<Rightarrow> extraction \<Rightarrow> unit res \<times> extraction" where
  "extract_days nl day_frame [] st = (Inr (), st)"
| "extract_days nl day_frame (d # ds) st =
     (case day_frame d of
        Inl e \<Rightarrow> (Inl e, st)
      | Inr df \<Rightarrow>
          if fm_n df = 0 then extract_days nl day_frame ds st
          else case add_rolling_features nl df of
            Inl e \<Rightarrow> (Inl e, st)
          | Inr df' \<Rightarrow> extract_days nl day_frame ds
              (st\<lparr>ex_files := dset d df' (ex_files st), ex_days_written := ex_days_written st + 1,
                 ex_rows_total := ex_rows_total st + fm_n df'\<rparr>))"

definition extract_range :: "numlib \<Rightarrow> (int \<Rightarrow> feature_frame res) \<Rightarrow> int \<Rightarrow> int \<Rightarrow> (int, feature_frame) dict \<Rightarrow> unit res \<times> extraction" where
  "extract_range nl day_frame start_date end_date files =
     extract_days nl day_frame [start_date..end_date] \<lparr>ex_files = files, ex_days_written = 0, ex_rows_total = 0\<rparr>"

section \<open>What a day holds\<close>

text \<open>The rows of one answer, as the source reads them.\<close>

definition batch_of :: "json \<Rightarrow> json list res" where
  "batch_of data =
     rbind (jitem data ''columns'') (\<lambda>cs. rbind (column_names cs) (\<lambda>cols.
       rbind (jitem data ''dataset'') (\<lambda>ds. jiter ds)))"

lemma fetch_pages_step:
  "fetch_pages page offset rows =
     (case rbind (page offset questdb_page) batch_of of
        Inl e \<Rightarrow> Some (Inl e)
      | Inr batch \<Rightarrow>
          if length batch < questdb_page
          then (case rbind (page offset questdb_page) (\<lambda>data. rbind (jitem data ''columns'') column_names) of
                  Inl e \<Rightarrow> Some (Inl e) | Inr cols \<Rightarrow> Some (Inr (cols, rows @ batch)))
          else fetch_pages page (offset + questdb_page) (rows @ batch))"
  by (subst fetch_pages.simps)
    (auto simp: batch_of_def rbind_def questdb_page_def split: sum.splits)

lemma fetch_pages_second:
  assumes "\<And>data batch. page questdb_page questdb_page = Inr data \<Longrightarrow> batch_of data = Inr batch \<Longrightarrow> length batch \<le> 1"
  shows "\<exists>r. fetch_pages page questdb_page rows = Some r \<and> (\<forall>cols out. r = Inr (cols, out) \<longrightarrow> length out \<le> length rows + 1)"
proof (subst fetch_pages_step, cases "rbind (page questdb_page questdb_page) batch_of")
  case (Inr batch)
  then have "length batch \<le> 1" using assms by (auto simp: rbind_Inr_iff)
  then show "\<exists>r. (case rbind (page questdb_page questdb_page) batch_of of
        Inl e \<Rightarrow> Some (Inl e)
      | Inr batch \<Rightarrow>
          if length batch < questdb_page
          then (case rbind (page questdb_page questdb_page) (\<lambda>data. rbind (jitem data ''columns'') column_names) of
                  Inl e \<Rightarrow> Some (Inl e) | Inr cols \<Rightarrow> Some (Inr (cols, rows @ batch)))
          else fetch_pages page (questdb_page + questdb_page) (rows @ batch)) = Some r \<and>
      (\<forall>cols out. r = Inr (cols, out) \<longrightarrow> length out \<le> length rows + 1)"
    using Inr by (auto simp: questdb_page_def split: sum.splits)
qed simp

text \<open>
  A day's fetch returns, and with at most 50,001 rows however many the day has: the second request asks for the rows
  from number 50,000 to number 50,000, since the parameter is a range of row numbers and not an offset and a count.
  A day of one snapshot per second has 86,400.
\<close>

theorem fetch_day_truncates:
  assumes "\<And>lo hi data batch. page lo hi = Inr data \<Longrightarrow> batch_of data = Inr batch \<Longrightarrow> length batch \<le> (if lo = 0 then hi else Suc hi - lo)"
  shows "\<exists>r. fetch_day page = Some r \<and> (case r of Inl e \<Rightarrow> True | Inr rows \<Rightarrow> length rows \<le> 50001)"
proof -
  have "\<exists>r. fetch_pages page 0 [] = Some r \<and> (\<forall>cols out. r = Inr (cols, out) \<longrightarrow> length out \<le> 50001)"
  proof (cases "rbind (page 0 questdb_page) batch_of")
    case (Inl e)
    then show ?thesis by (subst fetch_pages_step) simp
  next
    case (Inr batch)
    then have b: "length batch \<le> 50000" using assms [of 0 questdb_page] by (auto simp: rbind_Inr_iff questdb_page_def)
    show ?thesis
    proof (cases "length batch < questdb_page")
      case True
      then show ?thesis using Inr b by (subst fetch_pages_step) (auto split: sum.splits)
    next
      case False
      have "\<exists>r. fetch_pages page questdb_page batch = Some r \<and> (\<forall>cols out. r = Inr (cols, out) \<longrightarrow> length out \<le> length batch + 1)"
        by (rule fetch_pages_second) (use assms [of questdb_page questdb_page] in \<open>auto simp: questdb_page_def split: if_splits\<close>)
      then show ?thesis using Inr b False by (subst fetch_pages_step) fastforce
    qed
  qed
  then obtain r where r: "fetch_pages page 0 [] = Some r" "\<And>cols out. r = Inr (cols, out) \<Longrightarrow> length out \<le> 50001" by blast
  have "length rows \<le> 50001" if "rbind r (\<lambda>cr. rmap (frame_row (fst cr)) (snd cr)) = Inr rows" for rows
    using that r(2) by (auto simp: rbind_Inr_iff rmap_Inr_iff dest: list_all2_lengthD)
  then show ?thesis using r(1) by (auto simp: fetch_day_def split: sum.splits)
qed

text \<open>A table of \<open>n\<close> rows that answers a range of row numbers.\<close>

definition db_answer :: "nat \<Rightarrow> nat \<Rightarrow> nat \<Rightarrow> json res" where
  "db_answer n lo hi =
     Inr (JObj [(''columns'', JList [JObj [(''name'', JStr ''ts'')]]),
                (''dataset'', JList (drop (lo - 1) (take hi (replicate n (JList [JNull])))))])"

lemma fetch_day_truncates_witness:
  "\<exists>r. fetch_day (db_answer 86400) = Some r \<and> (case r of Inl e \<Rightarrow> True | Inr rows \<Rightarrow> length rows \<le> 50001)"
proof (rule fetch_day_truncates)
  fix lo hi data batch
  assume d: "db_answer 86400 lo hi = Inr data" and b: "batch_of data = Inr batch"
  have "batch = drop (lo - 1) (take hi (replicate 86400 (JList [JNull])))"
    using b unfolding batch_of_def d [unfolded db_answer_def, THEN sum.inject(2) [THEN iffD1], symmetric]
    by (simp add: rbind_Inr_iff jitem_Inr_iff column_names_def jiter_def del: replicate.simps)
  then have "length batch \<le> hi - (lo - 1)" by simp
  then show "length batch \<le> (if lo = 0 then hi else Suc hi - lo)" by (cases lo) auto
qed

section \<open>The ranges of the features\<close>

definition nan_or_in :: "f64 \<Rightarrow> f64 \<Rightarrow> f64 \<Rightarrow> bool" where
  "nan_or_in lo hi x = (is_nan x \<or> lo \<le> x \<and> x \<le> hi)"

lemma clip_in: "lo \<le> hi \<Longrightarrow> nan_or_in lo hi (clip lo hi x)"
  by (cases lo; cases hi; cases x) (auto simp: nan_or_in_def clip_def is_nan_def)

lemma hurst_in: "hurst nl xs = Inr h \<Longrightarrow> nan_or_in (Fin 0) (Fin 1) h"
  unfolding hurst_def Let_def
  by (auto simp: rbind_Inr_iff clip_in split: if_splits) (auto simp: nan_or_in_def)

lemma halflife_in: "ou_halflife nl xs = Inr h \<Longrightarrow> nan_or_in (Fin 1) (Fin 300) h"
  unfolding ou_halflife_def Let_def
  by (auto simp: rbind_Inr_iff clip_in split: if_splits) (auto simp: nan_or_in_def)

lemma rolling_all:
  assumes "rolling w f xs = Inr ys" and "\<And>zs y. f zs = Inr y \<Longrightarrow> P y" and "P NaN"
  shows "length ys = length xs \<and> list_all P ys"
proof -
  have "list_all2 (\<lambda>i y. (if Suc i < w \<or> \<not> list_all is_finite (window w i xs) then Inr NaN else f (window w i xs)) = Inr y)
      [0..<length xs] ys"
    using assms(1) unfolding rolling_def rmap_Inr_iff .
  then show ?thesis
    using assms(2,3) by (auto simp: list_all2_conv_all_nth list_all_length split: if_splits)
qed

lemma rolling_features_cols:
  assumes "rolling_features nl bid ask df = Inr df'"
  shows "\<exists>h20 h60. rolling 20 (hurst nl) (log_returns nl (map2 (\<lambda>b a. fdiv (b + a) (Fin 2)) bid ask)) = Inr h20 \<and>
      rolling 60 (hurst nl) (log_returns nl (map2 (\<lambda>b a. fdiv (b + a) (Fin 2)) bid ask)) = Inr h60 \<and>
      map_of (fm_cols df') ''hurst_20'' = Some h20 \<and> map_of (fm_cols df') ''hurst_60'' = Some h60"
    "\<exists>ou. rolling 60 (ou_halflife nl) (fillna (Fin 0) (col_or_zero df ''microprice_mid_delta'')) = Inr ou \<and>
      map_of (fm_cols df') ''ou_halflife'' = Some ou"
    "map_of (fm_cols df') ''depth_imbalance_l1'' =
      Some (map2 imbalance_at (fillna (Fin 0) (col_or_zero df ''bid_depth_l1_close'')) (fillna (Fin 0) (col_or_zero df ''ask_depth_l1_close'')))"
    "map_of (fm_cols df') ''net_buy_fraction'' =
      Some (map2 net_buy_at (fillna (Fin 0) (col_or_zero df ''volume'')) (fillna (Fin 0) (col_or_zero df ''buy_volume'')))"
  using assms unfolding rolling_features_def Let_def
  by (auto simp: rbind_Inr_iff set_col_def)

lemma epsilon_pos: "\<exists>e. fl (1 / 10 ^ 9) = Fin e \<and> 0 < e"
proof -
  have "fl (1 / 10 ^ 9) > Fin 0 \<and> fl (1 / 10 ^ 9) \<noteq> PInf" by code_simp
  then show ?thesis by (cases "fl (1 / 10 ^ 9)") simp_all
qed

definition depth_ok :: "f64 \<Rightarrow> bool" where
  "depth_ok x = (case x of Fin r \<Rightarrow> 0 \<le> r \<and> f64_ok x | NaN \<Rightarrow> True | _ \<Rightarrow> False)"

lemma imbalance_in:
  assumes "0 \<le> a" "0 \<le> b" "fl a = Fin a" "fl b = Fin b"
  shows "Fin (-1) \<le> imbalance_at (Fin a) (Fin b) \<and> imbalance_at (Fin a) (Fin b) \<le> Fin 1"
proof -
  obtain r where r: "fl (a - b) = Fin r" "- b \<le> r" "r \<le> a"
    using fl_range [of "- b" a "a - b"] assms by (auto simp: fl_minus)
  obtain e where e: "fl (1 / 10 ^ 9) = Fin e" "0 < e" using epsilon_pos by blast
  show ?thesis
  proof (cases "fl (a + b)")
    case (Fin s)
    have s: "a \<le> s" "b \<le> s" using fl_mono [of a "a + b"] fl_mono [of b "a + b"] assms Fin by simp_all
    show ?thesis
    proof (cases "fl (s + e)")
      case (Fin t)
      have "fl s = Fin s" "fl e = Fin e" using \<open>fl (a + b) = Fin s\<close> e(1) by (simp_all add: fl_idem)
      then have "s \<le> t" "0 < t" using fl_mono [of s "s + e"] fl_mono [of e "s + e"] Fin e(2) s assms(1) by simp_all
      then have "- 1 \<le> r / t" "r / t \<le> 1" using r s by (simp_all add: divide_simps)
      then have "Fin (- 1) \<le> fl (r / t) \<and> fl (r / t) \<le> Fin 1"
        using fl_mono [of "- 1" "r / t"] fl_mono [of "r / t" 1] fl_minus [of 1] by simp
      then show ?thesis using \<open>fl (a + b) = Fin s\<close> Fin r(1) e(1)
        by (auto simp: imbalance_at_def)
    qed (use Fin e r in \<open>auto simp: imbalance_at_def\<close>)
  qed (use r e in \<open>auto simp: imbalance_at_def\<close>)
qed

lemma depth_filled: "depth_ok x \<Longrightarrow> \<exists>a\<ge>0. (if is_nan x then Fin 0 else x) = Fin a \<and> fl a = Fin a"
  by (cases x) (auto simp: depth_ok_def f64_ok_def is_nan_def)

lemma fillna_depths:
  assumes "list_all depth_ok xs" and "x \<in> set (fillna (Fin 0) xs)"
  obtains a where "0 \<le> a" "x = Fin a" "fl a = Fin a"
proof -
  obtain v where v: "v \<in> set xs" "x = (if is_nan v then Fin 0 else v)" using assms(2) by (auto simp: fillna_def)
  then have "depth_ok v" using assms(1) by (simp add: list_all_iff)
  then show thesis using depth_filled [of v] v(2) that by auto
qed

lemma depth_imbalance_in:
  assumes "list_all depth_ok xs" "list_all depth_ok ys"
  shows "list_all (\<lambda>x. Fin (-1) \<le> x \<and> x \<le> Fin 1) (map2 imbalance_at (fillna (Fin 0) xs) (fillna (Fin 0) ys))"
proof -
  have "Fin (-1) \<le> imbalance_at x y \<and> imbalance_at x y \<le> Fin 1"
    if "(x, y) \<in> set (zip (fillna (Fin 0) xs) (fillna (Fin 0) ys))" for x y
  proof -
    from that have m: "x \<in> set (fillna (Fin 0) xs)" "y \<in> set (fillna (Fin 0) ys)"
      by (auto dest: set_zip_leftD set_zip_rightD)
    obtain a where a: "0 \<le> a" "x = Fin a" "fl a = Fin a" by (rule fillna_depths [OF assms(1) m(1)])
    obtain b where "0 \<le> b" "y = Fin b" "fl b = Fin b" by (rule fillna_depths [OF assms(2) m(2)])
    with a show ?thesis using imbalance_in by simp
  qed
  then show ?thesis by (auto simp: list_all_iff)
qed

lemma net_buy_in:
  assumes "depth_ok v" "depth_ok b" "is_nan v \<or> is_nan b \<or> b \<le> v"
  shows "Fin 0 \<le> net_buy_at (if is_nan v then Fin 0 else v) (if is_nan b then Fin 0 else b) \<and>
    net_buy_at (if is_nan v then Fin 0 else v) (if is_nan b then Fin 0 else b) \<le> Fin 1"
proof -
  have "Fin 0 \<le> fl (q / p) \<and> fl (q / p) \<le> Fin 1" if "0 \<le> q" "q \<le> p" "0 < p" for p q
    using fl_nonneg [of "q / p"] fl_mono [of "q / p" 1] that by (simp add: divide_simps)
  then show ?thesis using assms
    by (cases v; cases b) (auto simp: depth_ok_def net_buy_at_def is_nan_def)
qed

lemma rolling_hurst_in: "rolling w (hurst nl) xs = Inr h \<Longrightarrow> list_all (nan_or_in (Fin 0) (Fin 1)) h"
  using rolling_all [of w "hurst nl" xs h "nan_or_in (Fin 0) (Fin 1)"] hurst_in by (auto simp: nan_or_in_def is_nan_def)

lemma rolling_halflife_in: "rolling w (ou_halflife nl) xs = Inr h \<Longrightarrow> list_all (nan_or_in (Fin 1) (Fin 300)) h"
  using rolling_all [of w "ou_halflife nl" xs h "nan_or_in (Fin 1) (Fin 300)"] halflife_in by (auto simp: nan_or_in_def is_nan_def)

lemma derive_keeps:
  "c \<noteq> ''microprice_mid_delta'' \<Longrightarrow> map_of (fm_cols (derive_microprice bid ask df)) c = map_of (fm_cols df) c"
  "c \<noteq> ''cancel_bias'' \<Longrightarrow> map_of (fm_cols (derive_cancel_bias df)) c = map_of (fm_cols df) c"
  by (auto simp: derive_microprice_def derive_cancel_bias_def set_col_def)

text \<open>
  C34. The derived columns stay in their ranges, whatever the numeric library returns: the Hurst exponents are in
  [0,1] and the half-life in [1,300] or missing, and when the depths of the book are finite and not negative the depth
  imbalance is in [-1,1] in every row, the rounding of the floats included.
\<close>

theorem features_in_range:
  assumes "add_rolling_features nl df = Inr df'"
    and "list_all depth_ok (col_or_zero df ''bid_depth_l1_close'')" "list_all depth_ok (col_or_zero df ''ask_depth_l1_close'')"
  shows "\<exists>h20 h60 ou di. map_of (fm_cols df') ''hurst_20'' = Some h20 \<and> list_all (nan_or_in (Fin 0) (Fin 1)) h20 \<and>
    map_of (fm_cols df') ''hurst_60'' = Some h60 \<and> list_all (nan_or_in (Fin 0) (Fin 1)) h60 \<and>
    map_of (fm_cols df') ''ou_halflife'' = Some ou \<and> list_all (nan_or_in (Fin 1) (Fin 300)) ou \<and>
    map_of (fm_cols df') ''depth_imbalance_l1'' = Some di \<and> list_all (\<lambda>x. Fin (-1) \<le> x \<and> x \<le> Fin 1) di"
proof -
  obtain bid ask df1 where r: "rolling_features nl bid ask df = Inr df1"
    and df': "df' = derive_cancel_bias (derive_microprice bid ask df1)"
    using assms(1) by (auto simp: add_rolling_features_def Let_def rbind_Inr_iff)
  have same: "map_of (fm_cols df') c = map_of (fm_cols df1) c"
    if "c \<noteq> ''microprice_mid_delta''" "c \<noteq> ''cancel_bias''" for c
    unfolding df' using that derive_keeps by simp
  from rolling_features_cols(1) [OF r] rolling_features_cols(2) [OF r] rolling_features_cols(3) [OF r]
  show ?thesis using rolling_hurst_in rolling_halflife_in depth_imbalance_in [OF assms(2,3)] by (simp add: same) blast
qed

section \<open>The half-life without the deviation column\<close>

lemma fold_const: "(\<And>y. f x y = x) \<Longrightarrow> fold f (replicate (Suc n) x) z = x"
  by (induction n arbitrary: z) auto

lemma np_max_const: "np_max (replicate (Suc n) (Fin a)) = Fin a"
proof -
  have "fold py_max (replicate n (Fin a)) (Fin a) = Fin a" by (induction n) (simp_all add: py_max_def)
  then show ?thesis by (simp add: np_max_def py_max_def is_nan_def)
qed

lemma np_min_const: "np_min (replicate (Suc n) (Fin a)) = Fin a"
proof -
  have "fold py_min (replicate n (Fin a)) (Fin a) = Fin a" by (induction n) (simp_all add: py_min_def)
  then show ?thesis by (simp add: np_min_def py_min_def is_nan_def)
qed

lemma tiny_pos: "Fin 0 < tiny"
  unfolding tiny_def by code_simp

lemma halflife_const: "ou_halflife nl (replicate (Suc (Suc n)) (Fin a)) = Inr (Fin 60)"
proof -
  have "butlast (replicate (Suc (Suc n)) (Fin a)) = replicate (Suc n) (Fin a)"
    by (metis butlast_snoc replicate_Suc replicate_append_same)
  then show ?thesis
    using tiny_pos by (simp add: ou_halflife_def Let_def np_max_const np_min_const del: replicate.simps)
qed

lemma window_const: "Suc i \<le> n \<Longrightarrow> w \<le> Suc i \<Longrightarrow> window w i (replicate n x) = replicate w x"
  by (simp add: window_def)

lemma rmap_ok: "(\<And>x. x \<in> set xs \<Longrightarrow> f x = Inr (g x)) \<Longrightarrow> rmap f xs = Inr (map g xs)"
  by (induction xs) auto

lemma rolling_const:
  "rolling 60 (ou_halflife nl) (replicate n (Fin 0)) = Inr (map (\<lambda>i. if Suc i < 60 then NaN else Fin 60) [0..<n])"
  unfolding rolling_def length_replicate
proof (rule rmap_ok)
  fix i assume "i \<in> set [0..<n]"
  then have "window 60 i (replicate n (Fin 0)) = replicate (Suc (Suc 58)) (Fin 0)" if "60 \<le> Suc i"
    using that by (subst window_const) (auto simp: numeral_eq_Suc)
  then show "(if Suc i < 60 \<or> \<not> list_all is_finite (window 60 i (replicate n (Fin 0))) then Inr NaN
      else ou_halflife nl (window 60 i (replicate n (Fin 0)))) = Inr (if Suc i < 60 then NaN else Fin 60)"
    using halflife_const [of nl 58 0] by (auto simp: list_all_iff is_finite_def simp del: replicate.simps)
qed

text \<open>
  When the deviation column is missing, the half-life says nothing about the market: it is 60 in every row with
  a full window, since it is computed from zeros before the deviation is derived from the book.
\<close>

theorem halflife_blind_without_deviation:
  assumes "add_rolling_features nl df = Inr df'" and "map_of (fm_cols df) ''microprice_mid_delta'' = None"
  shows "map_of (fm_cols df') ''ou_halflife'' = Some (map (\<lambda>i. if Suc i < 60 then NaN else Fin 60) [0..<fm_n df]) \<and>
    map_of (fm_cols df') ''microprice_mid_delta'' \<noteq> None"
proof -
  obtain bid ask df1 where r: "rolling_features nl bid ask df = Inr df1"
    and df': "df' = derive_cancel_bias (derive_microprice bid ask df1)"
    using assms(1) by (auto simp: add_rolling_features_def Let_def rbind_Inr_iff)
  have z: "fillna (Fin 0) (col_or_zero df ''microprice_mid_delta'') = replicate (fm_n df) (Fin 0)"
    using assms(2) by (simp add: col_or_zero_def fillna_def is_nan_def)
  have "map_of (fm_cols df1) ''ou_halflife'' = Some (map (\<lambda>i. if Suc i < 60 then NaN else Fin 60) [0..<fm_n df])"
    using rolling_features_cols(2) [OF r] unfolding z rolling_const by simp
  moreover have "map_of (fm_cols (derive_microprice bid ask df1)) ''microprice_mid_delta'' \<noteq> None"
    by (auto simp: derive_microprice_def col_unusable_def set_col_def split: option.splits)
  ultimately show ?thesis unfolding df' by (simp add: derive_keeps)
qed

section \<open>A quiet minute\<close>

lemma rmap_fails: "x \<in> set xs \<Longrightarrow> f x = Inl e \<Longrightarrow> \<exists>e. rmap f xs = Inl e"
proof (induction xs)
  case (Cons y ys)
  then show ?case by (cases "f y"; cases "rmap f ys") auto
qed simp

lemma kyle_column_fails:
  assumes "\<And>x n ys. nl_slope nl (replicate n x) ys = Inl ValueError"
    and "60 \<le> Suc i" "i < length ofi" "window 60 i ofi = replicate 60 (Fin c)"
    and "length (window 60 i delta) = 60" "list_all is_finite (window 60 i delta)"
  shows "\<exists>e. kyle_column nl delta ofi = Inl e"
proof -
  let ?p = "zip (window 60 i delta) (window 60 i ofi)"
  have "filter (\<lambda>p. is_finite (fst p) \<and> is_finite (snd p)) ?p = ?p"
    using assms(4,6) by (auto simp: filter_id_conv list_all_iff is_finite_def dest: set_zip_leftD set_zip_rightD)
  moreover have "map snd ?p = replicate 60 (Fin c)" using assms(4,5) by simp
  moreover have "length ?p = 60" using assms(4,5) by simp
  ultimately have "kyle_lambda nl (window 60 i delta) (window 60 i ofi) = Inl ValueError"
    by (simp add: kyle_lambda_def assms(1))
  then show ?thesis
    unfolding kyle_column_def using assms(2,3) by (intro rmap_fails [of i]) auto
qed

definition mid_prices :: "f64 list \<Rightarrow> f64 list \<Rightarrow> f64 list" where
  "mid_prices b a = map2 (\<lambda>b a. fdiv (b + a) (Fin 2)) (ffill NaN b) (ffill NaN a)"

definition mid_changes :: "f64 list \<Rightarrow> f64 list" where
  "mid_changes mid = diff_from (hd (mid @ [Fin 0])) mid"

lemma length_diff_from [simp]: "length (diff_from x xs) = length xs"
  by (simp add: diff_from_def)

text \<open>
  One minute of constant order flow stops the extraction: the regression behind Kyle's lambda refuses a constant
  regressor, the window is not guarded against it, and so the day is not written and the days after it are not tried.
  The guard that the half-life has for the same case is missing here.
\<close>

theorem quiet_minute_stops_extraction:
  assumes "\<And>x n ys. nl_slope nl (replicate n x) ys = Inl ValueError"
    and "day_frame d = Inr df" "col df ''best_bid'' = Inr b" "col df ''best_ask'' = Inr a" "smooth nl ''ofi_l1'' df = Inr sg"
    and "length (mid_prices b a) = length sg" "fm_n df = length sg"
    and "60 \<le> Suc i" "i < length sg" "window 60 i sg = replicate 60 (Fin c)"
    and "list_all is_finite (window 60 i (mid_changes (mid_prices b a)))"
    and "d \<le> d'"
  shows "\<exists>e. extract_range nl day_frame d d' files = (Inl e, \<lparr>ex_files = files, ex_days_written = 0, ex_rows_total = 0\<rparr>)"
proof -
  have "length (window 60 i (mid_changes (mid_prices b a))) = 60"
    using assms(6,8,9) by (simp add: window_def mid_changes_def)
  then obtain e where "kyle_column nl (mid_changes (mid_prices b a)) sg = Inl e"
    using kyle_column_fails [OF assms(1,8,9,10) _ assms(11)] by blast
  then have "\<exists>e. rolling_features nl (ffill NaN b) (ffill NaN a) df = Inl e"
    unfolding rolling_features_def Let_def mid_prices_def [symmetric] mid_changes_def [symmetric] assms(5)
    by (auto simp: rbind_def split: sum.splits)
  then obtain e where e: "add_rolling_features nl df = Inl e" using assms(3,4) by (auto simp: add_rolling_features_def Let_def)
  have "[d..d'] = d # [d + 1..d']" using assms(12) by (simp add: upto_rec1)
  then show ?thesis using e assms(2,7,8,9) by (auto simp: extract_range_def)
qed

text \<open>A concrete library that refuses a constant regressor, and a day on which nothing moves.\<close>

definition example_lib :: numlib where
  "example_lib = \<lparr>nl_ln = id, nl_mean = (\<lambda>_. Fin 0), nl_std = (\<lambda>_. Fin 0),
     nl_slope = (\<lambda>xs ys. if list_all (\<lambda>x. x = hd xs) xs then Inl ValueError else Inr (Fin 0)), nl_savgol = id\<rparr>"

definition quiet_day :: feature_frame where
  "quiet_day = \<lparr>fm_n = 60, fm_cols = [(''best_bid'', replicate 60 (Fin 4)), (''best_ask'', replicate 60 (Fin 4)),
     (''ofi_l1'', replicate 60 (Fin 0)), (''spread_mean'', replicate 60 (Fin 0))]\<rparr>"

lemma ffill_const: "\<not> is_nan x \<Longrightarrow> ffill p (replicate n x) = replicate n x"
  by (induction n arbitrary: p) simp_all

lemma fillna_const: "\<not> is_nan x \<Longrightarrow> fillna y (replicate n x) = replicate n x"
  by (simp add: fillna_def)

lemma quiet_mid: "mid_prices (replicate n (Fin 4)) (replicate n (Fin 4)) = replicate n (Fin 4)"
proof -
  have "fdiv (Fin 4 + Fin 4) (Fin 2) = Fin 4" by simp
  then show ?thesis unfolding mid_prices_def by (simp add: ffill_const is_nan_def zip_replicate)
qed

lemma quiet_changes: "mid_changes (replicate n (Fin 4)) = replicate n (Fin 0)"
proof -
  have "butlast (Fin 4 # replicate n (Fin 4)) = replicate n (Fin 4)"
    by (metis butlast_snoc replicate_append_same)
  moreover have "hd (replicate n (Fin 4) @ [Fin 0]) = Fin 4" if "0 < n" using that by (cases n) simp_all
  ultimately show ?thesis by (cases n) (simp_all add: mid_changes_def diff_from_def zip_replicate del: butlast.simps)
qed

lemma quiet_minute_stops_extraction_witness:
  "\<exists>e. extract_range example_lib (\<lambda>_. Inr quiet_day) 0 1 [] = (Inl e, \<lparr>ex_files = [], ex_days_written = 0, ex_rows_total = 0\<rparr>)"
proof (rule quiet_minute_stops_extraction [where b = "replicate 60 (Fin 4)" and a = "replicate 60 (Fin 4)" and i = 59
      and sg = "replicate 60 (Fin 0)" and c = 0 and df = quiet_day])
  show "nl_slope example_lib (replicate n x) ys = Inl ValueError" for x n ys
    by (cases n) (simp_all add: example_lib_def list_all_iff)
  show "smooth example_lib ''ofi_l1'' quiet_day = Inr (replicate 60 (Fin 0))"
    by (simp add: smooth_def quiet_day_def col_def example_lib_def fillna_const is_nan_def)
  show "list_all is_finite (window 60 59 (mid_changes (mid_prices (replicate 60 (Fin 4)) (replicate 60 (Fin 4)))))"
    unfolding quiet_mid quiet_changes by (simp add: window_def list_all_iff is_finite_def)
qed (simp_all add: quiet_day_def col_def quiet_mid window_def)

definition one_row :: feature_frame where
  "one_row = \<lparr>fm_n = 1, fm_cols = [(''best_bid'', [Fin 4]), (''best_ask'', [Fin 4])]\<rparr>"

lemma rolling_short: "length xs < w \<Longrightarrow> rolling w f xs = Inr (map (\<lambda>i. NaN) [0..<length xs])"
  unfolding rolling_def by (rule rmap_ok) auto

lemma one_row_features: "\<exists>df'. add_rolling_features example_lib one_row = Inr df'"
proof -
  have "length (log_returns example_lib (map2 (\<lambda>b a. fdiv (b + a) (Fin 2)) (ffill NaN [Fin 4]) (ffill NaN [Fin 4]))) < 20"
    by (simp add: log_returns_def fillna_def)
  moreover have "length (fillna (Fin 0) (col_or_zero one_row ''microprice_mid_delta'')) < 60"
    by (simp add: fillna_def col_or_zero_def one_row_def)
  moreover have "kyle_column nl ds [Fin 0] = Inr [NaN]" for nl ds by (simp add: kyle_column_def)
  moreover have "smooth example_lib c one_row = Inr [Fin 0]" if "c \<in> {''ofi_l1'', ''spread_mean''}" for c
    using that by (auto simp: smooth_def one_row_def col_or_zero_def)
  moreover have "col one_row ''best_bid'' = Inr [Fin 4]" "col one_row ''best_ask'' = Inr [Fin 4]"
    by (simp_all add: col_def one_row_def)
  ultimately show ?thesis unfolding add_rolling_features_def rolling_features_def Let_def by (simp add: rolling_short)
qed

lemma features_in_range_witness:
  "\<exists>df' h20 h60 ou di. add_rolling_features example_lib one_row = Inr df' \<and>
    map_of (fm_cols df') ''hurst_20'' = Some h20 \<and> list_all (nan_or_in (Fin 0) (Fin 1)) h20 \<and>
    map_of (fm_cols df') ''hurst_60'' = Some h60 \<and> list_all (nan_or_in (Fin 0) (Fin 1)) h60 \<and>
    map_of (fm_cols df') ''ou_halflife'' = Some ou \<and> list_all (nan_or_in (Fin 1) (Fin 300)) ou \<and>
    map_of (fm_cols df') ''depth_imbalance_l1'' = Some di \<and> list_all (\<lambda>x. Fin (-1) \<le> x \<and> x \<le> Fin 1) di"
proof -
  obtain df' where "add_rolling_features example_lib one_row = Inr df'" using one_row_features by blast
  moreover have "list_all depth_ok (col_or_zero one_row ''bid_depth_l1_close'')" "list_all depth_ok (col_or_zero one_row ''ask_depth_l1_close'')"
    by (simp_all add: one_row_def col_or_zero_def depth_ok_def f64_ok_def)
  ultimately show ?thesis using features_in_range by blast
qed

lemma halflife_blind_without_deviation_witness:
  "\<exists>df'. add_rolling_features example_lib one_row = Inr df' \<and>
    map_of (fm_cols df') ''ou_halflife'' = Some [NaN]"
proof -
  obtain df' where r: "add_rolling_features example_lib one_row = Inr df'" using one_row_features by blast
  have "map_of (fm_cols one_row) ''microprice_mid_delta'' = None" by (simp add: one_row_def)
  then show ?thesis using r halflife_blind_without_deviation [OF r] by (auto simp: one_row_def)
qed

section \<open>What an extraction writes\<close>

definition day_file :: "numlib \<Rightarrow> (int \<Rightarrow> feature_frame res) \<Rightarrow> int \<Rightarrow> feature_frame option" where
  "day_file nl day_frame d =
     (case day_frame d of
        Inr df \<Rightarrow> if fm_n df = 0 then None else (case add_rolling_features nl df of Inr df' \<Rightarrow> Some df' | Inl e \<Rightarrow> None)
      | Inl e \<Rightarrow> None)"

definition totals_ok :: "extraction \<Rightarrow> bool" where
  "totals_ok st = (ex_days_written st = length (ex_files st) \<and> ex_rows_total st = sum_list (map (fm_n \<circ> snd) (ex_files st)))"

lemma dset_new: "k \<notin> set (dkeys d) \<Longrightarrow> dset k v d = d @ [(k, v)]"
  by (induction k v d rule: dset.induct) (auto simp: dkeys_def)

lemma extract_days_exact:
  "extract_days nl day_frame ds st = (Inr (), st') \<Longrightarrow> totals_ok st \<Longrightarrow> distinct ds \<Longrightarrow> set ds \<inter> set (dkeys (ex_files st)) = {} \<Longrightarrow>
   totals_ok st' \<and> map_of (ex_files st') = (\<lambda>d. if d \<in> set ds then day_file nl day_frame d else map_of (ex_files st) d)"
proof (induction ds arbitrary: st)
  case (Cons d ds)
  obtain df where df: "day_frame d = Inr df" using Cons.prems(1) by (cases "day_frame d") auto
  have absent: "map_of (ex_files st) d = None" using Cons.prems(4) by (auto simp: set_dkeys)
  show ?case
  proof (cases "fm_n df = 0")
    case True
    then have "day_file nl day_frame d = None" using df by (simp add: day_file_def)
    then show ?thesis using Cons True df absent by (auto simp: fun_eq_iff)
  next
    case False
    then obtain df' where df': "add_rolling_features nl df = Inr df'"
      using Cons.prems(1) df by (cases "add_rolling_features nl df") auto
    define st1 where "st1 = st\<lparr>ex_files := dset d df' (ex_files st), ex_days_written := ex_days_written st + 1,
      ex_rows_total := ex_rows_total st + fm_n df'\<rparr>"
    have "extract_days nl day_frame ds st1 = (Inr (), st')" using Cons.prems(1) df False df' by (simp add: st1_def)
    moreover have "totals_ok st1" using Cons.prems(2,4) by (simp add: totals_ok_def st1_def dset_new)
    moreover have "set ds \<inter> set (dkeys (ex_files st1)) = {}" using Cons.prems(3,4) by (auto simp: st1_def)
    ultimately have "totals_ok st' \<and> map_of (ex_files st') =
        (\<lambda>x. if x \<in> set ds then day_file nl day_frame x else map_of (ex_files st1) x)" using Cons.IH Cons.prems(3) by simp
    moreover have "day_file nl day_frame d = Some df'" using df False df' by (simp add: day_file_def)
    ultimately show ?thesis using Cons.prems(3) by (auto simp: st1_def fun_eq_iff)
  qed
qed simp

text \<open>
  An extraction that ends without a failure has written exactly one file for each day of the range that has rows,
  the features of that day, and none for any other day; the reported numbers of days and rows are those of the files.
\<close>

theorem extraction_writes_each_day:
  assumes "extract_range nl day_frame start_date end_date [] = (Inr (), st)"
  shows "map_of (ex_files st) = (\<lambda>d. if start_date \<le> d \<and> d \<le> end_date then day_file nl day_frame d else None) \<and>
    ex_days_written st = length (ex_files st) \<and> ex_rows_total st = sum_list (map (fm_n \<circ> snd) (ex_files st))"
  using extract_days_exact [OF assms [unfolded extract_range_def]] by (auto simp: totals_ok_def fun_eq_iff)

lemma extraction_writes_each_day_witness:
  "\<exists>st. extract_range example_lib (\<lambda>d. Inr (if d = 1 then one_row else one_row\<lparr>fm_n := 0\<rparr>)) 0 2 [] = (Inr (), st) \<and>
     map_of (ex_files st) 0 = None \<and> map_of (ex_files st) 1 \<noteq> None"
proof -
  let ?day = "\<lambda>d::int. Inr (if d = 1 then one_row else one_row\<lparr>fm_n := 0\<rparr>)"
  obtain df' where df': "add_rolling_features example_lib one_row = Inr df'" using one_row_features by blast
  have n: "fm_n one_row = 1" by (simp add: one_row_def)
  have "[0..2] = [0, 1, 2::int]" by (simp add: upto_rec1)
  then obtain st where st: "extract_range example_lib ?day 0 2 [] = (Inr (), st)"
    using df' n by (simp add: extract_range_def)
  from extraction_writes_each_day [OF st] show ?thesis using st df' n by (auto simp: day_file_def)
qed

end
