(* ===== verification/Dash_Bars.thy ===== *)
theory Dash_Bars
  imports Questdb Backtest
begin

text \<open>
  The candle data layer of the dashboard (\<open>dashboard/data.py\<close>) and the two callbacks that keep the candles of a
  page up to date (\<open>dashboard/callbacks.py\<close>). A time is a number of microseconds. A row has numeric columns, NaN
  for a missing value, and text columns. Arguments: \<open>ksum\<close>, the compensated sum of pandas; \<open>loads\<close>, the JSON
  parser; \<open>fr\<close>, the text of a float; and the answers of the database and of Redis.
\<close>

section \<open>Timeframes\<close>

definition secs :: "int \<Rightarrow> int" where "secs n = n * 1000000"

text \<open>Source table, whether its rows are resampled, and the number of source rows of a bar.\<close>

definition tf_infos :: "(string \<times> string \<times> bool \<times> nat) list" where
  "tf_infos =
     [(''1s'', ''snapshot_1s'', False, 1), (''1m'', ''snapshot_1m'', False, 1), (''2m'', ''snapshot_1m'', True, 2),
      (''3m'', ''snapshot_1m'', True, 3), (''4m'', ''snapshot_1m'', True, 4), (''6m'', ''snapshot_1m'', True, 6),
      (''10m'', ''snapshot_1m'', True, 10), (''12m'', ''snapshot_1m'', True, 12), (''15m'', ''snapshot_15m'', False, 1),
      (''30m'', ''snapshot_15m'', True, 2), (''45m'', ''snapshot_15m'', True, 3), (''1h'', ''snapshot_15m'', True, 4),
      (''2h'', ''snapshot_15m'', True, 8), (''3h'', ''snapshot_15m'', True, 12), (''4h'', ''snapshot_15m'', True, 16),
      (''6h'', ''snapshot_15m'', True, 24), (''8h'', ''snapshot_15m'', True, 32), (''12h'', ''snapshot_15m'', True, 48),
      (''1d'', ''snapshot_15m'', True, 96), (''1w'', ''snapshot_15m'', True, 672)]"

definition tf_info :: "string \<Rightarrow> string \<times> bool \<times> nat" where
  "tf_info tf = (case map_of tf_infos tf of Some i \<Rightarrow> i | None \<Rightarrow> (''snapshot_1s'', False, 1))"

definition tf_duration :: "string \<Rightarrow> int option" where
  "tf_duration tf = map_option secs (map_of
     [(''1s'', 1), (''1m'', 60), (''2m'', 120), (''3m'', 180), (''4m'', 240), (''6m'', 360), (''10m'', 600), (''12m'', 720),
      (''15m'', 900), (''30m'', 1800), (''45m'', 2700), (''1h'', 3600), (''2h'', 7200), (''3h'', 10800), (''4h'', 14400),
      (''6h'', 21600), (''8h'', 28800), (''12h'', 43200), (''1d'', 86400), (''1w'', 604800)] tf)"

definition base_period :: "string \<Rightarrow> int" where
  "base_period table = (case map_of [(''snapshot_1s'', 1), (''snapshot_1m'', 60), (''snapshot_15m'', 900)] table of
     Some s \<Rightarrow> secs s | None \<Rightarrow> secs 60)"

text \<open>
  The window of the resampling that a time falls into. Every frequency but the weekly one divides a day, so its
  windows start at multiples of it; the weekly ones start on Mondays, the first of which is day 4 of the epoch.
\<close>

definition win_length :: "string \<Rightarrow> int" where
  "win_length tf = (case tf_duration tf of Some d \<Rightarrow> d | None \<Rightarrow> secs 1)"

definition win_origin :: "string \<Rightarrow> int" where
  "win_origin tf = (if tf = ''1w'' then secs (4 * 86400) else 0)"

definition win_start :: "string \<Rightarrow> int \<Rightarrow> int" where
  "win_start tf t = win_origin tf + (t - win_origin tf) div win_length tf * win_length tf"

definition last_source_ts :: "string \<Rightarrow> int \<Rightarrow> int" where
  "last_source_ts tf bar_open_ts =
     (case tf_info tf of (table, resampled, n) \<Rightarrow>
        if \<not> resampled \<or> n \<le> 1 then bar_open_ts else bar_open_ts + (int n - 1) * base_period table)"

section \<open>Merging the columns of one window\<close>

text \<open>One price level of one footprint: a failure stops the footprint where it is and keeps what was added.\<close>

definition cell_amount :: "json \<Rightarrow> string \<Rightarrow> f64 res" where
  "cell_amount cell k = rbind (jget cell k JNull) (\<lambda>v. if jtruthy v then jfloat v else Inr (Fin 0))"

fun merge_cells :: "(string \<times> json) list \<Rightarrow> (string, f64 \<times> f64) dict \<Rightarrow> (string, f64 \<times> f64) dict" where
  "merge_cells [] merged = merged"
| "merge_cells ((price, cell) # cs) merged =
     (case cell of
        JObj _ \<Rightarrow>
          (let (b, s) = dget merged price (Fin 0, Fin 0); merged1 = dset price (b, s) merged in
           case cell_amount cell ''b'' of
             Inl e \<Rightarrow> merged1
           | Inr vb \<Rightarrow>
               (case cell_amount cell ''s'' of
                  Inl e \<Rightarrow> dset price (b + vb, s) merged1
                | Inr vs \<Rightarrow> merge_cells cs (dset price (b + vb, s + vs) merged1)))
      | _ \<Rightarrow> merge_cells cs merged)"

definition merge_footprint :: "(string \<Rightarrow> json option) \<Rightarrow> string option \<Rightarrow> (string, f64 \<times> f64) dict \<Rightarrow> (string, f64 \<times> f64) dict" where
  "merge_footprint loads fp merged =
     (case fp of
        None \<Rightarrow> merged
      | Some t \<Rightarrow> if t = [] then merged else (case loads t of Some (JObj d) \<Rightarrow> merge_cells d merged | _ \<Rightarrow> merged))"

definition merge_footprint_jsons :: "(f64 \<Rightarrow> string) \<Rightarrow> (string \<Rightarrow> json option) \<Rightarrow> string option list \<Rightarrow> string option" where
  "merge_footprint_jsons fr loads fps =
     (let merged = fold (merge_footprint loads) fps [] in
      if merged = [] then None
      else Some (json_dumps fr (JObj (map (\<lambda>(p, (b, s)). (p, JObj [(''b'', JFloat b), (''s'', JFloat s)])) merged))))"

definition level_texts :: "(json \<Rightarrow> string) \<Rightarrow> (string \<Rightarrow> json option) \<Rightarrow> string option \<Rightarrow> string list" where
  "level_texts other loads sp =
     (case sp of
        None \<Rightarrow> []
      | Some t \<Rightarrow> if t = [] then [] else (case loads t of Some (JList ps) \<Rightarrow> map (jstr other) ps | _ \<Rightarrow> []))"

fun insert_level :: "f64 \<times> string \<Rightarrow> (f64 \<times> string) list \<Rightarrow> (f64 \<times> string) list" where
  "insert_level x [] = [x]"
| "insert_level x (y # ys) = (if fst y < fst x then y # insert_level x ys else x # y # ys)"

text \<open>A level that is not the text of a number makes the final sort fail.\<close>

definition merge_single_print_levels ::
  "(f64 \<Rightarrow> string) \<Rightarrow> (json \<Rightarrow> string) \<Rightarrow> (string \<Rightarrow> json option) \<Rightarrow> string option list \<Rightarrow> string option res" where
  "merge_single_print_levels fr other loads sps =
     (let merged = remdups (concat (map (level_texts other loads) sps)) in
      if merged = [] then Inr None
      else rbind (rmap (\<lambda>p. rbind (of_option ValueError (py_float p)) (\<lambda>x. Inr (x, p))) merged) (\<lambda>xs.
        Inr (Some (json_dumps fr (JList (map (JStr \<circ> snd) (foldr insert_level xs [])))))))"

section \<open>Resampling\<close>

record src_row =
  sr_ts :: "int option"
  sr_num :: "(string, f64) dict"
  sr_txt :: "(string, string option) dict"

datatype agg = SumOf | LastOf | FirstOf | MaxOf | MinOf

definition sum_cols :: "string list" where
  "sum_cols =
     [''volume'', ''quote_volume'', ''buy_volume'', ''sell_volume'', ''trade_count'', ''buy_count'', ''block_buy_volume'',
      ''block_sell_volume'', ''bid_order_arrivals'', ''ask_order_arrivals'', ''bid_cancel_count'', ''ask_cancel_count'',
      ''ob_modify_count'', ''best_bid_changes'', ''best_ask_changes'', ''uptick_count'', ''downtick_count'',
      ''imbalance_buy_count'', ''imbalance_sell_count'', ''imbalance_stack_buy'', ''imbalance_stack_sell'',
      ''single_print_count'', ''large_bid_orders'', ''large_ask_orders'', ''gap_count'', ''bar_count'']"

definition first_cols :: "string list" where
  "first_cols =
     [''open'', ''best_bid_open'', ''best_ask_open'', ''mid_price_open'', ''bid_depth_l1_open'', ''ask_depth_l1_open'',
      ''bid_depth_l2_open'', ''ask_depth_l2_open'', ''bid_depth_top10_open'', ''ask_depth_top10_open'',
      ''bid_depth_total_open'', ''ask_depth_total_open'', ''first_trade_offset_ms'']"

definition max_cols :: "string list" where
  "max_cols =
     [''high'', ''mid_price_high'', ''spread_high'', ''max_trade_size'', ''max_consecutive_run'', ''absorption_detected'',
      ''iceberg_bid_detected'', ''iceberg_ask_detected'']"

definition min_cols :: "string list" where
  "min_cols = [''low'', ''mid_price_low'', ''spread_low'']"

text \<open>Every column the source does not name elsewhere is carried forward like a closing value.\<close>

definition agg_of :: "string \<Rightarrow> agg" where
  "agg_of c = (if c \<in> set sum_cols then SumOf else if c \<in> set first_cols then FirstOf
     else if c \<in> set max_cols then MaxOf else if c \<in> set min_cols then MinOf else LastOf)"

definition aggregate :: "(f64 list \<Rightarrow> f64) \<Rightarrow> agg \<Rightarrow> f64 list \<Rightarrow> f64" where
  "aggregate ksum a xs =
     (let vs = filter (\<lambda>x. \<not> is_nan x) xs in
      case a of
        SumOf \<Rightarrow> if vs = [] then Fin 0 else ksum vs
      | FirstOf \<Rightarrow> if vs = [] then NaN else hd vs
      | LastOf \<Rightarrow> if vs = [] then NaN else last vs
      | MaxOf \<Rightarrow> if vs = [] then NaN else fold py_max (tl vs) (hd vs)
      | MinOf \<Rightarrow> if vs = [] then NaN else fold py_min (tl vs) (hd vs))"

definition last_text :: "string option list \<Rightarrow> string option" where
  "last_text ts = (case filter (\<lambda>t. t \<noteq> None) ts of [] \<Rightarrow> None | xs \<Rightarrow> last xs)"

record aggregators =
  ag_sum :: "f64 list \<Rightarrow> f64"
  ag_fr :: "f64 \<Rightarrow> string"
  ag_other :: "json \<Rightarrow> string"
  ag_loads :: "string \<Rightarrow> json option"

definition text_column :: "aggregators \<Rightarrow> string \<Rightarrow> string option list \<Rightarrow> string option res" where
  "text_column g c ts =
     (if c = ''footprint_json'' then Inr (merge_footprint_jsons (ag_fr g) (ag_loads g) ts)
      else if c = ''single_print_levels_json'' then merge_single_print_levels (ag_fr g) (ag_other g) (ag_loads g) ts
      else Inr (last_text ts))"

text \<open>The bar of one window from the rows in it; the columns are those of all rows.\<close>

definition window_bar :: "aggregators \<Rightarrow> string list \<Rightarrow> string list \<Rightarrow> int \<Rightarrow> src_row list \<Rightarrow> src_row res" where
  "window_bar g ncols tcols w rows =
     rbind (rmap (\<lambda>c. rbind (text_column g c (map (\<lambda>r. dget (sr_txt r) c None) rows)) (\<lambda>t. Inr (c, t))) tcols) (\<lambda>txt.
       Inr \<lparr>sr_ts = Some w,
            sr_num = map (\<lambda>c. (c, aggregate (ag_sum g) (agg_of c) (map (\<lambda>r. dget (sr_num r) c NaN) rows))) ncols,
            sr_txt = txt\<rparr>)"

definition row_time :: "src_row \<Rightarrow> int" where
  "row_time r = (case sr_ts r of Some t \<Rightarrow> t | None \<Rightarrow> 0)"

text \<open>All windows from the one of the first row to the one of the last row, the ones without a row included.\<close>

definition windows :: "string \<Rightarrow> src_row list \<Rightarrow> int list" where
  "windows tf rows =
     (case rows of
        [] \<Rightarrow> []
      | r # _ \<Rightarrow>
          (let a = win_start tf (row_time r); b = win_start tf (row_time (last rows)) in
           map (\<lambda>k. a + int k * win_length tf) [0..<Suc (nat ((b - a) div win_length tf))]))"

definition rows_of_window :: "string \<Rightarrow> src_row list \<Rightarrow> int \<Rightarrow> src_row list" where
  "rows_of_window tf rows w = filter (\<lambda>r. win_start tf (row_time r) = w) rows"

definition resample :: "aggregators \<Rightarrow> string list \<Rightarrow> string list \<Rightarrow> string \<Rightarrow> src_row list \<Rightarrow> src_row list res" where
  "resample g ncols tcols tf rows = rmap (\<lambda>w. window_bar g ncols tcols w (rows_of_window tf rows w)) (windows tf rows)"

definition bar_complete :: "string \<Rightarrow> int \<Rightarrow> src_row \<Rightarrow> bool" where
  "bar_complete tf now r = (case tf_duration tf of Some d \<Rightarrow> row_time r + d \<le> now | None \<Rightarrow> True)"

text \<open>The columns of a data frame are all keys of its rows.\<close>

definition num_columns :: "src_row list \<Rightarrow> string list" where
  "num_columns rows = remdups (concat (map (dkeys \<circ> sr_num) rows))"

definition txt_columns :: "src_row list \<Rightarrow> string list" where
  "txt_columns rows = remdups (concat (map (dkeys \<circ> sr_txt) rows))"

definition aggregate_rows :: "aggregators \<Rightarrow> string \<Rightarrow> int \<Rightarrow> src_row list \<Rightarrow> src_row list res" where
  "aggregate_rows g tf now rows =
     (let df = sort_key row_time (filter (\<lambda>r. sr_ts r \<noteq> None) rows) in
      rbind (resample g (num_columns rows) (txt_columns rows) tf df) (\<lambda>bars. Inr (filter (bar_complete tf now) bars)))"

section \<open>Fetching\<close>

definition take_last :: "nat \<Rightarrow> 'a list \<Rightarrow> 'a list" where
  "take_last n xs = drop (length xs - n) xs"

definition quoted :: "string \<Rightarrow> string" where
  "quoted t = [CHR 0x27] @ t @ [CHR 0x27]"

definition candles_query :: "string \<Rightarrow> string \<Rightarrow> string \<Rightarrow> nat \<Rightarrow> string" where
  "candles_query table ex sy n =
     ''SELECT * FROM '' @ table @ '' WHERE exchange='' @ quoted ex @ '' AND symbol='' @ quoted sy @
     '' ORDER BY ts DESC LIMIT '' @ int_str (int n)"


text \<open>
  \<open>db\<close> answers a query with the JSON body; a failed request or a body that is not JSON is an error that the source
  turns into no rows. \<open>decode\<close> is how a row becomes typed columns.
\<close>

definition db_rows :: "((string, json) dict \<Rightarrow> src_row) \<Rightarrow> (string \<Rightarrow> json res) \<Rightarrow> string \<Rightarrow> src_row list res" where
  "db_rows decode db sql =
     (case db sql of Inl e \<Rightarrow> Inr [] | Inr body \<Rightarrow> rbind (dataset_rows body) (\<lambda>rows. Inr (map decode rows)))"

definition fetch_history ::
  "aggregators \<Rightarrow> ((string, json) dict \<Rightarrow> src_row) \<Rightarrow> (string \<Rightarrow> json res) \<Rightarrow> string \<Rightarrow> string \<Rightarrow> nat \<Rightarrow> string \<Rightarrow> int \<Rightarrow>
   src_row list res" where
  "fetch_history g decode db ex sy limit tf now =
     (if \<not> ident_ok ex \<or> \<not> ident_ok sy then Inr []
      else case tf_info tf of (table, resampled, n) \<Rightarrow>
        let fetch_limit = (if \<not> resampled then limit else min (limit * n + 10) 50000) in
        rbind (db_rows decode db (candles_query table ex sy fetch_limit)) (\<lambda>rows.
        rbind (if resampled then aggregate_rows g tf now (rev rows) else Inr (rev rows)) (\<lambda>bars.
          Inr (take_last limit bars))))"


definition new_bars :: "aggregators \<Rightarrow> string \<Rightarrow> int \<Rightarrow> src_row list \<Rightarrow> src_row list res" where
  "new_bars g tf now rows = (if rows = [] then Inr [] else aggregate_rows g tf now rows)"


section \<open>The page\<close>

record page =
  pg_selected :: "(string \<times> string) option"
  pg_tf :: string
  pg_candles :: "src_row list"
  pg_last_ts :: "int option"
  pg_ob :: "string list"
  pg_cursor :: string
  pg_cursor_symbol :: "(string \<times> string) option"

text \<open>The last entry id of the order book stream, \<open>0\<close> when it is empty or Redis fails.\<close>

definition fetch_ob_snapshot :: "string option res \<Rightarrow> string" where
  "fetch_ob_snapshot answer = (case answer of Inr (Some i) \<Rightarrow> i | _ \<Rightarrow> ''0'')"

definition fetch_ob_live :: "string list res \<Rightarrow> string \<Rightarrow> string list \<times> string" where
  "fetch_ob_live answer cursor =
     (case answer of Inl e \<Rightarrow> ([], cursor) | Inr ids \<Rightarrow> (ids, if ids = [] then cursor else last ids))"

definition update_candle_store ::
  "(string \<times> string \<Rightarrow> src_row list res) \<Rightarrow> string option res \<Rightarrow> (string \<times> string) option \<Rightarrow> string option \<Rightarrow> page res" where
  "update_candle_store history ob selected tf0 =
     (let tf = (case tf0 of None \<Rightarrow> ''1s'' | Some t \<Rightarrow> if t = [] then ''1s'' else t) in
      case selected of
        None \<Rightarrow> Inr \<lparr>pg_selected = None, pg_tf = tf, pg_candles = [], pg_last_ts = None, pg_ob = [], pg_cursor = ''0'',
                  pg_cursor_symbol = None\<rparr>
      | Some s \<Rightarrow>
          rbind (history s) (\<lambda>rows. Inr
            \<lparr>pg_selected = Some s, pg_tf = tf, pg_candles = rows,
             pg_last_ts = (if rows = [] then None else Some (last_source_ts tf (row_time (last rows)))),
             pg_ob = [], pg_cursor = fetch_ob_snapshot ob, pg_cursor_symbol = Some s\<rparr>))"

definition push_candles :: "src_row list \<Rightarrow> page \<Rightarrow> page" where
  "push_candles new p =
     (if new = [] then p
      else p\<lparr>pg_candles := take_last 500 (pg_candles p @ new),
             pg_last_ts := Some (last_source_ts (pg_tf p) (row_time (last new)))\<rparr>)"

definition push_ob :: "string list \<Rightarrow> string \<Rightarrow> page \<Rightarrow> page" where
  "push_ob new cursor p = (if new = [] then p else p\<lparr>pg_ob := take_last 1000 (pg_ob p @ new), pg_cursor := cursor\<rparr>)"

text \<open>One tick: \<open>fetch\<close> answers for the last time stamp, \<open>ob\<close> for the cursor. An exception leaves the page as it is.\<close>

definition live_update :: "(string \<times> string \<Rightarrow> int \<Rightarrow> src_row list res) \<Rightarrow> string list res \<Rightarrow> page \<Rightarrow> page res" where
  "live_update fetch ob p =
     (case (pg_selected p, pg_last_ts p) of
        (Some s, Some t) \<Rightarrow>
          rbind (fetch s t) (\<lambda>new.
            let (new_ob, cursor) = (if pg_cursor_symbol p \<noteq> Some s then ([], pg_cursor p)
                                    else fetch_ob_live ob (if pg_cursor p = [] then ''0'' else pg_cursor p))
            in Inr (push_ob new_ob cursor (push_candles new p)))
      | _ \<Rightarrow> Inr p)"

section \<open>A grid of windows\<close>

lemma upt_shift: "[0..<a + b] = [0..<a] @ map (\<lambda>k. k + a) [0..<b]"
  by (rule nth_equalityI) (auto simp: nth_append simp del: upt_Suc)

text \<open>What the resampling relies on: windows of one length on a fixed grid, and the one a time falls into.\<close>

locale window_grid =
  fixes win :: "int \<Rightarrow> int" and d :: int
  assumes d_pos: "0 < d"
    and win_bounds: "win t \<le> t \<and> t < win t + d"
    and win_grid: "d dvd win t - win s"
begin

lemma win_mono: "s \<le> t \<Longrightarrow> win s \<le> win t"
proof (rule ccontr)
  assume "s \<le> t" "\<not> win s \<le> win t"
  moreover have "d dvd win s - win t" by (rule win_grid)
  ultimately have "d \<le> win s - win t" using zdvd_imp_le by fastforce
  then show False using \<open>s \<le> t\<close> win_bounds [of s] win_bounds [of t] by linarith
qed

lemma win_later: "win s < win t \<longleftrightarrow> win s + d \<le> t"
proof
  assume "win s < win t"
  then have "d \<le> win t - win s" using win_grid [of t s] zdvd_imp_le by fastforce
  then show "win s + d \<le> t" using win_bounds [of t] by linarith
qed (use win_bounds [of t] in linarith)

lemma grid_split:
  assumes "win a \<le> win b" "win c = win b + d" "win c \<le> win e"
  shows "map (\<lambda>k. win a + int k * d) [0..<Suc (nat ((win e - win a) div d))] =
    map (\<lambda>k. win a + int k * d) [0..<Suc (nat ((win b - win a) div d))] @
    map (\<lambda>k. win c + int k * d) [0..<Suc (nat ((win e - win c) div d))]"
proof -
  obtain m where m: "win b - win a = d * m" using win_grid [of b a] by (elim dvdE)
  obtain q where q: "win e - win c = d * q" using win_grid [of e c] by (elim dvdE)
  have "0 \<le> d * m" "0 \<le> d * q" using m q assms(1,3) by linarith+
  then have nonneg: "0 \<le> m" "0 \<le> q" using d_pos by (simp_all add: zero_le_mult_iff)
  have e: "win e - win a = d * (m + 1 + q)" using m q assms(2) by (simp add: algebra_simps)
  have c: "win c = win a + (m + 1) * d" using m assms(2) by (simp add: algebra_simps)
  have n: "(win b - win a) div d = m" "(win e - win c) div d = q" "(win e - win a) div d = m + 1 + q"
    unfolding m q e using d_pos by simp_all
  have "[0..<Suc (nat (m + 1 + q))] = [0..<Suc (nat m)] @ map (\<lambda>k. k + Suc (nat m)) [0..<Suc (nat q)]"
  proof -
    have "Suc (nat (m + 1 + q)) = Suc (nat m) + Suc (nat q)" using nonneg by linarith
    then show ?thesis using upt_shift [of "Suc (nat m)" "Suc (nat q)"] by simp
  qed
  moreover have "win a + int (k + Suc (nat m)) * d = win c + int k * d" for k
    using nonneg c by (simp add: algebra_simps)
  ultimately show ?thesis unfolding n by (simp only: map_append map_map comp_def)
qed

end

lemma win_length_pos: "0 < win_length tf"
proof (cases "tf_duration tf")
  case (Some d)
  then show ?thesis
    by (auto simp: win_length_def tf_duration_def secs_def split: if_splits)
qed (simp add: win_length_def secs_def)

interpretation grid: window_grid "win_start tf" "win_length tf" for tf
proof unfold_locales
  show "0 < win_length tf" by (rule win_length_pos)
  show "win_start tf t \<le> t \<and> t < win_start tf t + win_length tf" for t
  proof -
    have "(t - win_origin tf) div win_length tf * win_length tf + (t - win_origin tf) mod win_length tf = t - win_origin tf"
      by simp
    then show ?thesis
      using pos_mod_bound [OF win_length_pos, of "t - win_origin tf" tf] pos_mod_sign [OF win_length_pos, of "t - win_origin tf" tf]
      unfolding win_start_def by linarith
  qed
  show "win_length tf dvd win_start tf t - win_start tf s" for t s
    by (simp add: win_start_def flip: left_diff_distrib)
qed

section \<open>Resampling in two parts\<close>







section \<open>Timeframes and their source rows\<close>

definition tf_consistent :: "string \<times> string \<times> bool \<times> nat \<Rightarrow> bool" where
  "tf_consistent e = (case e of (tf, table, resampled, n) \<Rightarrow>
     resampled \<longrightarrow> tf_duration tf = Some (int n * base_period table) \<and> 1 < n \<and> 0 < base_period table \<and>
       base_period table dvd win_origin tf)"

lemma table_consistent: "list_all tf_consistent tf_infos"
  by code_simp

lemma resampled_cases:
  assumes "tf_info tf = (table, True, n)"
  shows "tf_duration tf = Some (int n * base_period table) \<and> 1 < n \<and> 0 < base_period table \<and> base_period table dvd win_origin tf"
proof -
  have "(tf, table, True, n) \<in> set tf_infos"
    using assms by (auto simp: tf_info_def split: option.splits dest: map_of_SomeD)
  then have "tf_consistent (tf, table, True, n)" using table_consistent by (simp only: list_all_iff)
  then show ?thesis by (simp add: tf_consistent_def)
qed

lemma resampled_length: "tf_info tf = (table, True, n) \<Longrightarrow> win_length tf = int n * base_period table"
  using resampled_cases by (simp add: win_length_def)

lemma win_start_aligned: "tf_info tf = (table, True, n) \<Longrightarrow> base_period table dvd win_start tf t"
  using resampled_cases [of tf table n] resampled_length [of tf table n] by (auto simp: win_start_def)

lemma source_ts_later:
  assumes "tf_info tf = (table, True, n)" and "base_period table dvd t"
  shows "last_source_ts tf (win_start tf s) < t \<longleftrightarrow> win_start tf s < win_start tf t"
proof -
  let ?b = "base_period table" and ?w = "win_start tf s"
  have b: "0 < ?b" "1 < n" "win_length tf = int n * ?b"
    using resampled_cases [OF assms(1)] resampled_length [OF assms(1)] by auto
  have l: "last_source_ts tf ?w = ?w + win_length tf - ?b"
    using b assms(1) by (simp add: last_source_ts_def algebra_simps)
  have "?b dvd t - (?w + win_length tf)" using assms(2) win_start_aligned [OF assms(1)] b(3) by simp
  then have "?b dvd ?w + win_length tf - t" by (simp add: dvd_diff_commute)
  then have "?w + win_length tf - ?b < t \<longleftrightarrow> ?w + win_length tf \<le> t"
    using b(1) zdvd_imp_le [of ?b "?w + win_length tf - t"] by linarith
  then show ?thesis unfolding l grid.win_later .
qed

text \<open>
  C36. The time stamp from which the live update continues is the last source row of the bar: for every resampled
  timeframe the source rows of a window are one duration together, and a source row on the grid of its table is later
  than that time stamp exactly when it belongs to a later window.
\<close>

theorem last_source_ts_separates_windows:
  assumes "tf_info tf = (table, True, n)" and "base_period table dvd t"
  shows "last_source_ts tf (win_start tf s) < t \<longleftrightarrow> win_start tf s < win_start tf t"
  by (rule source_ts_later [OF assms])

lemma last_source_ts_separates_windows_witness:
  "last_source_ts ''1w'' (win_start ''1w'' 0) < secs 345600 \<and> win_start ''1w'' 0 < win_start ''1w'' (secs 345600)"
proof -
  have "tf_info ''1w'' = (''snapshot_15m'', True, 672)" by (simp add: tf_info_def tf_infos_def)
  moreover have "base_period ''snapshot_15m'' dvd secs 345600" by (simp add: base_period_def secs_def)
  moreover have "win_start ''1w'' 0 < win_start ''1w'' (secs 345600)"
    by (simp add: win_start_def win_origin_def win_length_def tf_duration_def secs_def)
  ultimately show ?thesis using last_source_ts_separates_windows by blast
qed

section \<open>Live bars and bars of the history\<close>










lemma resample_Nil [simp]: "resample g nc tc tf [] = Inr []"
  by (simp add: resample_def windows_def)





text \<open>The page shows the last 500 bars of the table and continues from the last source row of the last one.\<close>

definition page_synced :: "aggregators \<Rightarrow> int \<Rightarrow> src_row list \<Rightarrow> page \<Rightarrow> bool" where
  "page_synced g now T p =
     (\<exists>bars. aggregate_rows g (pg_tf p) now T = Inr bars \<and> bars \<noteq> [] \<and> pg_candles p = take_last 500 bars \<and>
        pg_last_ts p = Some (last_source_ts (pg_tf p) (row_time (last bars))))"




text \<open>Rows of one minute with a volume, and an exact sum.\<close>

definition minute_row :: "int \<Rightarrow> src_row" where
  "minute_row m = \<lparr>sr_ts = Some (secs (60 * m)), sr_num = [(''volume'', Fin 1)], sr_txt = []\<rparr>"

definition plain_sum :: aggregators where
  "plain_sum = \<lparr>ag_sum = foldl (+) (Fin 0), ag_fr = (\<lambda>_. []), ag_other = (\<lambda>_. []), ag_loads = (\<lambda>_. None)\<rparr>"

definition volume_bar :: "int \<Rightarrow> rat \<Rightarrow> src_row" where
  "volume_bar m v = \<lparr>sr_ts = Some (secs (60 * m)), sr_num = [(''volume'', Fin v)], sr_txt = []\<rparr>"

definition two_minute_page :: "src_row list \<Rightarrow> int \<Rightarrow> page" where
  "two_minute_page candles t = \<lparr>pg_selected = Some (''bybit'', ''BTCUSDT''), pg_tf = ''2m'', pg_candles = candles, pg_last_ts = Some t,
     pg_ob = [], pg_cursor = ''0'', pg_cursor_symbol = None\<rparr>"

lemma minute_bars:
  "aggregate_rows plain_sum ''2m'' (secs 120) (map minute_row [0]) = Inr [volume_bar 0 1]"
  "aggregate_rows plain_sum ''2m'' (secs 120) (map minute_row [0, 1]) = Inr [volume_bar 0 2]"
  "aggregate_rows plain_sum ''2m'' (secs 240) (map minute_row [2, 3]) = Inr [volume_bar 2 2]"
  "aggregate_rows plain_sum ''2m'' (secs 240) (map minute_row [0, 1, 2, 3]) = Inr [volume_bar 0 2, volume_bar 2 2]"
  by code_simp+

lemma minute_sources:
  "last_source_ts ''2m'' (row_time (volume_bar 0 v)) = secs 60"
  "filter (\<lambda>r. secs 60 < row_time r) (map minute_row [0, 1, 2, 3]) = map minute_row [2, 3]"
  by (simp_all add: last_source_ts_def tf_info_def tf_infos_def row_time_def volume_bar_def base_period_def secs_def
      minute_row_def)






text \<open>
  A bar that the clock calls complete may lack its last source row, which the recorder writes only after the minute is
  over; the page never repairs it: here a page that agreed with the table shows a two-minute bar with half of its
  volume after the next tick, while a reload shows all of it.
\<close>

theorem late_source_row_never_shown:
  "page_synced plain_sum (secs 120) (map minute_row [0]) (two_minute_page [volume_bar 0 1] (secs 60)) \<and>
   new_bars plain_sum ''2m'' (secs 240) (filter (\<lambda>r. secs 60 < row_time r) (map minute_row [0, 1, 2, 3])) = Inr [volume_bar 2 2] \<and>
   pg_candles (push_candles [volume_bar 2 2] (two_minute_page [volume_bar 0 1] (secs 60))) = [volume_bar 0 1, volume_bar 2 2] \<and>
   aggregate_rows plain_sum ''2m'' (secs 240) (map minute_row [0, 1, 2, 3]) = Inr [volume_bar 0 2, volume_bar 2 2]"
  using minute_bars minute_sources(1) [of 1] minute_sources(2)
  by (simp add: page_synced_def two_minute_page_def take_last_def new_bars_def push_candles_def)

section \<open>Bounds of the page\<close>

lemma length_take_last: "length (take_last n xs) \<le> n"
  unfolding take_last_def length_drop by linarith

text \<open>
  The page never holds more than 500 candles and 1000 order book entries after a tick if it did not before, and a tick
  without a selected symbol, without a time stamp or without news leaves its candles as they are.
\<close>

theorem page_stays_bounded:
  assumes "live_update fetch ob p = Inr p'" and "length (pg_candles p) \<le> 500" and "length (pg_ob p) \<le> 1000"
  shows "length (pg_candles p') \<le> 500 \<and> length (pg_ob p') \<le> 1000 \<and>
    (pg_selected p = None \<or> pg_last_ts p = None \<or> fetch (the (pg_selected p)) (the (pg_last_ts p)) = Inr [] \<longrightarrow>
      pg_candles p' = pg_candles p)"
proof -
  have c: "length (pg_candles (push_candles new q)) \<le> 500" if "length (pg_candles q) \<le> 500" for new q
    using that length_take_last by (auto simp: push_candles_def)
  have o: "length (pg_ob (push_ob new cur q)) \<le> 1000" if "length (pg_ob q) \<le> 1000" for new cur q
    using that length_take_last by (auto simp: push_ob_def)
  have same: "pg_candles (push_ob new cur q) = pg_candles q" "pg_ob (push_candles b q) = pg_ob q" for new cur q b
    by (simp_all add: push_ob_def push_candles_def)
  show ?thesis
  proof (cases "pg_selected p = None \<or> pg_last_ts p = None")
    case True
    then have "p' = p" using assms(1) by (auto simp: live_update_def split: option.splits)
    then show ?thesis using assms(2,3) by simp
  next
    case False
    then obtain s t where st: "pg_selected p = Some s" "pg_last_ts p = Some t" by auto
    define obs where "obs = (if pg_cursor_symbol p \<noteq> Some s then ([], pg_cursor p)
      else fetch_ob_live ob (if pg_cursor p = [] then ''0'' else pg_cursor p))"
    have "rbind (fetch s t) (\<lambda>new. let (new_ob, cursor) = obs in Inr (push_ob new_ob cursor (push_candles new p))) = Inr p'"
      using assms(1) unfolding live_update_def st obs_def by simp
    then obtain new where new: "fetch s t = Inr new" "p' = push_ob (fst obs) (snd obs) (push_candles new p)"
      by (cases obs) (auto simp: rbind_Inr_iff)
    have "new = [] \<Longrightarrow> pg_candles p' = pg_candles p" using new(2) same by (simp add: push_candles_def)
    moreover have "length (pg_candles p') \<le> 500" "length (pg_ob p') \<le> 1000"
      unfolding new(2) same using c [OF assms(2)] o [of "push_candles new p"] same assms(3) by simp_all
    ultimately show ?thesis using st new(1) by auto
  qed
qed

lemma page_stays_bounded_witness:
  "\<exists>p'. live_update (\<lambda>s t. Inr []) (Inr [''1-0'']) (two_minute_page [volume_bar 0 1] 0) = Inr p' \<and> length (pg_ob p') \<le> 1000 \<and>
     pg_candles p' = [volume_bar 0 1]"
proof -
  let ?p = "two_minute_page [volume_bar 0 1] 0"
  obtain p' where p': "live_update (\<lambda>s t. Inr []) (Inr [''1-0'']) ?p = Inr p'"
    by (simp add: live_update_def two_minute_page_def Let_def)
  show ?thesis using page_stays_bounded [OF p'] p' by (simp add: two_minute_page_def)
qed

end
