(* ===== verification/Logging.thy ===== *)
theory Logging
  imports Exchange
begin

text \<open>
  The redaction step of the log processor chain (\<open>bot_service/config.py\<close>): every text of an event dictionary, at
  any depth of nested dictionaries, lists and tuples, is scrubbed of the five credentials and of the password of a
  Redis address. Values that are not text, dictionary, list or tuple are passed on.
\<close>

datatype log_value =
    LText string | LDict "(string \<times> log_value) list" | LList "log_value list" | LTuple "log_value list" | LOther

definition redis_prefix :: string where "redis_prefix = ''redis://:''"

text \<open>\<open>re.sub(r"redis://:([^@]+)@", ...)\<close>.\<close>

function redact_redis :: "string \<Rightarrow> string" where
  "redact_redis t =
     (if t = [] then []
      else let u = drop (length redis_prefix) t; pw = takeWhile (\<lambda>c. c \<noteq> CHR ''@'') u;
               rest = dropWhile (\<lambda>c. c \<noteq> CHR ''@'') u in
        if starts_with redis_prefix t \<and> pw \<noteq> [] \<and> rest \<noteq> []
        then redis_prefix @ redacted @ CHR ''@'' # redact_redis (tl rest)
        else hd t # redact_redis (tl t))"
  by pat_completeness auto
termination
proof (relation "measure length")
  fix t :: string and u pw rest
  assume "t \<noteq> []" "u = drop (length redis_prefix) t" "rest = dropWhile (\<lambda>c. c \<noteq> CHR ''@'') u"
  then have "length rest \<le> length t" using length_dropWhile_le [of "\<lambda>c. c \<noteq> CHR ''@''" u] by simp
  then show "(tl rest, t) \<in> measure length" using \<open>t \<noteq> []\<close> by (cases t) auto
qed auto

declare redact_redis.simps [simp del]

definition scrub_text :: "credentials \<Rightarrow> string \<Rightarrow> string" where
  "scrub_text c text = redact_redis (scrub_for_error c text)"

fun scrub_value :: "credentials \<Rightarrow> log_value \<Rightarrow> log_value" where
  "scrub_value c (LText t) = LText (scrub_text c t)"
| "scrub_value c (LDict d) = LDict (map (\<lambda>(k, v). (k, scrub_value c v)) d)"
| "scrub_value c (LList vs) = LList (map (scrub_value c) vs)"
| "scrub_value c (LTuple vs) = LTuple (map (scrub_value c) vs)"
| "scrub_value c LOther = LOther"

definition redact_credentials :: "credentials \<Rightarrow> (string \<times> log_value) list \<Rightarrow> (string \<times> log_value) list" where
  "redact_credentials c event = map (\<lambda>(k, v). (k, scrub_value c v)) event"

section \<open>What a redacted event holds\<close>

text \<open>All texts of a value, the keys of dictionaries left out.\<close>

fun texts_of :: "log_value \<Rightarrow> string list" where
  "texts_of (LText t) = [t]"
| "texts_of (LDict d) = concat (map (texts_of \<circ> snd) d)"
| "texts_of (LList vs) = concat (map texts_of vs)"
| "texts_of (LTuple vs) = concat (map texts_of vs)"
| "texts_of LOther = []"

lemma prefix_before: "c \<notin> set p \<Longrightarrow> prefix p (xs @ c # ys) \<longleftrightarrow> prefix p xs"
  by (induction xs arbitrary: p) (auto simp: prefix_Cons)

lemma sublist_around: "c \<notin> set p \<Longrightarrow> sublist p (xs @ c # ys) \<longleftrightarrow> sublist p xs \<or> sublist p ys"
proof (induction xs)
  case Nil
  then show ?case by (cases p) (auto simp: sublist_Cons_right)
next
  case (Cons x xs)
  then show ?case using prefix_before [of c p "x # xs" ys] by (auto simp: sublist_Cons_right)
qed

lemma redacted_split: "redacted = [] @ CHR ''['' # ''REDACTED'' @ CHR '']'' # []"
  by (simp add: redacted_def)

definition hidden :: "string \<Rightarrow> bool" where
  "hidden p = (p \<noteq> [] \<and> CHR ''['' \<notin> set p \<and> CHR '']'' \<notin> set p \<and> \<not> sublist p ''REDACTED'')"

lemma hidden_foreign: "hidden p \<Longrightarrow> foreign p redacted"
proof -
  assume h: "hidden p"
  then have "\<not> sublist p redacted"
    unfolding redacted_split using sublist_around [of "CHR ''[''" p "[]"] sublist_around [of "CHR '']''" p "''REDACTED''" "[]"]
    by (simp add: hidden_def)
  then show ?thesis using h by (simp add: foreign_def hidden_def redacted_def)
qed

lemma redact_redis_match:
  assumes "pw \<noteq> []" and "CHR ''@'' \<notin> set pw"
  shows "redact_redis (redis_prefix @ pw @ CHR ''@'' # v)
    = redis_prefix @ CHR ''['' # ''REDACTED'' @ CHR '']'' # CHR ''@'' # redact_redis v"
proof -
  let ?t = "redis_prefix @ pw @ CHR ''@'' # v"
  have "?t \<noteq> []" and "starts_with redis_prefix ?t" and "drop (length redis_prefix) ?t = pw @ CHR ''@'' # v"
    by (simp_all add: starts_with_def)
  moreover have "takeWhile (\<lambda>c. c \<noteq> CHR ''@'') (pw @ CHR ''@'' # v) = pw"
    using assms(2) by (subst takeWhile_append2) auto
  moreover have "dropWhile (\<lambda>c. c \<noteq> CHR ''@'') (pw @ CHR ''@'' # v) = CHR ''@'' # v"
    using assms(2) by (subst dropWhile_append2) auto
  ultimately show ?thesis using assms(1) by (subst redact_redis.simps) (simp only: Let_def if_False if_True list.sel not_False_eq_True simp_thms list.distinct, simp add: redacted_def)
qed

lemma redact_redis_skip:
  assumes "\<And>pw v. pw \<noteq> [] \<Longrightarrow> CHR ''@'' \<notin> set pw \<Longrightarrow> c # t \<noteq> redis_prefix @ pw @ CHR ''@'' # v"
  shows "redact_redis (c # t) = c # redact_redis t"
proof -
  define u where "u = drop (length redis_prefix) (c # t)"
  let ?pw = "takeWhile (\<lambda>c. c \<noteq> CHR ''@'') u"
  let ?rest = "dropWhile (\<lambda>c. c \<noteq> CHR ''@'') u"
  have "\<not> (starts_with redis_prefix (c # t) \<and> ?pw \<noteq> [] \<and> ?rest \<noteq> [])"
  proof
    assume m: "starts_with redis_prefix (c # t) \<and> ?pw \<noteq> [] \<and> ?rest \<noteq> []"
    then have "hd ?rest = CHR ''@''" using hd_dropWhile [of "\<lambda>c. c \<noteq> CHR ''@''" u] by blast
    then have "?rest = CHR ''@'' # tl ?rest" using m by (cases ?rest) auto
    then have "u = ?pw @ CHR ''@'' # tl ?rest" by (metis takeWhile_dropWhile_id)
    moreover have "c # t = redis_prefix @ u" using m by (metis append_take_drop_id starts_with_def u_def)
    moreover have "CHR ''@'' \<notin> set ?pw" by (auto dest: set_takeWhileD)
    ultimately show False using assms [of ?pw "tl ?rest"] m by metis
  qed
  then show ?thesis unfolding u_def by (subst redact_redis.simps) (simp only: Let_def if_False list.sel list.distinct simp_thms)
qed

lemma redact_redis_cases:
  obtains (Nil) "t = []" "redact_redis t = []"
  | (Match) pw v where "t = redis_prefix @ pw @ CHR ''@'' # v"
      "redact_redis t = redis_prefix @ CHR ''['' # ''REDACTED'' @ CHR '']'' # CHR ''@'' # redact_redis v"
  | (Skip) c t' where "t = c # t'" "redact_redis t = c # redact_redis t'"
proof (cases t)
  case Nil
  then show thesis using that(1) by (simp add: redact_redis.simps)
next
  case (Cons c t')
  show thesis
  proof (cases "\<exists>pw v. pw \<noteq> [] \<and> CHR ''@'' \<notin> set pw \<and> t = redis_prefix @ pw @ CHR ''@'' # v")
    case True
    then show thesis using that(2) redact_redis_match by blast
  next
    case False
    then show thesis using that(3) [OF Cons] redact_redis_skip [of c t'] Cons by blast
  qed
qed

lemma prefix_redact_redis: "prefix p (redact_redis t) \<Longrightarrow> CHR ''['' \<notin> set p \<Longrightarrow> prefix p t"
proof (induction "length t" arbitrary: p t rule: less_induct)
  case less
  show ?case
  proof (cases t rule: redact_redis_cases)
    case (Match pw v)
    then show ?thesis using less.prems prefix_before [of "CHR ''[''" p redis_prefix] by (simp add: prefix_append)
  next
    case (Skip c t')
    then show ?thesis using less by (cases p) auto
  qed (use less.prems in simp)
qed

lemma sublist_redact_redis: "hidden p \<Longrightarrow> sublist p (redact_redis t) \<Longrightarrow> sublist p t"
proof (induction "length t" arbitrary: t rule: less_induct)
  case less
  note h = less.prems(1) [unfolded hidden_def]
  have step: "sublist p (c # t')" if "sublist p (c # redact_redis t')" "length t' < length t" for c t'
  proof -
    have "prefix p (c # redact_redis t') \<or> sublist p (redact_redis t')" using that(1) sublist_Cons_right by metis
    then consider "prefix p (c # redact_redis t')" | "sublist p (redact_redis t')" by blast
    then show ?thesis
    proof cases
      case 1
      then obtain p' where p: "p = c # p'" "prefix p' (redact_redis t')" using h by (cases p) auto
      then have "prefix p' t'" using prefix_redact_redis h by auto
      then show ?thesis using p by (auto intro: prefix_imp_sublist)
    next
      case 2
      then show ?thesis using less.hyps [OF that(2) less.prems(1)] by (auto simp: sublist_Cons_right)
    qed
  qed
  show ?case
  proof (cases t rule: redact_redis_cases)
    case (Match pw v)
    then have "sublist p redis_prefix \<or> sublist p (''REDACTED'' @ CHR '']'' # CHR ''@'' # redact_redis v)"
      using less.prems(2) sublist_around [of "CHR ''[''" p redis_prefix] h by simp
    then have "sublist p redis_prefix \<or> sublist p (CHR ''@'' # redact_redis v)"
      using sublist_around [of "CHR '']''" p "''REDACTED''"] h by blast
    then have "sublist p redis_prefix \<or> sublist p (CHR ''@'' # v)" using step [of "CHR ''@''" v] unfolding Match(1) by auto
    then show ?thesis unfolding Match(1) by (meson sublist_append_leftI sublist_append_rightI sublist_order.order_trans sublist_order.order_refl)
  next
    case (Skip c t')
    then show ?thesis using step less.prems(2) by simp
  qed (use less.prems in simp)
qed

lemma scrub_text_hides: "p \<in> set (secrets c) \<Longrightarrow> hidden p \<Longrightarrow> \<not> sublist p (scrub_text c t)"
  using sublist_redact_redis scrub_fold [OF hidden_foreign, of p t "secrets c"]
  unfolding scrub_text_def scrub_for_error_def by blast

lemma scrub_value_hides: "p \<in> set (secrets c) \<Longrightarrow> hidden p \<Longrightarrow> t \<in> set (texts_of (scrub_value c v)) \<Longrightarrow> \<not> sublist p t"
  by (induction c v rule: scrub_value.induct) (auto simp: scrub_text_hides, blast)

text \<open>
  C28. No text of a redacted log event holds a credential, however deep it is nested: for every credential without
  square brackets that is not a part of the word of the marker, at any depth of dictionaries, lists and tuples, and
  also after the rewriting of Redis addresses, which could have put the ends of two texts together.
\<close>

theorem redacted_events_hold_no_credentials:
  assumes "s \<in> set (secrets c)" and "s \<noteq> []" and "CHR ''['' \<notin> set s" and "CHR '']'' \<notin> set s" and "\<not> sublist s ''REDACTED''"
    and "(k, v) \<in> set (redact_credentials c event)" and "t \<in> set (texts_of v)"
  shows "\<not> sublist s t"
  using scrub_value_hides [OF assms(1), of t] assms(2-) by (auto simp: redact_credentials_def hidden_def)

theorem redacted_events_hold_no_credentials_witness:
  "\<exists>t. texts_of (snd (redact_credentials \<lparr>kucoin_api_key = [], kucoin_api_secret = [], kucoin_api_passphrase = [],
        bybit_api_key = ''k3y'', bybit_api_secret = []\<rparr> [(''exc'', LList [LText ''at k3y''])] ! 0)) = [t] \<and> \<not> sublist ''k3y'' t"
proof -
  let ?c = "\<lparr>kucoin_api_key = [], kucoin_api_secret = [], kucoin_api_passphrase = [], bybit_api_key = ''k3y'', bybit_api_secret = []\<rparr>"
  define t where "t = scrub_text ?c ''at k3y''"
  have e: "redact_credentials ?c [(''exc'', LList [LText ''at k3y''])] = [(''exc'', LList [LText t])]"
    by (simp add: redact_credentials_def t_def)
  have "\<not> sublist ''k3y'' t"
    by (rule redacted_events_hold_no_credentials [of _ ?c "''exc''" "LList [LText t]" "[(''exc'', LList [LText ''at k3y''])]"])
      (simp_all add: secrets_def e sublist_Cons_right)
  then show ?thesis unfolding e by simp
qed

end
