(* ===== verification/Json_Parse.thy ===== *)
theory Json_Parse
  imports Json
begin

text \<open>
  Reading and pretty-printing of JSON as the dashboard uses it for its files: \<open>json.loads\<close> and
  \<open>json.dumps(j, indent=2, ensure_ascii=False)\<close>, and the proof that reading undoes printing for values without numbers.
  An escape of a character outside the range of \<open>char\<close> counts as unreadable.
\<close>

section \<open>Printing\<close>

definition raw_char :: "char \<Rightarrow> string" where
  "raw_char c = (if 126 < (of_char c :: nat) then [c] else json_char c)"

definition raw_quote :: "string \<Rightarrow> string" where
  "raw_quote s = [char_of (34::nat)] @ concat (map raw_char s) @ [char_of (34::nat)]"

definition new_line :: "nat \<Rightarrow> string" where
  "new_line n = char_of (10::nat) # replicate (2 * n) (CHR '' '')"

fun json_pretty :: "(f64 \<Rightarrow> string) \<Rightarrow> nat \<Rightarrow> json \<Rightarrow> string" where
  "json_pretty fr n JNull = ''null''"
| "json_pretty fr n (JBool b) = (if b then ''true'' else ''false'')"
| "json_pretty fr n (JInt i) = int_str i"
| "json_pretty fr n (JFloat x) = fr x"
| "json_pretty fr n (JStr s) = raw_quote s"
| "json_pretty fr n (JList xs) =
     (if xs = [] then ''[]''
      else CHR ''['' # new_line (Suc n) @ join (CHR '','' # new_line (Suc n)) (map (json_pretty fr (Suc n)) xs) @
        new_line n @ '']'')"
| "json_pretty fr n (JObj d) =
     (if d = [] then ''{}''
      else CHR ''{'' # new_line (Suc n) @
        join (CHR '','' # new_line (Suc n)) (map (\<lambda>(k, v). raw_quote k @ '': '' @ json_pretty fr (Suc n) v) d) @
        new_line n @ ''}'')"

section \<open>Reading\<close>

definition json_space :: "char \<Rightarrow> bool" where
  "json_space c = ((of_char c :: nat) \<in> {9, 10, 13, 32})"

definition skip_ws :: "string \<Rightarrow> string" where
  "skip_ws s = dropWhile json_space s"

definition hex_val :: "char \<Rightarrow> nat option" where
  "hex_val c =
     (let n = of_char c in
      if 48 \<le> n \<and> n \<le> 57 then Some (n - 48) else if 97 \<le> n \<and> n \<le> 102 then Some (n - 87)
      else if 65 \<le> n \<and> n \<le> 70 then Some (n - 55) else None)"

definition hex4 :: "char \<Rightarrow> char \<Rightarrow> char \<Rightarrow> char \<Rightarrow> char option" where
  "hex4 a b c d =
     (case (hex_val a, hex_val b, hex_val c, hex_val d) of
        (Some x, Some y, Some z, Some w) \<Rightarrow>
          (let n = ((x * 16 + y) * 16 + z) * 16 + w in if n < 256 then Some (char_of n) else None)
      | _ \<Rightarrow> None)"

text \<open>The escapes of one character, by code: quotation mark, backslash, slash, \<open>b\<close>, \<open>f\<close>, \<open>n\<close>, \<open>r\<close> and \<open>t\<close>.\<close>

definition escape_char :: "char \<Rightarrow> char option" where
  "escape_char c = map_option char_of (map_of
     [(34, 34), (92, 92), (47, 47), (98, 8), (102, 12), (110, 10), (114, 13), (116, 9 :: nat)] (of_char c :: nat))"

text \<open>The text after an opening quotation mark, and what follows the closing one.\<close>

fun scan_string :: "string \<Rightarrow> (string \<times> string) option" where
  "scan_string [] = None"
| "scan_string (c # cs) =
     (if (of_char c :: nat) = 34 then Some ([], cs)
      else if (of_char c :: nat) = 92 then
        (case cs of
           [] \<Rightarrow> None
         | e # r \<Rightarrow>
             if e = CHR ''u'' then
               (case r of
                  h1 # h2 # h3 # h4 # r1 \<Rightarrow>
                    (case hex4 h1 h2 h3 h4 of None \<Rightarrow> None | Some x \<Rightarrow> map_option (\<lambda>(t, u). (x # t, u)) (scan_string r1))
                | _ \<Rightarrow> None)
             else (case escape_char e of None \<Rightarrow> None | Some x \<Rightarrow> map_option (\<lambda>(t, u). (x # t, u)) (scan_string r)))
      else if (of_char c :: nat) < 32 then None
      else map_option (\<lambda>(t, u). (c # t, u)) (scan_string cs))"

text \<open>\<open>(-?(?:0|[1-9]\d*))(\.\d+)?([eE][-+]?\d+)?\<close>\<close>

definition fraction_part :: "string \<Rightarrow> string" where
  "fraction_part s =
     (case s of c # cs \<Rightarrow> if c = CHR ''.'' \<and> takeWhile is_digit cs \<noteq> [] then c # takeWhile is_digit cs else [] | [] \<Rightarrow> [])"

definition exponent_part :: "string \<Rightarrow> string" where
  "exponent_part s =
     (case s of
        c # cs \<Rightarrow>
          (let sg = (if cs \<noteq> [] \<and> hd cs \<in> {CHR ''+'', CHR ''-''} then [hd cs] else []);
               ds = takeWhile is_digit (drop (length sg) cs) in
           if c \<in> {CHR ''e'', CHR ''E''} \<and> ds \<noteq> [] then c # sg @ ds else [])
      | [] \<Rightarrow> [])"

definition scan_number :: "string \<Rightarrow> (json \<times> string) option" where
  "scan_number s =
     (let sg = (if s \<noteq> [] \<and> hd s = CHR ''-'' then ''-'' else []); t = drop (length sg) s;
          whole = (if t \<noteq> [] \<and> hd t = CHR ''0'' then ''0'' else takeWhile is_digit t);
          f = fraction_part (drop (length whole) t); e = exponent_part (drop (length whole + length f) t);
          rest = drop (length whole + length f + length e) t in
      if whole = [] then None
      else if f = [] \<and> e = [] then map_option (\<lambda>i. (JInt i, rest)) (py_int (sg @ whole))
      else map_option (\<lambda>x. (JFloat x, rest)) (py_float (sg @ whole @ f @ e)))"

definition scan_word :: "string \<Rightarrow> (json \<times> string) option" where
  "scan_word s =
     (case filter (\<lambda>(w, j). starts_with w s)
        [(''null'', JNull), (''true'', JBool True), (''false'', JBool False), (''NaN'', JFloat NaN),
         (''Infinity'', JFloat PInf), (''-Infinity'', JFloat NInf)] of
        (w, j) # _ \<Rightarrow> Some (j, drop (length w) s)
      | [] \<Rightarrow> None)"

text \<open>Items up to the closing character, commas between them; \<open>p\<close> reads one item.\<close>

fun parse_items :: "char \<Rightarrow> (string \<Rightarrow> ('a \<times> string) option) \<Rightarrow> nat \<Rightarrow> string \<Rightarrow> ('a list \<times> string) option" where
  "parse_items close p 0 s = None"
| "parse_items close p (Suc m) s =
     (case p s of
        None \<Rightarrow> None
      | Some (v, r) \<Rightarrow>
          (case skip_ws r of
             [] \<Rightarrow> None
           | c # r1 \<Rightarrow>
               if c = close then Some ([v], r1)
               else if c = CHR '','' then map_option (\<lambda>(vs, u). (v # vs, u)) (parse_items close p m (skip_ws r1))
               else None))"

definition parse_member :: "(string \<Rightarrow> (json \<times> string) option) \<Rightarrow> string \<Rightarrow> ((string \<times> json) \<times> string) option" where
  "parse_member p s =
     (case s of
        [] \<Rightarrow> None
      | q # cs \<Rightarrow>
          if (of_char q :: nat) \<noteq> 34 then None
          else (case scan_string cs of
             None \<Rightarrow> None
           | Some (k, r) \<Rightarrow>
               (case skip_ws r of
                  [] \<Rightarrow> None
                | c # r1 \<Rightarrow> if c \<noteq> CHR '':'' then None else map_option (\<lambda>(v, u). ((k, v), u)) (p (skip_ws r1)))))"

definition dict_of :: "(string \<times> json) list \<Rightarrow> (string \<times> json) list" where
  "dict_of kvs = fold (\<lambda>(k, v) d. dset k v d) kvs []"

text \<open>The first argument bounds the depth of recursion; the length of the text is always enough.\<close>

primrec parse_value :: "nat \<Rightarrow> string \<Rightarrow> (json \<times> string) option" where
  "parse_value 0 s = None"
| "parse_value (Suc n) s =
     (case s of
        [] \<Rightarrow> None
      | c # cs \<Rightarrow>
          if (of_char c :: nat) = 34 then map_option (\<lambda>(t, u). (JStr t, u)) (scan_string cs)
          else if c = CHR ''{'' then
            (let r = skip_ws cs in
             if r \<noteq> [] \<and> hd r = CHR ''}'' then Some (JObj [], tl r)
             else map_option (\<lambda>(kvs, u). (JObj (dict_of kvs), u)) (parse_items (CHR ''}'') (parse_member (parse_value n)) n r))
          else if c = CHR ''['' then
            (let r = skip_ws cs in
             if r \<noteq> [] \<and> hd r = CHR '']'' then Some (JList [], tl r)
             else map_option (\<lambda>(vs, u). (JList vs, u)) (parse_items (CHR '']'') (parse_value n) n r))
          else (case scan_word s of None \<Rightarrow> scan_number s | Some x \<Rightarrow> Some x))"

definition json_loads :: "string \<Rightarrow> json option" where
  "json_loads s =
     (case parse_value (length s) (skip_ws s) of
        Some (j, r) \<Rightarrow> if skip_ws r = [] then Some j else None
      | None \<Rightarrow> None)"

section \<open>Reading undoes printing\<close>

text \<open>Values without numbers whose objects have distinct keys.\<close>

fun no_numbers :: "json \<Rightarrow> bool" where
  "no_numbers JNull = True"
| "no_numbers (JBool b) = True"
| "no_numbers (JInt i) = False"
| "no_numbers (JFloat x) = False"
| "no_numbers (JStr s) = True"
| "no_numbers (JList xs) = list_all no_numbers xs"
| "no_numbers (JObj d) = (distinct (map fst d) \<and> list_all (\<lambda>(k, v). no_numbers v) d)"

lemma dict_of_id: "distinct (map fst kvs) \<Longrightarrow> dict_of kvs = kvs"
proof (induction kvs rule: rev_induct)
  case (snoc kv kvs)
  have "dset k v d = d @ [(k, v)]" if "k \<notin> fst ` set d" for k v and d :: "(string \<times> json) list"
    using that by (induction k v d rule: dset.induct) auto
  then show ?case using snoc by (cases kv) (auto simp: dict_of_def)
qed (simp add: dict_of_def)

lemma hex_val_digit: "n < 16 \<Longrightarrow> hex_val (hex_digit n) = Some n"
  by (simp add: hex_val_def hex_digit_def Let_def of_char_of take_bit_eq_mod)

lemma of_char_lt: "(of_char (c::char) :: nat) < 256"
  by (metis of_char_mod_256 mod_less_divisor zero_less_numeral)

lemma hex4_back: "(of_char c :: nat) < 32 \<Longrightarrow> hex4 (CHR ''0'') (CHR ''0'') (hex_digit (of_char c div 16)) (hex_digit (of_char c mod 16)) = Some c"
proof -
  assume c: "(of_char c :: nat) < 32"
  have z: "hex_val (CHR ''0'') = Some 0" by (simp add: hex_val_def)
  have "hex_val (hex_digit (of_char c div 16)) = Some (of_char c div 16)" by (rule hex_val_digit) (use c in simp)
  moreover have "hex_val (hex_digit (of_char c mod 16)) = Some (of_char c mod 16)" by (rule hex_val_digit) simp
  moreover have "(of_char c div 16) * 16 + of_char c mod 16 = (of_char c :: nat)" by simp
  ultimately show ?thesis using of_char_lt [of c] by (simp add: hex4_def z Let_def)
qed


lemma code_92: "(of_char (char_of (92::nat)) :: nat) = 92"
  by simp

lemma scan_escape:
  assumes "escape_char e = Some x"
  shows "scan_string (char_of (92::nat) # e # s) = map_option (\<lambda>(t, u). (x # t, u)) (scan_string s)"
proof -
  have "e \<noteq> CHR ''u''" using assms by (auto simp: escape_char_def)
  then show ?thesis using assms code_92 by (simp del: of_char_of)
qed

lemma scan_hex:
  "hex4 a b c d = Some x \<Longrightarrow>
    scan_string (char_of (92::nat) # CHR ''u'' # a # b # c # d # s) = map_option (\<lambda>(t, u). (x # t, u)) (scan_string s)"
  using code_92 by (simp del: of_char_of)

lemma char_of_code: "(of_char c :: nat) = n \<Longrightarrow> char_of n = c"
  by auto

lemma scan_raw_char: "scan_string (raw_char c @ s) = map_option (\<lambda>(t, u). (c # t, u)) (scan_string s)"
proof -
  consider "(of_char c :: nat) \<in> {34, 92, 10, 13, 9, 8, 12}" | "(of_char c :: nat) < 32" "(of_char c :: nat) \<notin> {34, 92, 10, 13, 9, 8, 12}"
    | "32 \<le> (of_char c :: nat)" "(of_char c :: nat) \<noteq> 34" "(of_char c :: nat) \<noteq> 92"
    by force
  then show ?thesis
  proof cases
    case 1
    then obtain e where "raw_char c = [char_of (92::nat), e]" "escape_char e = Some c"
    proof -
      have "\<exists>e. raw_char c = [char_of (92::nat), e] \<and> escape_char e = Some c"
        using 1 by (elim insertE emptyE; simp add: raw_char_def json_char_def Let_def escape_char_def char_of_code)
      then show thesis using that by blast
    qed
    then show ?thesis using scan_escape by simp
  next
    case 2
    then have "raw_char c = [char_of (92::nat), CHR ''u'', CHR ''0'', CHR ''0'', hex_digit (of_char c div 16), hex_digit (of_char c mod 16)]"
      by (simp add: raw_char_def json_char_def Let_def)
    then show ?thesis using scan_hex [OF hex4_back [OF 2(1)]] by simp
  next
    case 3
    then have "raw_char c = [c]" by (auto simp: raw_char_def json_char_def Let_def)
    then show ?thesis using 3 by simp
  qed
qed

lemma scan_raw_quote: "scan_string (concat (map raw_char t) @ char_of (34::nat) # s) = Some (t, s)"
  by (induction t) (simp_all add: scan_raw_char)

lemma skip_ws_simps [simp]:
  "skip_ws (new_line n @ s) = skip_ws s" "skip_ws (CHR '' '' # s) = skip_ws s"
  by (simp_all add: skip_ws_def new_line_def json_space_def dropWhile_append2 dropWhile_append3 dropWhile_append)

lemma skip_ws_close [simp]: "\<not> json_space c \<Longrightarrow> skip_ws (c # s) = c # s"
  by (simp add: skip_ws_def)

definition starts_item :: "string \<Rightarrow> bool" where
  "starts_item t = (case t of c # _ \<Rightarrow> (of_char c :: nat) \<notin> {9, 10, 13, 32, 93, 125} | [] \<Rightarrow> False)"

lemma starts_item_skip: "starts_item t \<Longrightarrow> skip_ws (t @ s) = t @ s"
  by (cases t) (simp_all add: starts_item_def json_space_def)

lemma space_codes [simp]: "\<not> json_space (CHR '','')" "\<not> json_space (CHR '']'')" "\<not> json_space (CHR ''}'')" "\<not> json_space (CHR '':'')"
  by (simp_all add: json_space_def)

lemma parse_items_join:
  assumes "\<And>x r. x \<in> set xs \<Longrightarrow> p (f x @ r) = Some (x, r)" and "\<And>x. x \<in> set xs \<Longrightarrow> starts_item (f x)"
    and "xs \<noteq> []" and "length xs \<le> m" and "\<not> json_space close" and "close \<noteq> CHR '',''"
  shows "parse_items close p m (join (CHR '','' # new_line a) (map f xs) @ new_line b @ close # r) = Some (xs, r)"
  using assms
proof (induction xs arbitrary: m)
  case (Cons x xs)
  then obtain m' where m: "m = Suc m'" by (cases m) auto
  show ?case
  proof (cases xs)
    case Nil
    then show ?thesis using Cons.prems by (simp add: m)
  next
    case (Cons y ys)
    have "skip_ws (join (CHR '','' # new_line a) (map f xs) @ s) = join (CHR '','' # new_line a) (map f xs) @ s" for s
      using Cons.prems(2) [of y] starts_item_skip [of "f y"] by (cases ys) (simp_all add: Cons)
    moreover have "parse_items close p m' (join (CHR '','' # new_line a) (map f xs) @ new_line b @ close # r) = Some (xs, r)"
      using Cons.IH [of m'] Cons.prems Cons m by simp
    ultimately show ?thesis using Cons.prems by (simp add: m Cons)
  qed
qed simp

lemma join_bounds:
  assumes "\<And>x. x \<in> set xs \<Longrightarrow> f x \<noteq> []"
  shows "length xs \<le> length (join sep (map f xs))" "x \<in> set xs \<Longrightarrow> length (f x) \<le> length (join sep (map f xs))"
proof -
  have "length xs \<le> length (join sep (map f xs)) \<and> (\<forall>x\<in>set xs. length (f x) \<le> length (join sep (map f xs)))"
    using assms
  proof (induction xs)
    case (Cons y ys)
    then have "0 < length (f y)" by simp
    then show ?case using Cons by (cases ys) (auto simp del: length_greater_0_conv)
  qed simp
  then show "length xs \<le> length (join sep (map f xs))" "x \<in> set xs \<Longrightarrow> length (f x) \<le> length (join sep (map f xs))" by auto
qed

lemma quote_code: "(of_char (char_of (34::nat)) :: nat) = 34"
  by simp

lemma starts_quote: "starts_item (raw_quote s @ t)"
  by (simp add: starts_item_def raw_quote_def json_space_def)

lemma starts_pretty: "no_numbers j \<Longrightarrow> starts_item (json_pretty fr n j)"
proof (cases j)
  case (JStr s)
  then show ?thesis using starts_quote [of s "[]"] by simp
qed (auto simp: starts_item_def json_space_def)

lemma starts_nonempty: "starts_item t \<Longrightarrow> t \<noteq> []"
  by (auto simp: starts_item_def)

lemma parse_member_text:
  assumes "\<And>r. p (t @ r) = Some (v, r)" and "starts_item t"
  shows "parse_member p (raw_quote k @ '': '' @ t @ r) = Some ((k, v), r)"
  using assms(1) starts_item_skip [OF assms(2), of r] quote_code
  by (simp add: parse_member_def raw_quote_def scan_raw_quote del: of_char_of)

lemma parse_words:
  "parse_value (Suc n) (''null'' @ r) = Some (JNull, r)" "parse_value (Suc n) (''true'' @ r) = Some (JBool True, r)"
  "parse_value (Suc n) (''false'' @ r) = Some (JBool False, r)"
  by (simp_all add: scan_word_def starts_with_def)

lemma parse_string: "parse_value (Suc n) (raw_quote s @ r) = Some (JStr s, r)"
  using quote_code by (simp add: raw_quote_def scan_raw_quote del: of_char_of)

lemma parse_list:
  assumes "xs \<noteq> []" and "\<And>x r. x \<in> set xs \<Longrightarrow> parse_value n (f x @ r) = Some (x, r)" and "\<And>x. x \<in> set xs \<Longrightarrow> starts_item (f x)"
    and "length xs \<le> n"
  shows "parse_value (Suc n) (CHR ''['' # new_line a @ join (CHR '','' # new_line a) (map f xs) @ new_line b @ '']'' @ r) = Some (JList xs, r)"
proof -
  let ?t = "join (CHR '','' # new_line a) (map f xs)"
  obtain y ys where "xs = y # ys" using assms(1) by (cases xs) auto
  then obtain s where s: "?t = f y @ s" "starts_item (f y)" using assms(3) by (cases ys) auto
  then have w: "skip_ws (?t @ u) = ?t @ u" "?t @ u \<noteq> []" "hd (?t @ u) \<noteq> CHR '']''" for u
    using starts_item_skip [of "f y"] by (auto simp: starts_item_def split: list.splits)
  show ?thesis
    using parse_items_join [of xs "parse_value n" f n "CHR '']''" a b r] assms w by (simp add: Let_def)
qed

lemma parse_object:
  assumes "d \<noteq> []" and "\<And>kv r. kv \<in> set d \<Longrightarrow> parse_member (parse_value n) (f kv @ r) = Some (kv, r)" and "\<And>kv. kv \<in> set d \<Longrightarrow> starts_item (f kv)"
    and "length d \<le> n" and "distinct (map fst d)"
  shows "parse_value (Suc n) (CHR ''{'' # new_line a @ join (CHR '','' # new_line a) (map f d) @ new_line b @ ''}'' @ r) = Some (JObj d, r)"
proof -
  let ?t = "join (CHR '','' # new_line a) (map f d)"
  obtain y ys where "d = y # ys" using assms(1) by (cases d) auto
  then obtain s where s: "?t = f y @ s" "starts_item (f y)" using assms(3) by (cases ys) auto
  then have w: "skip_ws (?t @ u) = ?t @ u" "?t @ u \<noteq> []" "hd (?t @ u) \<noteq> CHR ''}''" for u
    using starts_item_skip [of "f y"] by (auto simp: starts_item_def split: list.splits)
  show ?thesis
    using parse_items_join [of d "parse_member (parse_value n)" f n "CHR ''}''" a b r] assms w dict_of_id by (simp add: Let_def)
qed

lemma parse_pretty:
  "no_numbers j \<Longrightarrow> length (json_pretty fr i j) \<le> n \<Longrightarrow> parse_value n (json_pretty fr i j @ r) = Some (j, r)"
proof (induction j arbitrary: i n r)
  case (JList xs)
  obtain m where m: "n = Suc m" using JList.prems(2) by (cases n; cases "xs = []") auto
  show ?case
  proof (cases "xs = []")
    case False
    have plain: "no_numbers x" if "x \<in> set xs" for x using JList.prems(1) that by (simp add: list_all_iff)
    note ne = starts_nonempty [OF starts_pretty [OF plain]]
    have len: "length (join (CHR '','' # new_line (Suc i)) (map (json_pretty fr (Suc i)) xs)) \<le> m"
      using JList.prems(2) False by (simp add: m)
    have "parse_value m (json_pretty fr (Suc i) x @ u) = Some (x, u)" if "x \<in> set xs" for x u
      using JList.IH [OF that plain [OF that], of "Suc i" m u] join_bounds(2) [of xs "json_pretty fr (Suc i)" x "CHR '','' # new_line (Suc i)", OF ne] that len by simp
    moreover have "length xs \<le> m" using join_bounds(1) [of xs "json_pretty fr (Suc i)" "CHR '','' # new_line (Suc i)", OF ne] len by simp
    ultimately show ?thesis
      using parse_list [OF False, of m "json_pretty fr (Suc i)" "Suc i" i r] starts_pretty [OF plain] by (simp add: m False)
  qed (simp add: m)
next
  case (JObj d)
  obtain m where m: "n = Suc m" using JObj.prems(2) by (cases n; cases "d = []") auto
  show ?case
  proof (cases "d = []")
    case False
    define f where "f = (\<lambda>(k, v). raw_quote k @ '': '' @ json_pretty fr (Suc i) v)"
    have plain: "no_numbers (snd kv)" if "kv \<in> set d" for kv using JObj.prems(1) that by (auto simp: list_all_iff)
    have st: "starts_item (f kv)" for kv by (cases kv) (simp add: f_def starts_quote)
    note ne = starts_nonempty [OF st]
    have len: "length (join (CHR '','' # new_line (Suc i)) (map f d)) \<le> m"
      using JObj.prems(2) False by (simp add: m f_def)
    have "parse_member (parse_value m) (f kv @ u) = Some (kv, u)" if "kv \<in> set d" for kv u
    proof -
      obtain k v where kv: "kv = (k, v)" by (cases kv)
      have "length (json_pretty fr (Suc i) v) \<le> m"
        using join_bounds(2) [of d f kv "CHR '','' # new_line (Suc i)", OF ne that] len by (simp add: kv f_def)
      then have "parse_value m (json_pretty fr (Suc i) v @ u') = Some (v, u')" for u'
        using JObj.IH [of kv v "Suc i" m u'] that plain [OF that] by (simp add: kv)
      then show ?thesis using parse_member_text [of "parse_value m"] starts_pretty plain [OF that] by (simp add: kv f_def)
    qed
    moreover have "length d \<le> m" using join_bounds(1) [of d f "CHR '','' # new_line (Suc i)", OF ne] len by simp
    ultimately show ?thesis
      using parse_object [OF False, of m f "Suc i" i r] st JObj.prems(1) by (simp add: m False f_def)
  qed (simp add: m)
next
  case (JStr s)
  then show ?case using parse_string [of "n - 1" s r] by (cases n) (simp_all add: raw_quote_def)
next
  case JNull
  then show ?case using parse_words(1) [of "n - 1" r] by (cases n) simp_all
next
  case (JBool b)
  then show ?case using parse_words(2,3) [of "n - 1" r] by (cases n; cases b) simp_all
qed simp_all

lemma loads_pretty: "no_numbers j \<Longrightarrow> json_loads (json_pretty fr 0 j) = Some j"
  using parse_pretty [of j fr 0 "length (json_pretty fr 0 j)" "[]"] starts_item_skip [OF starts_pretty, of j fr 0 "[]"]
  by (simp add: json_loads_def skip_ws_def)

end
