(* ===== verification/Dash_Profiles.thy ===== *)
theory Dash_Profiles
  imports Json_Parse "HOL-Library.Sublist"
begin

text \<open>
  The profiles of the dashboard: the callbacks of \<open>dashboard/callbacks_profiles.py\<close>, the defaults of
  \<open>dashboard/layout_profiles.py\<close> and the file of \<open>dashboard/profile_storage.py\<close>. The store of the browser is \<open>None\<close> or
  a JSON object; a callback that raises leaves the page as it is. A name that is not text counts as an error.
\<close>

section \<open>Fields and defaults\<close>

definition field_groups :: "(string \<times> string list) list" where
  "field_groups =
     [(''OHLCV'',
        [''open'', ''high'', ''low'', ''close'', ''volume'', ''quote_volume'', ''trade_count'', ''twap'']),
      (''Mid-price'',
        [''mid_price_open'', ''mid_price_high'', ''mid_price_low'', ''vwmp'']),
      (''Spread'',
        [''spread_high'', ''spread_low'', ''spread_mean'', ''effective_spread'']),
      (''OB Best Quotes'',
        [''best_bid_open'', ''best_ask_open'', ''best_bid'', ''best_ask'']),
      (''Trade Flow'',
        [''buy_volume'', ''sell_volume'', ''buy_count'', ''block_buy_volume'', ''block_sell_volume'']),
      (''Trade Distribution'',
        [''max_trade_size'', ''large_bid_orders'', ''large_ask_orders'', ''first_trade_offset_ms'',
         ''last_trade_offset_ms'', ''trade_clustering'', ''max_consecutive_run'']),
      (''Volatility'',
        [''realized_vol'', ''realized_skewness'', ''uptick_count'', ''downtick_count'']),
      (''OFI'',
        [''ofi'', ''ofi_l1'']),
      (''CVD'',
        [''cum_delta'', ''cvd_divergence'']),
      (''OB Activity'',
        [''bid_order_arrivals'', ''ask_order_arrivals'', ''bid_cancel_count'', ''ask_cancel_count'',
         ''ob_modify_count'', ''avg_bid_order_size'', ''avg_ask_order_size'', ''best_bid_changes'',
         ''best_ask_changes'', ''quote_stuff_ratio'']),
      (''Microstructure Signals'',
        [''hawkes_intensity'', ''microprice'', ''microprice_mid_delta'', ''cancel_bias'',
         ''trade_aggressiveness'', ''trade_sign_autocorr'', ''inter_trade_interval_std_ms'',
         ''num_trade_price_levels'']),
      (''Footprint'',
        [''poc_price'', ''value_area_high'', ''value_area_low'', ''poc_volume'', ''imbalance_ratio'',
         ''imbalance_buy_count'', ''imbalance_sell_count'', ''imbalance_stack_buy'', ''imbalance_stack_sell'',
         ''single_print_count'', ''unfinished_top'', ''unfinished_bottom'', ''absorption_detected'',
         ''footprint_delta_divergence'']),
      (''Iceberg'',
        [''iceberg_bid_detected'', ''iceberg_ask_detected'', ''iceberg_price'']),
      (''VWAP Deviation'',
        [''buy_vwap_deviation_bps'', ''sell_vwap_deviation_bps'']),
      (''Quality'',
        [''is_partial'', ''gap_count'', ''bar_count''])]"

definition fields_json :: "string list \<Rightarrow> json" where
  "fields_json fs = JObj [(''fields'', JList (map JStr fs))]"

definition default_fields :: "string list" where
  "default_fields =
     [''open'', ''high'', ''low'', ''close'', ''volume'', ''buy_volume'', ''sell_volume'', ''trade_count'',
      ''realized_vol'', ''cum_delta'', ''imbalance_ratio'']"

definition default_profiles :: "(string, json) dict" where
  "default_profiles =
     [(''profiles'', JObj
        [(''Default'', fields_json default_fields),
         (''Order Flow'', fields_json
           [''ofi'', ''ofi_l1'', ''cum_delta'', ''cvd_divergence'', ''buy_volume'', ''sell_volume'',
        ''imbalance_ratio'', ''bid_order_arrivals'', ''ask_order_arrivals'', ''bid_cancel_count'',
        ''ask_cancel_count'']),
         (''Microstructure'', fields_json
           [''hawkes_intensity'', ''microprice'', ''microprice_mid_delta'', ''cancel_bias'',
        ''trade_aggressiveness'', ''trade_sign_autocorr'', ''inter_trade_interval_std_ms'', ''realized_vol'',
        ''realized_skewness''])]),
      (''active'', JStr ''Default'')]"

type_synonym store = "(string, json) dict option"

text \<open>\<open>store_data or DEFAULT_PROFILES\<close>\<close>

definition or_default :: "store \<Rightarrow> (string, json) dict" where
  "or_default st = (case st of None \<Rightarrow> default_profiles | Some d \<Rightarrow> if d = [] then default_profiles else d)"

section \<open>The file\<close>

text \<open>Contents of the file and of the temporary file beside it, and whether the file can be read.\<close>

record disk =
  dk_file :: "string option"
  dk_tmp :: "string option"
  dk_readable :: bool

text \<open>
  How the three operations of a save end: the directory is made, the text is written (or only so many characters of
  it), the temporary file replaces the file.
\<close>

record save_io =
  io_mkdir :: bool
  io_cut :: "nat option"
  io_replace :: bool

definition profile_load :: "disk \<Rightarrow> (string, json) dict option" where
  "profile_load k =
     (case dk_file k of
        None \<Rightarrow> None
      | Some t \<Rightarrow>
          if \<not> dk_readable k then None else (case json_loads t of Some (JObj d) \<Rightarrow> Some d | _ \<Rightarrow> None))"

definition profile_save :: "(f64 \<Rightarrow> string) \<Rightarrow> save_io \<Rightarrow> (string, json) dict \<Rightarrow> disk \<Rightarrow> bool \<times> disk" where
  "profile_save fr io data k =
     (let text = json_pretty fr 0 (JObj data) in
      if \<not> io_mkdir io then (False, k)
      else case io_cut io of
        Some n \<Rightarrow> (False, k\<lparr>dk_tmp := Some (take n text)\<rparr>)
      | None \<Rightarrow>
          if \<not> io_replace io then (False, k\<lparr>dk_tmp := Some text\<rparr>)
          else (True, k\<lparr>dk_file := Some text, dk_tmp := None\<rparr>))"

section \<open>The callbacks\<close>

definition as_object :: "json \<Rightarrow> (string, json) dict res" where
  "as_object j = (case j of JObj d \<Rightarrow> Inr d | _ \<Rightarrow> Inl TypeError)"

definition as_name :: "json \<Rightarrow> string res" where
  "as_name j = (case j of JStr s \<Rightarrow> Inr s | _ \<Rightarrow> Inl OtherError)"

text \<open>\<open>name in j\<close> and \<open>len(j)\<close>\<close>

definition jcontains :: "string \<Rightarrow> json \<Rightarrow> bool res" where
  "jcontains name j =
     (case j of
        JObj d \<Rightarrow> Inr (name \<in> set (dkeys d))
      | JList xs \<Rightarrow> Inr (JStr name \<in> set xs)
      | JStr s \<Rightarrow> Inr (sublist name s)
      | _ \<Rightarrow> Inl TypeError)"

definition jlen :: "json \<Rightarrow> nat res" where
  "jlen j = (case j of JObj d \<Rightarrow> Inr (length d) | JList xs \<Rightarrow> Inr (length xs) | JStr s \<Rightarrow> Inr (length s) | _ \<Rightarrow> Inl TypeError)"

text \<open>The names of the dropdown and its value.\<close>

definition sync_profile_dropdown :: "store \<Rightarrow> (string list \<times> json) res" where
  "sync_profile_dropdown st =
     (let data = or_default st in
      case dget data ''profiles'' (JObj []) of
        JObj ps \<Rightarrow> Inr (dkeys ps, dget data ''active'' (JStr (if ps = [] then [] else fst (hd ps))))
      | _ \<Rightarrow> Inl OtherError)"

text \<open>The ticked boxes of every group. An element that cannot be hashed makes the set fail.\<close>

definition load_profile_fields :: "json \<Rightarrow> store \<Rightarrow> string list list res" where
  "load_profile_fields active st =
     rbind (if jtruthy active then as_name active else Inr []) (\<lambda>name.
     rbind (jget (dget (or_default st) ''profiles'' (JObj [])) name (JObj [])) (\<lambda>p.
     rbind (jget p ''fields'' (JList [])) (\<lambda>fs.
     rbind (jiter fs) (\<lambda>selected.
       if list_ex (\<lambda>f. case f of JList _ \<Rightarrow> True | JObj _ \<Rightarrow> True | _ \<Rightarrow> False) selected then Inl TypeError
       else Inr (map (\<lambda>(_, fields). filter (\<lambda>f. JStr f \<in> set selected) fields) field_groups)))))"

text \<open>An anonymous result \<open>None\<close> stands for \<open>no_update\<close>.\<close>

definition save_profile :: "nat \<Rightarrow> json \<Rightarrow> string list list \<Rightarrow> store \<Rightarrow> store res" where
  "save_profile n_clicks active all_values st =
     (if n_clicks = 0 \<or> \<not> jtruthy active then Inr None
      else rbind (as_name active) (\<lambda>name.
        let selected = concat all_values; data0 = or_default st;
            data = (if ''profiles'' \<in> set (dkeys data0) then data0 else dset ''profiles'' (JObj []) data0) in
        rbind (as_object (dget data ''profiles'' JNull)) (\<lambda>ps0.
        let ps = (if name \<in> set (dkeys ps0) then ps0 else dset name (JObj []) ps0) in
        rbind (as_object (dget ps name JNull)) (\<lambda>p.
          Inr (Some (dset ''active'' (JStr name)
            (dset ''profiles'' (JObj (dset name (JObj (dset ''fields'' (JList (map JStr selected)) p)) ps)) data)))))))"

text \<open>The new store with its names and its value, or a message that nothing changed.\<close>

type_synonym outcome = "((string, json) dict \<times> string list \<times> string) + string option"

definition create_profile :: "nat \<Rightarrow> string \<Rightarrow> store \<Rightarrow> outcome res" where
  "create_profile n_clicks new_name st =
     (if n_clicks = 0 then Inr (Inr None)
      else let name = strip new_name in
        if name = [] then Inr (Inr (Some ''Enter a profile name''))
        else
          let data0 = or_default st;
              data = (if ''profiles'' \<in> set (dkeys data0) then data0 else dset ''profiles'' (JObj []) data0);
              profiles = dget data ''profiles'' JNull in
          rbind (jcontains name profiles) (\<lambda>present.
            if present then Inr (Inr (Some ((CHR 0x27 # name @ [CHR 0x27]) @ '' already exists'')))
            else rbind (as_object profiles) (\<lambda>ps.
              let ps1 = dset name (JObj [(''fields'', JList [])]) ps in
              Inr (Inl (dset ''active'' (JStr name) (dset ''profiles'' (JObj ps1) data), dkeys ps1, name)))))"

definition delete_profile :: "nat \<Rightarrow> json \<Rightarrow> store \<Rightarrow> outcome res" where
  "delete_profile n_clicks active st =
     (if n_clicks = 0 \<or> \<not> jtruthy active then Inr (Inr None)
      else rbind (as_name active) (\<lambda>name.
        let data = or_default st; profiles = dget data ''profiles'' (JObj []) in
        rbind (jcontains name profiles) (\<lambda>present.
          if \<not> present then Inr (Inr (Some ''Profile not found''))
          else rbind (jlen profiles) (\<lambda>n.
            if n \<le> 1 then Inr (Inr (Some ''Cannot delete the last profile''))
            else rbind (as_object profiles) (\<lambda>ps.
              let ps1 = dpop name ps; new_active = fst (hd ps1) in
              Inr (Inl (dset ''active'' (JStr new_active) (dset ''profiles'' (JObj ps1) data), dkeys ps1, new_active)))))))"

definition switch_active_profile :: "json \<Rightarrow> store \<Rightarrow> store" where
  "switch_active_profile active st = (if \<not> jtruthy active then None else Some (dset ''active'' active (or_default st)))"

definition save_to_file :: "(f64 \<Rightarrow> string) \<Rightarrow> nat \<Rightarrow> save_io \<Rightarrow> store \<Rightarrow> disk \<Rightarrow> bool option \<times> disk" where
  "save_to_file fr n_clicks io st k =
     (if n_clicks = 0 then (None, k) else (case profile_save fr io (or_default st) k of (ok, k1) \<Rightarrow> (Some ok, k1)))"

text \<open>The length of the profiles is taken for the message; if that raises, nothing is loaded.\<close>

definition load_from_file :: "nat \<Rightarrow> disk \<Rightarrow> store res" where
  "load_from_file n_clicks k =
     (if n_clicks = 0 then Inr None
      else case profile_load k of
        None \<Rightarrow> Inr None
      | Some data \<Rightarrow> rbind (jlen (dget data ''profiles'' (JObj []))) (\<lambda>_. Inr (Some data)))"

definition auto_load_on_profiles_visit :: "string \<Rightarrow> store \<Rightarrow> disk \<Rightarrow> store" where
  "auto_load_on_profiles_visit pathname st k =
     (if pathname \<noteq> ''/profiles'' \<or> st \<noteq> None then None
      else case profile_load k of None \<Rightarrow> None | Some d \<Rightarrow> if d = [] then None else Some d)"

text \<open>The fields the chart shows for the active profile (\<open>update_candlestick\<close>).\<close>

definition hover_fields :: "store \<Rightarrow> json res" where
  "hover_fields st =
     (let data = or_default st in
      rbind (as_name (dget data ''active'' (JStr []))) (\<lambda>a.
      rbind (jget (dget data ''profiles'' (JObj [])) a (JObj [])) (\<lambda>p. jget p ''fields'' (JList []))))"

section \<open>The page\<close>

record profile_page =
  pp_store :: store
  pp_names :: "string list"
  pp_value :: json
  pp_checks :: "string list list"
  pp_disk :: disk

text \<open>
  What a change of the store sets off: the dropdown follows the store, the boxes follow the dropdown, and the change of
  the dropdown writes the active name into the store again.
\<close>

definition show_fields :: "profile_page \<Rightarrow> profile_page" where
  "show_fields p = (case load_profile_fields (pp_value p) (pp_store p) of Inl e \<Rightarrow> p | Inr cs \<Rightarrow> p\<lparr>pp_checks := cs\<rparr>)"

definition put_store :: "store \<Rightarrow> profile_page \<Rightarrow> profile_page" where
  "put_store st p = (case st of None \<Rightarrow> p | Some d \<Rightarrow> p\<lparr>pp_store := Some d\<rparr>)"

definition value_changed :: "profile_page \<Rightarrow> profile_page" where
  "value_changed p = put_store (switch_active_profile (pp_value p) (pp_store p)) (show_fields p)"

definition settle :: "profile_page \<Rightarrow> profile_page" where
  "settle p =
     (case sync_profile_dropdown (pp_store p) of
        Inl e \<Rightarrow> p | Inr (names, v) \<Rightarrow> value_changed (p\<lparr>pp_names := names, pp_value := v\<rparr>))"

definition new_store :: "store \<Rightarrow> profile_page \<Rightarrow> profile_page" where
  "new_store st p = (if st = None then p else settle (put_store st p))"

definition of_res :: "store res \<Rightarrow> store" where
  "of_res r = (case r of Inl e \<Rightarrow> None | Inr st \<Rightarrow> st)"

definition of_outcome :: "outcome res \<Rightarrow> store" where
  "of_outcome r = (case r of Inr (Inl (data, names, v)) \<Rightarrow> Some data | _ \<Rightarrow> None)"

text \<open>The user picks a name of the dropdown and ticks boxes of the checklists.\<close>

datatype profile_event =
  Visit string | Save_Click | Create_Click string | Delete_Click | Pick string | Tick "string list list"
| Save_File save_io | Load_File

definition profile_step :: "(f64 \<Rightarrow> string) \<Rightarrow> profile_event \<Rightarrow> profile_page \<Rightarrow> profile_page" where
  "profile_step fr e p =
     (case e of
        Visit path \<Rightarrow> new_store (auto_load_on_profiles_visit path (pp_store p) (pp_disk p)) p
      | Save_Click \<Rightarrow> new_store (of_res (save_profile 1 (pp_value p) (pp_checks p) (pp_store p))) p
      | Create_Click name \<Rightarrow> new_store (of_outcome (create_profile 1 name (pp_store p))) p
      | Delete_Click \<Rightarrow> new_store (of_outcome (delete_profile 1 (pp_value p) (pp_store p))) p
      | Pick name \<Rightarrow> if name \<in> set (pp_names p) then settle (value_changed (p\<lparr>pp_value := JStr name\<rparr>)) else p
      | Tick cs \<Rightarrow>
          p\<lparr>pp_checks := map (\<lambda>((_, fields), c). filter (\<lambda>f. f \<in> set fields) c) (zip field_groups cs)\<rparr>
      | Save_File io \<Rightarrow> p\<lparr>pp_disk := snd (save_to_file fr 1 io (pp_store p) (pp_disk p))\<rparr>
      | Load_File \<Rightarrow> new_store (of_res (load_from_file 1 (pp_disk p))) p)"

text \<open>Opening the page: an empty store is filled from the file, if there is one, before the dropdown appears.\<close>

definition open_page :: "disk \<Rightarrow> profile_page" where
  "open_page k =
     (let p = \<lparr>pp_store = None, pp_names = [], pp_value = JNull, pp_checks = [], pp_disk = k\<rparr> in
      settle (put_store (auto_load_on_profiles_visit ''/profiles'' None k) p))"

section \<open>Well-formed stores\<close>

definition profile_ok :: "json \<Rightarrow> bool" where
  "profile_ok p = (case p of JObj d \<Rightarrow> \<exists>fs. map_of d ''fields'' = Some (JList (map JStr fs)) | _ \<Rightarrow> False)"

definition store_ok :: "(string, json) dict \<Rightarrow> bool" where
  "store_ok d \<longleftrightarrow> no_numbers (JObj d) \<and>
     (\<exists>ps a. map_of d ''profiles'' = Some (JObj ps) \<and> map_of d ''active'' = Some (JStr a) \<and> a \<in> set (dkeys ps) \<and>
        (\<forall>n p. map_of ps n = Some p \<longrightarrow> profile_ok p))"

text \<open>The dropdown shows the store, and the file is one a save has written.\<close>

definition profiles_ok :: "(f64 \<Rightarrow> string) \<Rightarrow> profile_page \<Rightarrow> bool" where
  "profiles_ok fr p \<longleftrightarrow>
     (\<exists>d ps a. pp_store p = Some d \<and> store_ok d \<and> map_of d ''profiles'' = Some (JObj ps) \<and> pp_names p = dkeys ps \<and>
        map_of d ''active'' = Some (JStr a) \<and> pp_value p = JStr a) \<and>
     (case dk_file (pp_disk p) of None \<Rightarrow> True | Some t \<Rightarrow> \<exists>d. store_ok d \<and> t = json_pretty fr 0 (JObj d))"

lemma no_numbers_dset: "no_numbers (JObj d) \<Longrightarrow> no_numbers v \<Longrightarrow> no_numbers (JObj (dset k v d))"
proof (induction k v d rule: dset.induct)
  case (2 k v k' v' d)
  then show ?case using set_dkeys_dset [of k v d] by (auto simp: dkeys_def)
qed simp

lemma no_numbers_dpop: "no_numbers (JObj d) \<Longrightarrow> no_numbers (JObj (dpop k d))"
  by (induction d) (auto simp: dpop_def list_all_iff)

lemma no_numbers_lookup: "no_numbers (JObj d) \<Longrightarrow> map_of d k = Some v \<Longrightarrow> no_numbers v"
  by (auto simp: list_all_iff dest: map_of_SomeD)

lemma default_ok: "store_ok default_profiles"
proof -
  have "no_numbers (fields_json fs)" "profile_ok (fields_json fs)" for fs
    by (auto simp: fields_json_def profile_ok_def list_all_iff)
  then show ?thesis by (auto simp: store_ok_def default_profiles_def)
qed

lemma store_okE:
  assumes "store_ok d"
  obtains ps a where "map_of d ''profiles'' = Some (JObj ps)" "map_of d ''active'' = Some (JStr a)" "a \<in> set (dkeys ps)"
    "no_numbers (JObj ps)" "\<And>n p. map_of ps n = Some p \<Longrightarrow> profile_ok p"
proof -
  obtain ps a where "map_of d ''profiles'' = Some (JObj ps)" "map_of d ''active'' = Some (JStr a)" "a \<in> set (dkeys ps)"
    "no_numbers (JObj d)" "\<forall>n p. map_of ps n = Some p \<longrightarrow> profile_ok p"
    using assms unfolding store_ok_def by (elim conjE exE)
  then show thesis using that no_numbers_lookup by blast
qed

lemma store_ok_nonempty: "store_ok d \<Longrightarrow> d \<noteq> []"
  by (auto simp: store_ok_def)

lemma or_default_Some [simp]: "store_ok d \<Longrightarrow> or_default (Some d) = d"
  by (simp add: or_default_def store_ok_nonempty)

lemma dset_same: "map_of d k = Some v \<Longrightarrow> dset k v d = d"
  by (induction k v d rule: dset.induct) (auto split: if_splits)

section \<open>The page stays well-formed\<close>

lemma sync_ok:
  assumes "store_ok d"
  obtains ps a where "map_of d ''profiles'' = Some (JObj ps)" "map_of d ''active'' = Some (JStr a)" "a \<in> set (dkeys ps)"
    "sync_profile_dropdown (Some d) = Inr (dkeys ps, JStr a)"
  by (rule store_okE [OF assms], rule that) (use assms in \<open>simp_all add: sync_profile_dropdown_def dget_def\<close>)

lemma show_fields_keeps [simp]:
  "pp_store (show_fields p) = pp_store p" "pp_names (show_fields p) = pp_names p" "pp_value (show_fields p) = pp_value p"
  "pp_disk (show_fields p) = pp_disk p"
  by (simp_all add: show_fields_def split: sum.splits)

lemma switch_same: "store_ok d \<Longrightarrow> map_of d ''active'' = Some v \<Longrightarrow> put_store (switch_active_profile v (Some d)) p =
    (if jtruthy v then p\<lparr>pp_store := Some d\<rparr> else p)"
  by (simp add: switch_active_profile_def put_store_def dset_same)

lemma settle_ok:
  assumes "pp_store p = Some d" and "store_ok d"
  shows "pp_store (settle p) = Some d" "pp_disk (settle p) = pp_disk p"
    "map_of d ''profiles'' = Some (JObj ps) \<Longrightarrow> pp_names (settle p) = dkeys ps"
    "map_of d ''active'' = Some v \<Longrightarrow> pp_value (settle p) = v"
proof -
  obtain ps0 a where d: "map_of d ''profiles'' = Some (JObj ps0)" "map_of d ''active'' = Some (JStr a)"
    "sync_profile_dropdown (Some d) = Inr (dkeys ps0, JStr a)" using sync_ok [OF assms(2)] by metis
  let ?q = "p\<lparr>pp_names := dkeys ps0, pp_value := JStr a\<rparr>"
  have s: "settle p = (if jtruthy (JStr a) then (show_fields ?q)\<lparr>pp_store := Some d\<rparr> else show_fields ?q)"
    using d assms switch_same [OF assms(2) d(2)] by (simp add: settle_def value_changed_def)
  show "pp_store (settle p) = Some d" "pp_disk (settle p) = pp_disk p" using assms(1) by (simp_all add: s)
  show "map_of d ''profiles'' = Some (JObj ps) \<Longrightarrow> pp_names (settle p) = dkeys ps"
    "map_of d ''active'' = Some v \<Longrightarrow> pp_value (settle p) = v" using d by (simp_all add: s)
qed

definition disk_ok :: "(f64 \<Rightarrow> string) \<Rightarrow> disk \<Rightarrow> bool" where
  "disk_ok fr k = (case dk_file k of None \<Rightarrow> True | Some t \<Rightarrow> \<exists>d. store_ok d \<and> t = json_pretty fr 0 (JObj d))"

lemma profiles_ok_settle:
  assumes "pp_store p = Some d" and "store_ok d" and "disk_ok fr (pp_disk p)"
  shows "profiles_ok fr (settle p)"
proof -
  obtain ps a where d: "map_of d ''profiles'' = Some (JObj ps)" "map_of d ''active'' = Some (JStr a)" using sync_ok [OF assms(2)] by metis
  show ?thesis
    using settle_ok [OF assms(1,2)] d assms(2,3) unfolding profiles_ok_def disk_ok_def by auto
qed

lemma profiles_ok_new_store:
  assumes "profiles_ok fr p" and "\<And>d. st = Some d \<Longrightarrow> store_ok d"
  shows "profiles_ok fr (new_store st p)"
proof (cases st)
  case (Some d)
  then show ?thesis
    using assms profiles_ok_settle [of "put_store st p" d fr] by (simp add: new_store_def put_store_def profiles_ok_def disk_ok_def)
qed (use assms in \<open>simp add: new_store_def\<close>)

text \<open>Replacing the profiles and the active name of a well-formed store.\<close>

lemma store_ok_replace:
  assumes "store_ok d" and "no_numbers (JObj ps)" and "a \<in> set (dkeys ps)" and "\<And>n p. map_of ps n = Some p \<Longrightarrow> profile_ok p"
  shows "store_ok (dset ''active'' (JStr a) (dset ''profiles'' (JObj ps) d))"
  using assms no_numbers_dset [OF no_numbers_dset [of d "JObj ps" "''profiles''"], of "JStr a" "''active''"]
  by (simp add: store_ok_def)

lemma has_profiles: "map_of d ''profiles'' = Some v \<Longrightarrow> ''profiles'' \<in> set (dkeys d)"
  by (auto simp: set_dkeys)

lemma store_save_ok:
  assumes "store_ok d" and "save_profile n v cs (Some d) = Inr (Some d')"
  shows "store_ok d'"
proof -
  obtain ps where ps: "map_of d ''profiles'' = Some (JObj ps)" "\<And>n p. map_of ps n = Some p \<Longrightarrow> profile_ok p"
    "no_numbers (JObj ps)" using store_okE [OF assms(1)] by metis
  define ps1 where "ps1 = (\<lambda>name. if name \<in> set (dkeys ps) then ps else dset name (JObj []) ps)"
  obtain name where name: "as_name v = Inr name" using assms(2) by (auto simp: save_profile_def rbind_Inr_iff split: if_splits)
  have "rbind (as_object (dget (ps1 name) name JNull)) (\<lambda>q. Inr (Some (dset ''active'' (JStr name)
      (dset ''profiles'' (JObj (dset name (JObj (dset ''fields'' (JList (map JStr (concat cs))) q)) (ps1 name))) d)))) = Inr (Some d')"
    using assms(2) has_profiles [OF ps(1)] assms(1)
    by (simp add: save_profile_def name as_object_def [of "JObj ps"] dget_def [of d] ps(1) ps1_def Let_def split: if_splits)
  then obtain q where q0: "as_object (dget (ps1 name) name JNull) = Inr q"
    "d' = dset ''active'' (JStr name) (dset ''profiles'' (JObj (dset name (JObj (dset ''fields'' (JList (map JStr (concat cs))) q)) (ps1 name))) d)"
    by (auto simp: rbind_Inr_iff)
  have q1: "map_of (ps1 name) name = Some (JObj q)"
    using q0(1) by (simp add: as_object_def dget_def split: option.splits json.splits)
  have n1: "no_numbers (JObj (ps1 name))" using ps(3) no_numbers_dset [of ps "JObj []" name] by (simp add: ps1_def)
  then have "no_numbers (JObj q)" using no_numbers_lookup q1 by blast
  then have "no_numbers (JObj (dset ''fields'' (JList (map JStr (concat cs))) q))"
    by (intro no_numbers_dset) (simp_all add: list_all_iff)
  then have n2: "no_numbers (JObj (dset name (JObj (dset ''fields'' (JList (map JStr (concat cs))) q)) (ps1 name)))"
    by (rule no_numbers_dset [OF n1])
  have new: "profile_ok (JObj (dset ''fields'' (JList (map JStr fs)) e))" for fs e by (auto simp: profile_ok_def)
  have "profile_ok p" if "map_of (dset name (JObj (dset ''fields'' (JList (map JStr (concat cs))) q)) (ps1 name)) n = Some p" for n p
    using that ps(2) new by (auto simp: ps1_def split: if_splits)
  then show ?thesis unfolding q0(2) by (intro store_ok_replace [OF assms(1) n2]) auto
qed

lemma profile_ok_fresh: "profile_ok (JObj [(''fields'', JList [])])"
  by (simp add: profile_ok_def)

lemma store_create_ok:
  assumes "store_ok d" and "of_outcome (create_profile n name (Some d)) = Some d'"
  shows "store_ok d'"
proof -
  obtain ps where ps: "map_of d ''profiles'' = Some (JObj ps)" "\<And>n p. map_of ps n = Some p \<Longrightarrow> profile_ok p"
    "no_numbers (JObj ps)" using store_okE [OF assms(1)] by metis
  define x where "x = strip name"
  have d': "d' = dset ''active'' (JStr x) (dset ''profiles'' (JObj (dset x (JObj [(''fields'', JList [])]) ps)) d)"
    using assms has_profiles [OF ps(1)] ps(1)
    by (auto simp: create_profile_def of_outcome_def rbind_def as_object_def jcontains_def dget_def Let_def x_def split: if_splits)
  have "no_numbers (JObj (dset x (JObj [(''fields'', JList [])]) ps))" by (rule no_numbers_dset [OF ps(3)]) simp
  then show ?thesis unfolding d' by (rule store_ok_replace [OF assms(1)]) (auto intro: ps(2) simp: profile_ok_fresh split: if_splits)
qed

lemma store_delete_ok:
  assumes "store_ok d" and "of_outcome (delete_profile n v (Some d)) = Some d'"
  shows "store_ok d'"
proof -
  obtain ps where ps: "map_of d ''profiles'' = Some (JObj ps)" "\<And>n p. map_of ps n = Some p \<Longrightarrow> profile_ok p"
    "no_numbers (JObj ps)" using store_okE [OF assms(1)] by metis
  obtain x where x: "1 < length ps"
      "d' = dset ''active'' (JStr (fst (hd (dpop x ps)))) (dset ''profiles'' (JObj (dpop x ps)) d)"
    using assms ps(1)
    by (auto simp: delete_profile_def of_outcome_def rbind_def as_object_def as_name_def jcontains_def jlen_def dget_def Let_def
        split: if_splits json.splits)
  have "distinct (map fst ps)" using ps(3) by simp
  then have "dpop x ps \<noteq> []" using x(1) by (cases ps; cases "tl ps") (auto split: if_splits)
  then have a: "fst (hd (dpop x ps)) \<in> set (dkeys (dpop x ps))" by (simp add: dkeys_def)
  show ?thesis unfolding x(2)
    by (rule store_ok_replace [OF assms(1) no_numbers_dpop [OF ps(3)] a]) (auto intro: ps(2) split: if_splits)
qed

lemma store_ok_active:
  assumes "store_ok d" and "map_of d ''profiles'' = Some (JObj ps)" and "a \<in> set (dkeys ps)"
  shows "store_ok (dset ''active'' (JStr a) d)"
proof -
  have "no_numbers (JObj ps)" "\<And>n p. map_of ps n = Some p \<Longrightarrow> profile_ok p"
    using store_okE [OF assms(1)] assms(2) by (metis json.inject(6) option.inject)+
  then have "store_ok (dset ''active'' (JStr a) (dset ''profiles'' (JObj ps) d))"
    by (rule store_ok_replace [OF assms(1) _ assms(3)])
  then show ?thesis by (simp add: dset_same [OF assms(2)])
qed

lemma loads_store: "store_ok d \<Longrightarrow> json_loads (json_pretty fr 0 (JObj d)) = Some (JObj d)"
  by (rule loads_pretty) (simp only: store_ok_def)

lemma profile_load_ok:
  assumes "disk_ok fr k" and "profile_load k = Some d"
  shows "store_ok d"
proof -
  obtain t where t: "dk_file k = Some t" "json_loads t = Some (JObj d)"
    using assms(2) by (auto simp: profile_load_def split: option.splits if_splits json.splits)
  then obtain d' where d': "store_ok d'" "t = json_pretty fr 0 (JObj d')" using assms(1) unfolding disk_ok_def by auto
  then have "json_loads t = Some (JObj d')" using loads_store by blast
  then show ?thesis using t(2) d'(1) by simp
qed

lemma profiles_ok_disk: "profiles_ok fr p \<Longrightarrow> disk_ok fr (pp_disk p)"
  unfolding profiles_ok_def disk_ok_def by (elim conjE)

lemma load_from_file_file: "load_from_file 1 k = Inr (Some d) \<Longrightarrow> profile_load k = Some d"
  by (auto simp: load_from_file_def rbind_Inr_iff split: option.splits)

lemma profiles_ok_load:
  assumes "profiles_ok fr p" and "of_res (load_from_file 1 (pp_disk p)) = Some d"
  shows "store_ok d"
proof -
  have "load_from_file 1 (pp_disk p) = Inr (Some d)" using assms(2) by (simp add: of_res_def split: sum.splits)
  then show ?thesis using profile_load_ok [OF profiles_ok_disk [OF assms(1)]] load_from_file_file by blast
qed

lemma pick_ok:
  assumes "profiles_ok fr p" and "name \<in> set (pp_names p)"
  shows "profiles_ok fr (settle (value_changed (p\<lparr>pp_value := JStr name\<rparr>)))"
proof -
  obtain d ps where d: "pp_store p = Some d" "store_ok d" "map_of d ''profiles'' = Some (JObj ps)" "pp_names p = dkeys ps"
    and k: "disk_ok fr (pp_disk p)"
    using assms(1) unfolding profiles_ok_def disk_ok_def by blast
  define d' where "d' = (if name = [] then d else dset ''active'' (JStr name) d)"
  have ok: "store_ok d'" using store_ok_active [OF d(2,3)] assms(2) d by (simp add: d'_def)
  let ?q = "value_changed (p\<lparr>pp_value := JStr name\<rparr>)"
  have "pp_store ?q = Some d'" "pp_disk ?q = pp_disk p"
    using d by (simp_all add: value_changed_def switch_active_profile_def put_store_def jtruthy_def d'_def)
  then show ?thesis using profiles_ok_settle [of ?q d' fr] ok k by simp
qed

lemma profile_step_ok:
  assumes "profiles_ok fr p"
  shows "profiles_ok fr (profile_step fr e p)"
proof -
  obtain d where d: "pp_store p = Some d" "store_ok d" using assms by (auto simp: profiles_ok_def)
  show ?thesis
  proof (cases e)
    case (Visit path)
    then show ?thesis using assms d by (simp add: profile_step_def auto_load_on_profiles_visit_def new_store_def)
  next
    case Save_Click
    have "store_ok x" if "of_res (save_profile 1 (pp_value p) (pp_checks p) (Some d)) = Some x" for x
      using that store_save_ok [OF d(2)] by (auto simp: of_res_def split: sum.splits)
    then show ?thesis using Save_Click profiles_ok_new_store [OF assms] d(1) by (simp add: profile_step_def)
  next
    case (Create_Click name)
    then show ?thesis using profiles_ok_new_store [OF assms] store_create_ok [OF d(2)] d(1) by (simp add: profile_step_def)
  next
    case Delete_Click
    then show ?thesis using profiles_ok_new_store [OF assms] store_delete_ok [OF d(2)] d(1) by (simp add: profile_step_def)
  next
    case (Pick name)
    then show ?thesis using pick_ok [OF assms] assms by (simp add: profile_step_def)
  next
    case (Tick cs)
    then show ?thesis using assms by (simp add: profile_step_def profiles_ok_def)
  next
    case (Save_File io)
    then show ?thesis
      using assms d by (auto simp: profile_step_def profiles_ok_def save_to_file_def profile_save_def Let_def split: option.splits if_splits)
  next
    case Load_File
    then show ?thesis using profiles_ok_new_store [OF assms] profiles_ok_load [OF assms] by (simp add: profile_step_def)
  qed
qed

lemma settle_fresh: "disk_ok fr (pp_disk p) \<Longrightarrow> pp_store p = None \<Longrightarrow> profiles_ok fr (settle p)"
proof -
  assume k: "disk_ok fr (pp_disk p)" and none: "pp_store p = None"
  obtain ps where ps: "map_of default_profiles ''profiles'' = Some (JObj ps)" by (simp add: default_profiles_def)
  have a: "map_of default_profiles ''active'' = Some (JStr ''Default'')" by (simp add: default_profiles_def)
  let ?q = "p\<lparr>pp_names := dkeys ps, pp_value := JStr ''Default''\<rparr>"
  have "pp_store (settle p) = Some default_profiles" "pp_names (settle p) = dkeys ps" "pp_value (settle p) = JStr ''Default''"
    "pp_disk (settle p) = pp_disk p"
    using none ps a
    by (simp_all add: settle_def sync_profile_dropdown_def or_default_def dget_def value_changed_def switch_active_profile_def
        jtruthy_def put_store_def dset_same)
  then show ?thesis using default_ok ps a k by (auto simp: profiles_ok_def disk_ok_def)
qed

lemma open_page_ok:
  assumes "disk_ok fr k"
  shows "profiles_ok fr (open_page k)"
proof (cases "auto_load_on_profiles_visit ''/profiles'' None k")
  case None
  then show ?thesis using settle_fresh assms by (simp add: open_page_def Let_def put_store_def)
next
  case (Some d)
  then have "store_ok d"
    using profile_load_ok [OF assms] by (auto simp: auto_load_on_profiles_visit_def split: option.splits if_splits)
  then show ?thesis using Some profiles_ok_settle assms by (simp add: open_page_def Let_def put_store_def)
qed

text \<open>
  C30. A session on the profiles page keeps the profiles well-formed: from an opened page, through any sequence of saving,
  creating, deleting, picking, ticking, saving to the file with any failure in between and loading from it, the store
  has distinct names, each with a list of fields, the active profile is one of them, so the last one is never deleted,
  the dropdown shows exactly the names and the active profile of the store, and the chart finds its fields.
\<close>

theorem profile_session_well_formed:
  assumes "case dk_file k of None \<Rightarrow> True | Some t \<Rightarrow> \<exists>d. store_ok d \<and> t = json_pretty fr 0 (JObj d)"
    and "p = fold (profile_step fr) es (open_page k)"
  shows "profiles_ok fr p \<and> (\<exists>fs. hover_fields (pp_store p) = Inr (JList (map JStr fs)))"
proof -
  have ok: "profiles_ok fr p" unfolding assms(2)
    by (rule fold_invariant) (use assms(1) open_page_ok profile_step_ok in \<open>simp_all add: disk_ok_def\<close>)
  then obtain d where d: "pp_store p = Some d" "store_ok d" by (auto simp: profiles_ok_def)
  obtain ps a where ps: "map_of d ''profiles'' = Some (JObj ps)" "map_of d ''active'' = Some (JStr a)" "a \<in> set (dkeys ps)"
    "\<And>n p. map_of ps n = Some p \<Longrightarrow> profile_ok p" using store_okE [OF d(2)] by metis
  then obtain q where q: "map_of ps a = Some q" "profile_ok q" by (auto simp: set_dkeys)
  then obtain e fs where "q = JObj e" "map_of e ''fields'' = Some (JList (map JStr fs))"
    by (auto simp: profile_ok_def split: json.splits)
  then show ?thesis using ok d ps q by (auto simp: hover_fields_def dget_def as_name_def)
qed

section \<open>Saving and loading\<close>

text \<open>
  C27. The file of the profiles is written atomically and read back unchanged: whatever fails during a save, and however
  much of the text was written, loading afterwards gives what it gave before if the save reports a failure, and exactly
  the saved store if it reports success.
\<close>

theorem profile_file_roundtrip:
  assumes "no_numbers (JObj d)" and "dk_readable k" and "profile_save fr io d k = (ok, k')"
  shows "profile_load k' = (if ok then Some d else profile_load k)"
  using assms loads_pretty [OF assms(1), of fr]
  by (auto simp: profile_save_def profile_load_def Let_def simp del: json_pretty.simps no_numbers.simps split: option.splits if_splits)

lemma profile_session_well_formed_witness:
  "profiles_ok (\<lambda>x. []) (fold (profile_step (\<lambda>x. [])) [Create_Click ''A'', Delete_Click, Load_File]
      (open_page \<lparr>dk_file = Some (json_pretty (\<lambda>x. []) 0 (JObj default_profiles)), dk_tmp = None, dk_readable = True\<rparr>)) \<and>
    (\<exists>fs. hover_fields (pp_store (fold (profile_step (\<lambda>x. [])) [Create_Click ''A'', Delete_Click, Load_File]
      (open_page \<lparr>dk_file = Some (json_pretty (\<lambda>x. []) 0 (JObj default_profiles)), dk_tmp = None, dk_readable = True\<rparr>))) =
        Inr (JList (map JStr fs)))"
  by (rule profile_session_well_formed [OF _ refl]) (use default_ok in \<open>auto simp del: json_pretty.simps\<close>)

lemma profile_file_roundtrip_witness:
  "profile_load (snd (profile_save (\<lambda>x. []) \<lparr>io_mkdir = True, io_cut = None, io_replace = True\<rparr> [(''active'', JStr ''A'')]
      \<lparr>dk_file = None, dk_tmp = None, dk_readable = True\<rparr>)) = Some [(''active'', JStr ''A'')]"
proof -
  let ?k = "\<lparr>dk_file = None, dk_tmp = None, dk_readable = True\<rparr>"
  let ?io = "\<lparr>io_mkdir = True, io_cut = None, io_replace = True\<rparr>"
  let ?s = "profile_save (\<lambda>x. []) ?io [(''active'', JStr ''A'')] ?k"
  have "?s = (True, snd ?s)" by (simp add: profile_save_def Let_def del: json_pretty.simps)
  then show ?thesis using profile_file_roundtrip [of "[(''active'', JStr ''A'')]" ?k "\<lambda>x. []" ?io True "snd ?s"] by simp
qed

end
