(* ===== verification/Dash_Backtest.thy ===== *)
theory Dash_Backtest
  imports Dash_Profiles Dash_Bars Service_Api
begin

text \<open>
  The backtest page of the dashboard: its calls on the bot service and on the database
  (\<open>dashboard/backtest_data.py\<close>) and the callbacks of \<open>dashboard/callbacks_backtest.py\<close>, together with the service
  they poll (theory \<open>Service_Api\<close>). What is drawn is modelled as data: rows, numbers, texts. Arguments: the answers
  of service and database, \<open>delta\<close>, the microseconds between two ISO texts, \<open>parse_ts\<close>, the instant of one, and \<open>ts_text\<close>,
  the ISO text of an instant.
\<close>

section \<open>Calls\<close>

definition qdb :: "(string \<Rightarrow> json res) \<Rightarrow> string \<Rightarrow> (string, json) dict list" where
  "qdb db sql =
     (case rbind (db sql) (\<lambda>body. rbind (jin ''error'' body) (\<lambda>bad. if bad then Inr [] else dataset_rows body)) of
        Inl e \<Rightarrow> [] | Inr rows \<Rightarrow> rows)"

text \<open>A request that fails in any way becomes an object with an error.\<close>

definition poll_run_status :: "(exn \<Rightarrow> string) \<Rightarrow> (string, json) dict res \<Rightarrow> (string, json) dict" where
  "poll_run_status exn_text answer = (case answer of Inl e \<Rightarrow> [(''error'', JStr (exn_text e))] | Inr d \<Rightarrow> d)"

definition safe_filter :: "string option \<Rightarrow> string option" where
  "safe_filter x = (case x of None \<Rightarrow> None | Some v \<Rightarrow> if ident_ok v then Some v else None)"

definition fetch_run_history :: "(string \<Rightarrow> json res) \<Rightarrow> string option \<Rightarrow> string option \<Rightarrow> (string, json) dict list" where
  "fetch_run_history db name h = qdb db (runs_query (safe_filter name) (safe_filter h) 200)"

definition chart_table :: "string \<Rightarrow> string" where
  "chart_table tf = (case map_of
     [(''1s'', ''snapshot_1s''), (''1m'', ''snapshot_1m''), (''5m'', ''snapshot_1m''), (''15m'', ''snapshot_15m''),
      (''1h'', ''snapshot_15m''), (''4h'', ''snapshot_15m''), (''1d'', ''snapshot_15m''), (''1w'', ''snapshot_15m'')] tf of
     Some t \<Rightarrow> t | None \<Rightarrow> ''snapshot_1s'')"

definition bar_seconds :: "string \<Rightarrow> int" where
  "bar_seconds tf = (case map_of
     [(''1s'', 1), (''1m'', 60), (''5m'', 300), (''15m'', 900), (''1h'', 3600), (''4h'', 14400), (''1d'', 86400),
      (''1w'', 604800)] tf of Some s \<Rightarrow> s | None \<Rightarrow> 1)"

definition around_bounds :: "string \<Rightarrow> int \<Rightarrow> int \<Rightarrow> int \<times> int" where
  "around_bounds tf window center =
     (let half = secs (window * bar_seconds tf) in (center - half, center + half))"

definition around_limit :: "int \<Rightarrow> int" where
  "around_limit window = window * 2 + 50"

definition around_query :: "(int \<Rightarrow> string) \<Rightarrow> string \<Rightarrow> string \<Rightarrow> int \<Rightarrow> string \<Rightarrow> int \<Rightarrow> string" where
  "around_query ts_text ex sy center tf window =
     (case around_bounds tf window center of (a, b) \<Rightarrow>
        ''SELECT * FROM '' @ chart_table tf @ '' WHERE exchange='' @ quoted ex @ '' AND symbol='' @ quoted sy @
        '' AND ts >= '' @ quoted (ts_text a) @ '' AND ts <= '' @ quoted (ts_text b) @
        '' ORDER BY ts ASC LIMIT '' @ int_str (around_limit window))"

definition fetch_candles_around ::
  "(string \<Rightarrow> int option) \<Rightarrow> (int \<Rightarrow> string) \<Rightarrow> (string \<Rightarrow> json res) \<Rightarrow> string \<Rightarrow> string \<Rightarrow> string \<Rightarrow> string \<Rightarrow> int \<Rightarrow>
   (string, json) dict list" where
  "fetch_candles_around parse_ts ts_text db ex sy center_ts tf window =
     (if \<not> ident_ok ex \<or> \<not> ident_ok sy then []
      else case parse_ts center_ts of
        None \<Rightarrow> []
      | Some c \<Rightarrow> qdb db (around_query ts_text ex sy c tf window))"

definition detail_query :: "(int \<Rightarrow> string) \<Rightarrow> string \<Rightarrow> string \<Rightarrow> int \<Rightarrow> string \<Rightarrow> string" where
  "detail_query ts_text ex sy t tf =
     ''SELECT * FROM '' @ chart_table tf @ '' WHERE exchange='' @ quoted ex @ '' AND symbol='' @ quoted sy @
     '' AND ts >= '' @ quoted (ts_text (t - 500000)) @ '' AND ts < '' @ quoted (ts_text (t + secs (bar_seconds tf + 1))) @
     '' LIMIT 1''"

definition fetch_candle_detail ::
  "(string \<Rightarrow> int option) \<Rightarrow> (int \<Rightarrow> string) \<Rightarrow> (string \<Rightarrow> json res) \<Rightarrow> string \<Rightarrow> string \<Rightarrow> string \<Rightarrow> string \<Rightarrow> (string, json) dict" where
  "fetch_candle_detail parse_ts ts_text db ex sy ts tf =
     (if \<not> ident_ok ex \<or> \<not> ident_ok sy then []
      else case parse_ts ts of
        None \<Rightarrow> []
      | Some t \<Rightarrow> (case qdb db (detail_query ts_text ex sy t tf) of [] \<Rightarrow> [] | r # _ \<Rightarrow> r))"

section \<open>The range of dates\<close>

definition update_date_range :: "string \<Rightarrow> (string, json) dict list \<Rightarrow> string \<Rightarrow> (json \<times> json) option" where
  "update_date_range symbol rows exchange =
     (if symbol = [] then None
      else map_option (\<lambda>r. (dget r ''min_ts'' JNull, dget r ''max_ts'' JNull))
        (List.find (\<lambda>r. dget r ''symbol'' JNull = JStr symbol \<and> (exchange = [] \<or> dget r ''exchange'' JNull = JStr exchange)) rows))"

definition resolve_date :: "string \<Rightarrow> string \<Rightarrow> string \<Rightarrow> string \<Rightarrow> string" where
  "resolve_date mode sentinel custom from_db = (if mode = sentinel then from_db else custom)"

section \<open>What a finished run shows\<close>

text \<open>The length of a trade and of a gap; \<open>int()\<close> truncates towards zero.\<close>

definition whole_seconds :: "int \<Rightarrow> int" where
  "whole_seconds d = (if 0 \<le> d then d div 1000000 else - (- d div 1000000))"

definition trade_duration :: "(string \<Rightarrow> string \<Rightarrow> int option) \<Rightarrow> string \<Rightarrow> string \<Rightarrow> string" where
  "trade_duration delta entry_ts exit_ts =
     (case delta entry_ts exit_ts of
        None \<Rightarrow> ''?''
      | Some d \<Rightarrow>
          (let s = whole_seconds d in
           if s < 0 then ''?'' else if s < 60 then int_str s @ ''s''
           else if s < 3600 then int_str (s div 60) @ ''m '' @ int_str (s mod 60) @ ''s''
           else int_str (s div 3600) @ ''h '' @ int_str (s mod 3600 div 60) @ ''m''))"

definition gap_text :: "(string \<Rightarrow> string \<Rightarrow> int option) \<Rightarrow> string \<Rightarrow> string \<Rightarrow> string" where
  "gap_text delta t1 t2 =
     (case delta t1 t2 of
        None \<Rightarrow> ''?''
      | Some d \<Rightarrow>
          (let s = whole_seconds d in
           if 3600 \<le> s then int_str (s div 3600) @ ''h '' @ int_str (s mod 3600 div 60) @ ''m''
           else if 60 \<le> s then int_str (s div 60) @ ''m '' @ int_str (s mod 60) @ ''s''
           else int_str s @ ''s''))"

text \<open>The badge: usable bars and number of gaps. The detail: one line per segment and one per gap.\<close>

definition coverage_badge :: "segment list \<Rightarrow> (nat \<times> nat) option" where
  "coverage_badge segs = (if segs = [] then None else Some (sum_list (map sg_bars segs), length segs - 1))"

datatype coverage_line = Segment_Line string string nat | Gap_Line string

fun coverage_lines :: "(int \<Rightarrow> string) \<Rightarrow> (string \<Rightarrow> string \<Rightarrow> int option) \<Rightarrow> segment list \<Rightarrow> coverage_line list" where
  "coverage_lines ts_text delta [] = []"
| "coverage_lines ts_text delta (s # segs) =
     Segment_Line (take 19 (ts_text (sg_start s))) (take 19 (ts_text (sg_end s))) (sg_bars s) #
     (case segs of [] \<Rightarrow> [] | s1 # _ \<Rightarrow> [Gap_Line (gap_text delta (ts_text (sg_end s)) (ts_text (sg_start s1)))]) @
     coverage_lines ts_text delta segs"

record trade_row =
  tw_no :: nat
  tw_direction :: string
  tw_entry_ts :: string
  tw_exit_ts :: string
  tw_duration :: string
  tw_entry_price :: f64
  tw_exit_price :: f64
  tw_pnl_net :: f64
  tw_running_pnl :: f64

definition as_text :: "json \<Rightarrow> string res" where
  "as_text j = (case j of JStr s \<Rightarrow> Inr s | _ \<Rightarrow> Inl TypeError)"

text \<open>A number that \<open>:.4f\<close> can format.\<close>

definition as_number :: "json \<Rightarrow> f64 res" where
  "as_number j = (case j of JInt i \<Rightarrow> jfloat j | JFloat x \<Rightarrow> Inr x | JBool b \<Rightarrow> jfloat j | JStr s \<Rightarrow> Inl ValueError | _ \<Rightarrow> Inl TypeError)"

definition trade_pnl :: "(string, json) dict \<Rightarrow> f64 res" where
  "trade_pnl t = (let v = dget t ''pnl_net'' (dget t ''pnl'' (JInt 0)) in if jtruthy v then jfloat v else Inr (Fin 0))"

definition trade_cells :: "(string \<Rightarrow> string \<Rightarrow> int option) \<Rightarrow> nat \<Rightarrow> f64 \<Rightarrow> (string, json) dict \<Rightarrow> trade_row res" where
  "trade_cells delta i running t =
     rbind (trade_pnl t) (\<lambda>pnl.
     rbind (as_text (dget t ''entry_ts'' (JStr []))) (\<lambda>entry.
     rbind (as_text (dget t ''exit_ts'' (JStr []))) (\<lambda>exit.
     rbind (as_text (dget t ''direction'' (JStr ''long''))) (\<lambda>dir.
     if dir = [] then Inl IndexError
     else rbind (as_number (dget t ''entry_price'' (JInt 0))) (\<lambda>p.
       rbind (as_number (dget t ''exit_price'' (JInt 0))) (\<lambda>q.
         Inr \<lparr>tw_no = Suc i, tw_direction = [upper_char (hd dir)], tw_entry_ts = take 19 entry, tw_exit_ts = take 19 exit,
              tw_duration = trade_duration delta entry exit, tw_entry_price = p, tw_exit_price = q, tw_pnl_net = pnl,
              tw_running_pnl = running + pnl\<rparr>))))))"

fun trades_table :: "(string \<Rightarrow> string \<Rightarrow> int option) \<Rightarrow> nat \<Rightarrow> f64 \<Rightarrow> (string, json) dict list \<Rightarrow> trade_row list res" where
  "trades_table delta i running [] = Inr []"
| "trades_table delta i running (t # ts) =
     rbind (trade_cells delta i running t) (\<lambda>row.
     rbind (trades_table delta (Suc i) (tw_running_pnl row) ts) (\<lambda>rows. Inr (row # rows)))"

text \<open>The drawdown of the equity figure in percent.\<close>

fun running_max :: "f64 \<Rightarrow> f64 list \<Rightarrow> f64 list" where
  "running_max m [] = []"
| "running_max m (x # xs) = py_max m x # running_max (py_max m x) xs"

definition drawdown_percent :: "f64 list \<Rightarrow> f64 list" where
  "drawdown_percent equity =
     map2 (\<lambda>e m. fdiv (e - m) m * Fin 100) equity (case equity of [] \<Rightarrow> [] | e # es \<Rightarrow> e # running_max e es)"

section \<open>The table of a candle\<close>

datatype cell = No_Value | Mark bool | Number f64 | Text_Cell string bool

definition cell_of :: "(json \<Rightarrow> string) \<Rightarrow> json \<Rightarrow> cell" where
  "cell_of other v =
     (case v of
        JNull \<Rightarrow> No_Value
      | JBool b \<Rightarrow> Mark b
      | JFloat x \<Rightarrow> Number x
      | JStr s \<Rightarrow> if 60 < length s then Text_Cell (take 57 s) True else Text_Cell s False
      | _ \<Rightarrow> Text_Cell (jstr other v) False)"

definition hidden_fields :: "string list" where
  "hidden_fields = [''ts'', ''exchange'', ''symbol'', ''footprint_json'', ''single_print_levels_json'']"

definition known_fields :: "string list" where
  "known_fields = concat (map snd field_groups)"

definition candle_detail_table :: "(json \<Rightarrow> string) \<Rightarrow> (string, json) dict \<Rightarrow> (string \<times> (string \<times> cell) list) list" where
  "candle_detail_table other detail =
     (let rows = (\<lambda>fs. map (\<lambda>f. (f, cell_of other (dget detail f JNull))) (filter (\<lambda>f. f \<in> set (dkeys detail)) fs));
          extras = map (\<lambda>(k, v). (k, cell_of other v))
            (filter (\<lambda>(k, v). k \<notin> set known_fields \<and> k \<notin> set hidden_fields) detail) in
      filter (\<lambda>(g, rs). rs \<noteq> []) (map (\<lambda>(g, fs). (g, rows fs)) field_groups) @ (if extras = [] then [] else [(''Other'', extras)]))"

section \<open>The page\<close>

datatype bt_status =
  Idle | Hint string | Submit_Error string | Running string | Poll_Error string | Failed json | Done string

record bt_page =
  bp_run_id :: "string option"
  bp_status :: bt_status
  bp_polling :: bool
  bp_result :: "(string, json) dict"
  bp_trades :: json
  bp_segments :: json
  bp_history :: "(string, json) dict list"
  bp_candles :: "(string, json) dict list"
  bp_trade_idx :: "int option"
  bp_chart_open :: bool

record bt_form =
  bf_strategy :: string
  bf_exchange :: string
  bf_symbol :: string
  bf_tf :: string
  bf_start_mode :: string
  bf_end_mode :: string
  bf_min_ts :: string
  bf_max_ts :: string
  bf_custom_start :: string
  bf_custom_end :: string
  bf_capital :: json

definition or_text :: "string \<Rightarrow> string \<Rightarrow> string" where
  "or_text s dflt = (if s = [] then dflt else s)"

text \<open>\<open>float(capital or 10000)\<close>, where a failure of the conversion gives the default as well.\<close>

definition capital_of :: "json \<Rightarrow> f64 res" where
  "capital_of j =
     (if \<not> jtruthy j then Inr (Fin 10000)
      else case jfloat j of Inr x \<Rightarrow> Inr x | Inl e \<Rightarrow> if e \<in> {ValueError, TypeError} then Inr (Fin 10000) else Inl e)"

definition backtest_request :: "bt_form \<Rightarrow> f64 \<Rightarrow> (string, json) dict" where
  "backtest_request f cap =
     [(''strategy_name'', JStr (bf_strategy f)), (''symbol'', JStr (bf_symbol f)), (''tf'', JStr (or_text (bf_tf f) ''1s'')),
      (''exchange'', JStr (or_text (bf_exchange f) ''bybit'')),
      (''start_date'', JStr (take 19 (resolve_date (bf_start_mode f) ''first'' (bf_custom_start f) (bf_min_ts f)))),
      (''end_date'', JStr (take 19 (resolve_date (bf_end_mode f) ''last'' (bf_custom_end f) (bf_max_ts f)))),
      (''initial_capital'', JFloat cap), (''sample_every'', JInt 60)]"

text \<open>\<open>submit\<close> answers the request, an object with an error if it fails.\<close>

definition on_run_click :: "((string, json) dict \<Rightarrow> (string, json) dict) \<Rightarrow> bt_form \<Rightarrow> bt_page \<Rightarrow> bt_page res" where
  "on_run_click submit f p =
     (if bf_strategy f = [] then Inr (p\<lparr>bp_status := Hint ''strategy'', bp_polling := False\<rparr>)
      else if bf_symbol f = [] then Inr (p\<lparr>bp_status := Hint ''symbol'', bp_polling := False\<rparr>)
      else if resolve_date (bf_start_mode f) ''first'' (bf_custom_start f) (bf_min_ts f) = []
        then Inr (p\<lparr>bp_status := Hint ''start'', bp_polling := False\<rparr>)
      else if resolve_date (bf_end_mode f) ''last'' (bf_custom_end f) (bf_max_ts f) = []
        then Inr (p\<lparr>bp_status := Hint ''end'', bp_polling := False\<rparr>)
      else rbind (capital_of (bf_capital f)) (\<lambda>cap.
        let result = submit (backtest_request f cap) in
        case map_of result ''error'' of
          Some e \<Rightarrow> Inr (p\<lparr>bp_run_id := None, bp_status := Submit_Error (jstr (\<lambda>_. []) e), bp_polling := False\<rparr>)
        | None \<Rightarrow>
            (let run_id = (case map_of result ''run_id'' of Some (JStr r) \<Rightarrow> Some r | _ \<Rightarrow> None) in
             Inr (p\<lparr>bp_run_id := run_id, bp_status := Running (case run_id of Some r \<Rightarrow> r | None \<Rightarrow> ''None''),
                    bp_polling := True\<rparr>))))"

text \<open>
  One poll. \<open>render\<close> builds metrics, figure and trade table and may raise; then nothing on the page changes. The
  history is that of the chosen strategy.
\<close>

definition on_poll ::
  "((string, json) dict \<Rightarrow> unit res) \<Rightarrow> (string \<Rightarrow> (string, json) dict) \<Rightarrow> (string, json) dict list \<Rightarrow> bt_page \<Rightarrow> bt_page" where
  "on_poll render poll history p =
     (case bp_run_id p of
        None \<Rightarrow> p\<lparr>bp_polling := False\<rparr>
      | Some run_id \<Rightarrow>
          if run_id = [] then p\<lparr>bp_polling := False\<rparr>
          else
            let data = poll run_id; status = dget data ''status'' (JStr ''unknown'') in
            case map_of data ''error'' of
              Some e \<Rightarrow> p\<lparr>bp_status := Poll_Error (jstr (\<lambda>_. []) e), bp_polling := False\<rparr>
            | None \<Rightarrow>
                if status = JStr ''running'' then p\<lparr>bp_status := Running run_id, bp_polling := True\<rparr>
                else if status = JStr ''failed'' then p\<lparr>bp_status := Failed (dget data ''error'' (JStr ''unknown error'')), bp_polling := False\<rparr>
                else (case dget data ''result'' (JObj []) of
                    JObj result \<Rightarrow>
                      (case render result of
                         Inl e \<Rightarrow> p
                       | Inr _ \<Rightarrow>
                           p\<lparr>bp_status := Done run_id, bp_polling := False, bp_result := result,
                             bp_trades := dget result ''trades'' (JList []), bp_segments := dget result ''data_segments'' (JList []),
                             bp_history := history\<rparr>)
                  | _ \<Rightarrow> p))"

text \<open>The interval fires only while it is enabled.\<close>

definition poll_tick ::
  "((string, json) dict \<Rightarrow> unit res) \<Rightarrow> (string, json) dict list \<Rightarrow> (string \<Rightarrow> (string, json) dict) \<Rightarrow> bt_page \<Rightarrow> bt_page" where
  "poll_tick render history poll p = (if bp_polling p then on_poll render poll history p else p)"

text \<open>A click on the chart button of a row: \<open>fetch\<close> answers for the entry time of the trade.\<close>

definition on_trade_chart_click ::
  "(string \<Rightarrow> (string, json) dict list) \<Rightarrow> nat list \<Rightarrow> int option \<Rightarrow> bt_page \<Rightarrow> bt_page res" where
  "on_trade_chart_click fetch all_clicks triggered p =
     (if \<not> list_ex (\<lambda>c. c \<noteq> 0) all_clicks then Inr p
      else case triggered of
        None \<Rightarrow> Inr p
      | Some i \<Rightarrow>
          (let trades = (case bp_trades p of JList ts \<Rightarrow> ts | _ \<Rightarrow> []) in
           if i < 0 \<or> int (length trades) \<le> i then Inr p
           else case trades ! nat i of
               JObj d \<Rightarrow>
                 rbind (as_text (dget d ''entry_ts'' (JStr []))) (\<lambda>t.
                 rbind (as_text (dget d ''direction'' (JStr ''long''))) (\<lambda>_.
                 rbind (let v = dget d ''pnl_net'' (JInt 0) in if jtruthy v then jfloat v else Inr (Fin 0)) (\<lambda>_.
                   Inr (p\<lparr>bp_candles := (if t = [] then [] else fetch t), bp_trade_idx := Some i, bp_chart_open := True\<rparr>))))
             | _ \<Rightarrow> Inl OtherError))"

definition close_inline_chart :: "bt_page \<Rightarrow> bt_page" where
  "close_inline_chart p = p\<lparr>bp_chart_open := False\<rparr>"

definition open_gap_modal :: "(json \<Rightarrow> 'a) \<Rightarrow> nat \<Rightarrow> bt_page \<Rightarrow> 'a option" where
  "open_gap_modal detail n_clicks p = (if n_clicks = 0 then None else Some (detail (bp_segments p)))"

section \<open>The page and the service\<close>

text \<open>The body of a status answer of the service; an unknown run is an HTTP error.\<close>

definition status_answer ::
  "(exn \<Rightarrow> string) \<Rightarrow> (backtest_result \<Rightarrow> (string, json) dict) \<Rightarrow> api \<Rightarrow> string \<Rightarrow> (string, json) dict res" where
  "status_answer exn_text result_json a run_id =
     (case backtest_status run_id a of
        Inl e \<Rightarrow> Inl HTTPError
      | Inr (rid, RunRunning) \<Rightarrow> Inr [(''run_id'', JStr rid), (''status'', JStr ''running'')]
      | Inr (rid, RunDone r) \<Rightarrow> Inr [(''run_id'', JStr rid), (''status'', JStr ''done''), (''result'', JObj (result_json r))]
      | Inr (rid, RunFailed e) \<Rightarrow> Inr [(''run_id'', JStr rid), (''status'', JStr ''failed''), (''error'', JStr (exn_text e))])"

definition poll_service ::
  "(exn \<Rightarrow> string) \<Rightarrow> (backtest_result \<Rightarrow> (string, json) dict) \<Rightarrow> api \<Rightarrow> string \<Rightarrow> (string, json) dict" where
  "poll_service exn_text result_json a run_id = poll_run_status exn_text (status_answer exn_text result_json a run_id)"

section \<open>Polling\<close>

lemma poll_service_cases:
  "poll_service exn_text result_json a run_id =
     (case map_of (ap_results a) run_id of
        None \<Rightarrow> [(''error'', JStr (exn_text HTTPError))]
      | Some RunRunning \<Rightarrow> [(''run_id'', JStr run_id), (''status'', JStr ''running'')]
      | Some (RunDone r) \<Rightarrow> [(''run_id'', JStr run_id), (''status'', JStr ''done''), (''result'', JObj (result_json r))]
      | Some (RunFailed e) \<Rightarrow> [(''run_id'', JStr run_id), (''status'', JStr ''failed''), (''error'', JStr (exn_text e))])"
  by (simp add: poll_service_def poll_run_status_def status_answer_def backtest_status_def split: option.splits run_state.splits)

lemma poll_service_page:
  assumes "bp_run_id p = Some run_id" and "run_id \<noteq> []" and "bp_polling p"
    and "p' = poll_tick render history (poll_service exn_text result_json a) p"
  shows "map_of (ap_results a) run_id = Some RunRunning \<Longrightarrow> p' = p\<lparr>bp_status := Running run_id\<rparr>"
    and "map_of (ap_results a) run_id = Some (RunDone r) \<Longrightarrow> render (result_json r) = Inl x \<Longrightarrow> p' = p"
    and "map_of (ap_results a) run_id = Some (RunDone r) \<Longrightarrow> render (result_json r) = Inr () \<Longrightarrow>
      \<not> bp_polling p' \<and> bp_status p' = Done run_id \<and> bp_result p' = result_json r"
    and "map_of (ap_results a) run_id = Some (RunFailed e) \<Longrightarrow>
      \<not> bp_polling p' \<and> bp_status p' = Poll_Error (exn_text e) \<and> bp_result p' = bp_result p"
  using assms
  by (auto simp: poll_tick_def on_poll_def poll_service_cases dget_def Let_def jstr_def)

text \<open>
  C19. The end of a backtest reaches the page that started it, as long as every poll is answered: \<open>n\<close> polls answered while
  the service runs the backtest leave the page polling and its result as it was. The first poll answered after the task
  has ended stops the polling and shows the result, exactly when the run and all its writes succeeded and the
  result can be rendered, and shows the error of the run, as a failed poll, when the run failed; a result
  that cannot be rendered changes nothing on the page, which keeps polling. A poll that is not answered stops the polling
  too, and without the result.
\<close>

theorem backtest_end_reaches_page:
  assumes "bp_run_id p = Some run_id" and "run_id \<noteq> []" and "bp_polling p" and "api_ok a"
    and "map_of (ap_results a) run_id = Some RunRunning"
    and "run_backtest_task outcome decoded db store run_id a = (written, a')"
    and "p1 = (poll_tick render history (poll_service exn_text result_json a) ^^ n) p"
    and "p2 = poll_tick render history (poll_service exn_text result_json a') p1"
  shows "bp_polling p1 \<and> bp_result p1 = bp_result p \<and>
    ((\<exists>r code. outcome = Inr r \<and> decoded = Inr code \<and>
        written = task_writes (snapshot_exists db (br_strategy_name r) (br_hash r)) r code \<and>
        (case render (result_json (task_result r)) of
           Inr _ \<Rightarrow> \<not> bp_polling p2 \<and> bp_status p2 = Done run_id \<and> bp_result p2 = result_json (task_result r)
         | Inl _ \<Rightarrow> p2 = p1)) \<or>
     (\<exists>e. \<not> bp_polling p2 \<and> bp_status p2 = Poll_Error (exn_text e) \<and> bp_result p2 = bp_result p \<and>
        (outcome = Inl e \<or> decoded = Inl e \<or> (\<exists>x. store x = Inl e)))) \<and>
    (\<forall>e. \<not> bp_polling (poll_tick render history (\<lambda>_. poll_run_status exn_text (Inl e)) p1))"
proof -
  have p1: "bp_run_id p1 = Some run_id \<and> bp_polling p1 \<and> bp_result p1 = bp_result p"
    unfolding assms(7)
  proof (induction n)
    case (Suc n)
    let ?q = "(poll_tick render history (poll_service exn_text result_json a) ^^ n) p"
    show ?case using poll_service_page(1) [OF _ assms(2) _ refl assms(5), of ?q render history exn_text result_json] Suc by simp
  qed (use assms(1,3) in simp)
  have lost: "\<not> bp_polling (poll_tick render history (\<lambda>_. poll_run_status exn_text (Inl e)) p1)" for e
    using p1 assms(2) by (simp add: poll_tick_def on_poll_def poll_run_status_def Let_def)
  note page = poll_service_page [OF _ assms(2) _ assms(8)]
  consider (good) r code where "outcome = Inr r" "decoded = Inr code" "backtest_status run_id a' = Inr (run_id, RunDone (task_result r))"
      "written = task_writes (snapshot_exists db (br_strategy_name r) (br_hash r)) r code"
    | (bad) e where "backtest_status run_id a' = Inr (run_id, RunFailed e)" "outcome = Inl e \<or> decoded = Inl e \<or> (\<exists>x. store x = Inl e)"
    using task_outcome [OF assms(4,6)] by blast
  then show ?thesis
  proof cases
    case good
    then have d: "map_of (ap_results a') run_id = Some (RunDone (task_result r))"
      by (simp add: backtest_status_def split: option.splits)
    have "case render (result_json (task_result r)) of
        Inr _ \<Rightarrow> \<not> bp_polling p2 \<and> bp_status p2 = Done run_id \<and> bp_result p2 = result_json (task_result r) | Inl _ \<Rightarrow> p2 = p1"
      using page(2,3) [of "task_result r"] d p1 by (cases "render (result_json (task_result r))") auto
    then show ?thesis using good p1 lost by blast
  next
    case bad
    then have "\<not> bp_polling p2 \<and> bp_status p2 = Poll_Error (exn_text e) \<and> bp_result p2 = bp_result p"
      using page(4) [of e] p1 by (auto simp: backtest_status_def split: option.splits)
    then show ?thesis using bad p1 lost by blast
  qed
qed

text \<open>
  One lost poll hides the result for good: a single request that fails while the backtest is running switches the
  polling off, and from then on the page never asks again, whatever the service would answer.
\<close>

theorem lost_poll_hides_result:
  assumes "bp_run_id p = Some run_id" and "run_id \<noteq> []" and "bp_polling p"
    and "p' = poll_tick render history (\<lambda>_. poll_run_status exn_text (Inl e)) p"
  shows "bp_status p' = Poll_Error (exn_text e) \<and> bp_result p' = bp_result p \<and>
    fold (\<lambda>(h, answer). poll_tick render h answer) later p' = p'"
proof -
  have p': "p' = p\<lparr>bp_status := Poll_Error (exn_text e), bp_polling := False\<rparr>"
    using assms by (simp add: poll_tick_def on_poll_def poll_run_status_def jstr_def Let_def)
  have "fold (\<lambda>(h, answer). poll_tick render h answer) later p' = p'"
    by (induction later) (auto simp: poll_tick_def p')
  then show ?thesis using p' by simp
qed

section \<open>The chart of a trade\<close>

lemma multiples_below:
  fixes b c :: int
  assumes "0 < b" and "\<And>t. b dvd t \<Longrightarrow> c - int n * b \<le> t \<Longrightarrow> t < c \<Longrightarrow> t \<in> set rows"
  shows "n \<le> length (filter (\<lambda>t. c - int n * b \<le> t \<and> t < c) rows)"
proof -
  define m where "m = (c - 1) div b"
  let ?f = "\<lambda>k. (m - int k) * b"
  have m: "m * b \<le> c - 1" "c - 1 < m * b + b"
    using assms(1) div_mult_mod_eq [of "c - 1" b] pos_mod_bound [of b "c - 1"] pos_mod_sign [of b "c - 1"] unfolding m_def by linarith+
  have "?f k \<in> set (filter (\<lambda>t. c - int n * b \<le> t \<and> t < c) rows)" if "k < n" for k
  proof -
    have "int k * b + b \<le> int n * b" using that assms(1) mult_right_mono [of "int k + 1" "int n" b] by (simp add: distrib_right)
    moreover have "0 \<le> int k * b" using assms(1) by simp
    moreover have "?f k = m * b - int k * b" by (simp add: left_diff_distrib)
    ultimately have "c - int n * b \<le> ?f k" "?f k < c" using m by linarith+
    then show ?thesis using assms(2) [of "?f k"] by simp
  qed
  then have "?f ` {..<n} \<subseteq> set (filter (\<lambda>t. c - int n * b \<le> t \<and> t < c) rows)" by blast
  then have "card (?f ` {..<n}) \<le> length (filter (\<lambda>t. c - int n * b \<le> t \<and> t < c) rows)"
    by (meson List.finite_set card_length card_mono le_trans)
  moreover have "inj_on ?f {..<n}" using assms(1) by (auto intro: inj_onI)
  ultimately show ?thesis by (simp add: card_image)
qed

lemma take_below:
  fixes c :: int
  shows "sorted rows \<Longrightarrow> n \<le> length (filter (\<lambda>t. t < c) rows) \<Longrightarrow> list_all (\<lambda>t. t < c) (take n rows)"
proof (induction rows arbitrary: n)
  case (Cons t rows)
  show ?case
  proof (cases "t < c")
    case True
    then show ?thesis using Cons by (cases n) auto
  next
    case False
    then have "filter (\<lambda>t. t < c) (t # rows) = []" using Cons.prems(1) by (auto simp: filter_empty_conv)
    then show ?thesis using Cons.prems(2) by simp
  qed
qed simp

text \<open>
  The chart of a trade can miss the trade when a bar of the timeframe has three or more source rows: the bounds span
  300 bars on each side, but the limit counts source rows from the earliest one. The database is taken to answer what the
  query asks for, the first rows in order of time within the bounds. When its table has a row for every base
  period of the 300 bars before the trade, all rows of the answer lie before the trade, for 5m, 1h, 4h, 1d and
  1w; for a trade so early that fewer source rows than the limit precede it the chart does show it.
\<close>

theorem trade_chart_misses_trade:
  assumes "tf \<in> {''5m'', ''1h'', ''4h'', ''1d'', ''1w''}" and "sorted rows"
    and "\<And>t. base_period (chart_table tf) dvd t \<Longrightarrow> fst (around_bounds tf 300 center) \<le> t \<Longrightarrow> t < center \<Longrightarrow> t \<in> set rows"
    and "answer = take (nat (around_limit 300))
      (filter (\<lambda>t. fst (around_bounds tf 300 center) \<le> t \<and> t \<le> snd (around_bounds tf 300 center)) rows)"
  shows "length answer = 650 \<and> list_all (\<lambda>t. t < center) answer"
proof -
  let ?b = "base_period (chart_table tf)"
  define n where "n = nat (300 * secs (bar_seconds tf) div ?b)"
  have n: "650 \<le> n" "int n * ?b = secs (300 * bar_seconds tf)" "0 < ?b"
    using assms(1) by (elim insertE emptyE; simp add: n_def chart_table_def bar_seconds_def base_period_def secs_def)+
  have bounds: "around_bounds tf 300 center = (center - int n * ?b, center + int n * ?b)"
    by (simp add: around_bounds_def n(2) Let_def)
  define F where "F = filter (\<lambda>t. center - int n * ?b \<le> t \<and> t \<le> center + int n * ?b) rows"
  have "filter (\<lambda>t. t < center) F = filter (\<lambda>t. center - int n * ?b \<le> t \<and> t < center) rows"
    using n(3) by (auto simp: F_def intro: filter_cong)
  then have "n \<le> length (filter (\<lambda>t. t < center) F)"
    using multiples_below [OF n(3), of center n rows] assms(3) by (simp add: bounds)
  then have F: "650 \<le> length (filter (\<lambda>t. t < center) F)" using n(1) by simp
  then have "650 \<le> length F" using length_filter_le le_trans by blast
  moreover have "sorted F" using assms(2) by (simp add: F_def sorted_wrt_filter)
  moreover have "answer = take 650 F" using assms(4) by (simp add: bounds F_def around_limit_def)
  ultimately show ?thesis using take_below [OF _ F] by simp
qed

section \<open>What the page shows of a run\<close>

lemma gap_lines: "length (filter (\<lambda>l. case l of Gap_Line _ \<Rightarrow> True | _ \<Rightarrow> False) (coverage_lines ts_text delta segs)) = length segs - 1"
  by (induction segs) (auto split: list.splits)

text \<open>
  The coverage shown for a run accounts for the feed: the usable bars of the badge are exactly the bars the strategy saw,
  and the detail has one line for each gap the badge counts.
\<close>

theorem coverage_accounts_for_feed:
  assumes "list_all sane_gap rows" and "questdb_feed (Inr rows) = Inr (kept, segs)"
  shows "coverage_badge segs = Some (length kept, length (filter (\<lambda>l. case l of Gap_Line _ \<Rightarrow> True | _ \<Rightarrow> False)
    (coverage_lines ts_text delta segs)))"
proof -
  have "kept \<noteq> []" using assms(2) by (auto simp: questdb_feed_def Let_def split: if_splits)
  then have "segs \<noteq> []" using segments_cover_feed [OF assms] by auto
  then show ?thesis using segments_cover_feed [OF assms] by (simp add: coverage_badge_def gap_lines)
qed

lemma one_open_segment:
  "list_all row_valid rows \<Longrightarrow> rows \<noteq> [] \<or> st \<noteq> None \<Longrightarrow> length (scan_segments i st prev rows) = 1"
  by (induction i st prev rows rule: scan_segments.induct) (auto split: option.splits)

text \<open>A stretch of time without any row is no gap: whatever the times of the rows, valid rows are one segment.\<close>

lemma missing_rows_are_no_gap:
  "list_all row_valid rows \<Longrightarrow> rows \<noteq> [] \<Longrightarrow> \<exists>n. coverage_badge (find_data_segments rows) = Some (n, 0)"
  using one_open_segment [of rows None 0 0] by (auto simp: coverage_badge_def find_data_segments_def)

text \<open>Row \<open>i\<close> of the trade table is trade \<open>i\<close>, which its chart button opens, and the last column sums up the ones before.\<close>

lemma trades_table_rows:
  "trades_table delta i running ts = Inr rows \<Longrightarrow>
    length rows = length ts \<and> map tw_no rows = map Suc [i..<i + length ts] \<and>
    list_all2 (\<lambda>t r. trade_pnl t = Inr (tw_pnl_net r)) ts rows \<and>
    (rows \<noteq> [] \<longrightarrow> tw_running_pnl (last rows) = foldl (+) running (map tw_pnl_net rows))"
proof (induction ts arbitrary: i running rows)
  case (Cons t ts)
  then obtain row rest where r: "trade_cells delta i running t = Inr row"
    "trades_table delta (Suc i) (tw_running_pnl row) ts = Inr rest" "rows = row # rest"
    by (auto simp: rbind_Inr_iff)
  have row: "tw_no row = Suc i" "trade_pnl t = Inr (tw_pnl_net row)" "tw_running_pnl row = running + tw_pnl_net row"
    using r(1) by (auto simp: trade_cells_def rbind_Inr_iff split: if_splits)
  have "[i..<i + length (t # ts)] = i # [Suc i..<Suc i + length ts]" by (simp add: upt_conv_Cons del: upt_Suc)
  then show ?case using Cons.IH [OF r(2)] row by (cases rest) (auto simp: r(3))
qed simp

lemma field_groups_distinct: "distinct known_fields"
  by code_simp

lemma fields_not_hidden: "list_all (\<lambda>f. f \<notin> set hidden_fields) known_fields"
  by code_simp

lemma concat_nonempty: "concat (map snd (filter (\<lambda>(g, rs). rs \<noteq> []) xs)) = concat (map snd xs)"
  by (induction xs) auto

lemma concat_groups: "concat (map snd (map (\<lambda>(g, fs). (g, map h (filter P fs))) gs)) = map h (filter P (concat (map snd gs)))"
  by (induction gs) auto

lemma dinv_lookup:
  assumes "dinv d"
  shows "(k, v) \<in> set d \<longleftrightarrow> k \<in> set (dkeys d) \<and> v = dget d k x"
proof -
  have "(k, v) \<in> set d \<longleftrightarrow> map_of d k = Some v" using assms by (simp add: dinv_def)
  then show ?thesis by (auto simp: dget_def set_dkeys)
qed

lemma detail_rows:
  "concat (map snd (candle_detail_table other detail)) =
    map (\<lambda>f. (f, cell_of other (dget detail f JNull))) (filter (\<lambda>f. f \<in> set (dkeys detail)) known_fields) @
    map (\<lambda>(k, v). (k, cell_of other v)) (filter (\<lambda>(k, v). k \<notin> set known_fields \<and> k \<notin> set hidden_fields) detail)"
  by (simp add: candle_detail_table_def Let_def concat_nonempty concat_groups known_fields_def del: map_map)

text \<open>
  The table of a candle shows every column of the row exactly once, grouped or under Other, but for the
  time, the market and the two JSON columns, and nothing else; no group without a row is shown.
\<close>

theorem candle_detail_complete:
  assumes "dinv detail"
  shows "distinct (map fst (concat (map snd (candle_detail_table other detail)))) \<and>
    set (concat (map snd (candle_detail_table other detail))) =
      (\<lambda>(k, v). (k, cell_of other v)) ` {(k, v) \<in> set detail. k \<notin> set hidden_fields} \<and>
    [] \<notin> set (map snd (candle_detail_table other detail))"
proof (intro conjI)
  let ?ex = "filter (\<lambda>(k, v). k \<notin> set known_fields \<and> k \<notin> set hidden_fields) detail"
  have "map fst (map (\<lambda>(k, v). (k, cell_of other v)) ?ex) = map fst ?ex" by auto
  moreover have "distinct (map fst ?ex)" using assms by (simp add: dinv_def distinct_map_filter)
  moreover have "fst ` set ?ex \<inter> set known_fields = {}" by auto
  ultimately show "distinct (map fst (concat (map snd (candle_detail_table other detail))))"
    using field_groups_distinct unfolding detail_rows by (simp add: comp_def case_prod_unfold Int_commute) (auto simp: case_prod_unfold)
  have known: "k \<notin> set hidden_fields" if "k \<in> set known_fields" for k
    using that fields_not_hidden by (simp add: list_all_iff)
  show "set (concat (map snd (candle_detail_table other detail))) =
      (\<lambda>(k, v). (k, cell_of other v)) ` {(k, v) \<in> set detail. k \<notin> set hidden_fields}"
    unfolding detail_rows using known dinv_lookup [OF assms, of _ _ JNull] by (auto simp: image_iff)
  show "[] \<notin> set (map snd (candle_detail_table other detail))"
    by (auto simp: candle_detail_table_def Let_def)
qed

section \<open>Instances\<close>

definition sample_page :: bt_page where
  "sample_page = \<lparr>bp_run_id = Some ''r1'', bp_status = Running ''r1'', bp_polling = True, bp_result = [], bp_trades = JList [],
     bp_segments = JList [], bp_history = [], bp_candles = [], bp_trade_idx = None, bp_chart_open = False\<rparr>"

lemma backtest_end_reaches_page_witness:
  "bp_status (poll_tick (\<lambda>_. Inr ()) [] (poll_service (\<lambda>_. ''e'') (\<lambda>r. [(''hash'', JStr (br_hash r))])
      (snd (run_backtest_task (Inr sample_result) (Inr ''code'') (\<lambda>q. Inl HTTPError) (\<lambda>x. Inr ()) ''r1''
        (put_result ''r1'' RunRunning api_init)))) sample_page) = Done ''r1''"
proof -
  let ?a = "put_result ''r1'' RunRunning api_init"
  have run: "map_of (ap_results ?a) ''r1'' = Some RunRunning" and ok: "api_ok ?a"
    by (simp_all add: put_result_def put_capped_lookup length_put_capped dinv_put_capped api_init_def backtest_results_max_def api_ok_def)
  show ?thesis
    using backtest_end_reaches_page [where p = sample_page and run_id = "''r1''" and a = ?a and outcome = "Inr sample_result"
        and decoded = "Inr ''code''" and db = "\<lambda>q. Inl HTTPError" and store = "\<lambda>x. Inr ()" and render = "\<lambda>_. Inr ()"
        and result_json = "\<lambda>r. [(''hash'', JStr (br_hash r))]" and history = "[]" and exn_text = "\<lambda>_. ''e''" and n = 0,
        OF _ _ _ ok run prod.collapse [symmetric] refl refl]
    by (auto simp: sample_page_def)
qed

lemma trade_chart_misses_trade_witness:
  "\<exists>answer :: int list. length answer = 650 \<and> list_all (\<lambda>t. t < secs 1080000) answer"
proof -
  let ?rows = "map (\<lambda>k. int k * secs 900) [0..<1200]"
  have s: "sorted ?rows"
    by (simp add: sorted_map secs_def sorted_wrt_upt sorted_wrt_mono_rel [OF _ sorted_wrt_upt] del: upt_Suc)
  have m: "t \<in> set ?rows" if t: "base_period (chart_table ''1h'') dvd t"
    "fst (around_bounds ''1h'' 300 (secs 1080000)) \<le> t" "t < secs 1080000" for t
  proof -
    from t have b: "secs 900 dvd t" "0 \<le> t"
      by (simp_all add: base_period_def chart_table_def around_bounds_def bar_seconds_def secs_def)
    then obtain k where k: "t = secs 900 * k" by (elim dvdE)
    then have "0 \<le> k" "k < 1200" using b(2) t(3) by (simp_all add: secs_def)
    then have "t = int (nat k) * secs 900" "nat k \<in> {0..<1200}" using k by auto
    then show ?thesis unfolding set_map set_upt by blast
  qed
  show ?thesis using trade_chart_misses_trade [of "''1h''", OF _ s m refl] by blast
qed

lemma candle_detail_complete_witness:
  "distinct (map fst (concat (map snd (candle_detail_table (\<lambda>_. []) [(''open'', JInt 1), (''ts'', JStr ''t''), (''x'', JNull)]))))"
  using candle_detail_complete [of "[(''open'', JInt 1), (''ts'', JStr ''t''), (''x'', JNull)]" "\<lambda>_. []"] by (simp add: dinv_def)

end
