(* ===== verification/Dash_Bots.thy ===== *)
theory Dash_Bots
  imports Dash_Bars
begin

text \<open>
  The bots page of the dashboard: \<open>dashboard/bot_data.py\<close> and the callbacks of \<open>dashboard/callbacks_bots.py\<close>. Arguments:
  the answers of service and database, the clock, \<open>ksum\<close> (the sum of pandas), \<open>numeric\<close> (its conversion to a number, NaN
  where that fails) and \<open>when\<close> (its conversion to an instant).
\<close>

section \<open>Queries\<close>

definition mode_filter :: "bool \<Rightarrow> string" where
  "mode_filter paper = (if paper then ''paper_trading = true'' else ''paper_trading = false'')"

definition bot_rows :: "(string \<Rightarrow> json res) \<Rightarrow> string \<Rightarrow> (string, json) dict list" where
  "bot_rows db sql =
     (case rbind (db sql) (\<lambda>body. rbind (jin ''error'' body) (\<lambda>bad. if bad then Inr [] else dataset_rows body)) of
        Inl e \<Rightarrow> [] | Inr rows \<Rightarrow> rows)"

definition overview_query :: "bool \<Rightarrow> string" where
  "overview_query paper =
     ''SELECT strategy, exchange, symbol, count() AS trade_count, round(sum(realized_pnl), 4) AS total_pnl, '' @
     ''round(avg(realized_pnl), 4) AS avg_pnl_per_trade, '' @
     ''round(sum(CASE WHEN realized_pnl > 0 THEN 1.0 ELSE 0.0 END) / count() * 100.0, 1) AS win_rate_pct, '' @
     ''max(ts) AS last_trade_ts FROM order_events WHERE status = '' @ quoted ''filled'' @ '' AND '' @ mode_filter paper @
     '' AND backtest = false GROUP BY strategy, exchange, symbol ORDER BY total_pnl DESC''"

definition total_query :: "bool \<Rightarrow> string" where
  "total_query paper =
     ''SELECT round(sum(realized_pnl), 4) AS total_pnl FROM order_events WHERE status = '' @ quoted ''filled'' @
     '' AND '' @ mode_filter paper @ '' AND backtest = false''"

definition fetch_total_pnl :: "(string \<Rightarrow> json res) \<Rightarrow> bool \<Rightarrow> f64 res" where
  "fetch_total_pnl db paper =
     (case bot_rows db (total_query paper) of
        [] \<Rightarrow> Inr (Fin 0)
      | r # _ \<Rightarrow> if dget r ''total_pnl'' JNull = JNull then Inr (Fin 0) else jfloat (dget r ''total_pnl'' JNull))"

text \<open>The trades of one bot: the rows of backtests are not excluded, and the oldest ones are taken.\<close>

definition bot_trades_query :: "string \<Rightarrow> string \<Rightarrow> string \<Rightarrow> bool \<Rightarrow> int \<Rightarrow> string" where
  "bot_trades_query strategy ex sy paper limit =
     ''SELECT ts, side, filled_size, avg_fill_price, round(realized_pnl, 4) AS realized_pnl, signal_type, order_id '' @
     ''FROM order_events WHERE strategy = '' @ quoted strategy @ '' AND exchange = '' @ quoted ex @
     '' AND symbol = '' @ quoted sy @ '' AND status = '' @ quoted ''filled'' @ '' AND '' @ mode_filter paper @
     '' ORDER BY ts ASC LIMIT '' @ int_str limit"

definition fetch_bot_trades :: "(string \<Rightarrow> json res) \<Rightarrow> string \<Rightarrow> string \<Rightarrow> string \<Rightarrow> bool \<Rightarrow> (string, json) dict list" where
  "fetch_bot_trades db strategy ex sy paper =
     (if list_all ident_ok [strategy, ex, sy] then bot_rows db (bot_trades_query strategy ex sy paper 500) else [])"

section \<open>Merging running bots and trade statistics\<close>

definition uptime_text :: "int \<Rightarrow> string" where
  "uptime_text elapsed =
     (if elapsed < 0 then ''0m''
      else let days = elapsed div 86400; hours = elapsed mod 86400 div 3600; minutes = elapsed mod 3600 div 60 in
        if days \<noteq> 0 then int_str days @ ''d '' @ int_str hours @ ''h '' @ int_str minutes @ ''m''
        else if hours \<noteq> 0 then int_str hours @ ''h '' @ int_str minutes @ ''m''
        else int_str minutes @ ''m'')"

definition format_uptime :: "f64 \<Rightarrow> json \<Rightarrow> string option res" where
  "format_uptime now started =
     (case started of
        JNull \<Rightarrow> Inr None
      | JStr _ \<Rightarrow> Inl TypeError | JList _ \<Rightarrow> Inl TypeError | JObj _ \<Rightarrow> Inl TypeError
      | _ \<Rightarrow> rbind (jfloat started) (\<lambda>x. rbind (int_of_f64 (now - x)) (\<lambda>n. Inr (Some (uptime_text n)))))"

type_synonym bot_key = "json \<times> json \<times> json"

definition stats_key :: "(string, json) dict \<Rightarrow> bot_key res" where
  "stats_key row =
     rbind (of_option KeyError (map_of row ''strategy'')) (\<lambda>s.
       Inr (s, dget row ''exchange'' (JStr []), dget row ''symbol'' (JStr [])))"

definition stats_index :: "(string, json) dict list \<Rightarrow> (bot_key, (string, json) dict) dict res" where
  "stats_index rows = rbind (rmap (\<lambda>r. rbind (stats_key r) (\<lambda>k. Inr (k, r))) rows) (\<lambda>kvs. Inr (fold (\<lambda>(k, r). dset k r) kvs []))"

definition or_blank :: "json \<Rightarrow> json" where
  "or_blank j = (if jtruthy j then j else JStr [])"

definition bot_key_of :: "(string, json) dict \<Rightarrow> bot_key" where
  "bot_key_of rb = (dget rb ''name'' (JStr []), or_blank (dget rb ''exchange'' JNull), or_blank (dget rb ''symbol'' JNull))"

definition in_mode :: "bool \<Rightarrow> (string, json) dict \<Rightarrow> bool" where
  "in_mode paper rb = (let v = dget rb ''paper_trading'' JNull in v = JNull \<or> jtruthy v = paper)"

record merged_bot =
  mb_key :: bot_key
  mb_tf :: json
  mb_status :: json
  mb_uptime :: "string option"
  mb_stop_loss_pct :: json
  mb_max_position_pct :: json
  mb_trade_count :: json
  mb_win_rate_pct :: json
  mb_total_pnl :: "f64 option"
  mb_avg_pnl :: "f64 option"
  mb_last_trade_ts :: "string option"

definition opt_float :: "json \<Rightarrow> f64 option res" where
  "opt_float j = (if j = JNull then Inr None else rbind (jfloat j) (\<lambda>x. Inr (Some x)))"

definition merge_bot ::
  "(json \<Rightarrow> string) \<Rightarrow> f64 \<Rightarrow> (bot_key, (string, json) dict) dict \<Rightarrow> (string, json) dict \<Rightarrow> merged_bot res" where
  "merge_bot other now index rb =
     (let stats = dget index (bot_key_of rb) []; last_ts = dget stats ''last_trade_ts'' JNull in
      rbind (format_uptime now (dget rb ''started_at'' JNull)) (\<lambda>up.
      rbind (opt_float (dget stats ''total_pnl'' JNull)) (\<lambda>total.
      rbind (opt_float (dget stats ''avg_pnl_per_trade'' JNull)) (\<lambda>avg.
        Inr \<lparr>mb_key = bot_key_of rb, mb_tf = dget rb ''tf'' JNull, mb_status = dget rb ''status'' (JStr ''unknown''),
             mb_uptime = up, mb_stop_loss_pct = dget rb ''stop_loss_pct'' JNull,
             mb_max_position_pct = dget rb ''max_position_pct'' JNull, mb_trade_count = dget stats ''trade_count'' JNull,
             mb_win_rate_pct = dget stats ''win_rate_pct'' JNull, mb_total_pnl = total, mb_avg_pnl = avg,
             mb_last_trade_ts = (if jtruthy last_ts then Some (take 19 (jstr other last_ts)) else None)\<rparr>))))"

definition merge_bots ::
  "(json \<Rightarrow> string) \<Rightarrow> f64 \<Rightarrow> (string, json) dict list \<Rightarrow> (string, json) dict list \<Rightarrow> bool \<Rightarrow> merged_bot list res" where
  "merge_bots other now running stats paper =
     rbind (stats_index stats) (\<lambda>index. rmap (merge_bot other now index) (filter (in_mode paper) running))"

section \<open>Metrics\<close>

definition pnl_column :: "(json \<Rightarrow> f64) \<Rightarrow> (string, json) dict list \<Rightarrow> f64 list" where
  "pnl_column numeric trades =
     map (\<lambda>t. let x = numeric (dget t ''realized_pnl'' JNull) in if is_nan x then Fin 0 else x) trades"

fun cumulative :: "f64 \<Rightarrow> f64 list \<Rightarrow> f64 list" where
  "cumulative acc [] = []"
| "cumulative acc (x # xs) = (acc + x) # cumulative (acc + x) xs"

definition cumsum_of :: "f64 list \<Rightarrow> f64 list" where
  "cumsum_of xs = (case xs of [] \<Rightarrow> [] | x # ys \<Rightarrow> x # cumulative x ys)"

fun cummax_from :: "f64 \<Rightarrow> f64 list \<Rightarrow> f64 list" where
  "cummax_from m [] = []"
| "cummax_from m (x # xs) = py_max m x # cummax_from (py_max m x) xs"

definition cummax_of :: "f64 list \<Rightarrow> f64 list" where
  "cummax_of xs = (case xs of [] \<Rightarrow> [] | x # ys \<Rightarrow> x # cummax_from x ys)"

record bot_metrics =
  bm_trade_count :: nat
  bm_total_pnl :: f64
  bm_win_rate :: f64
  bm_max_drawdown :: f64
  bm_avg_pnl :: f64

definition compute_bot_metrics :: "(f64 list \<Rightarrow> f64) \<Rightarrow> (json \<Rightarrow> f64) \<Rightarrow> (string, json) dict list \<Rightarrow> bot_metrics" where
  "compute_bot_metrics ksum numeric trades =
     (if trades = [] then \<lparr>bm_trade_count = 0, bm_total_pnl = Fin 0, bm_win_rate = Fin 0, bm_max_drawdown = Fin 0, bm_avg_pnl = Fin 0\<rparr>
      else
        let pnl = pnl_column numeric trades; n = length trades;
            wins = length (filter (\<lambda>x. Fin 0 < x) pnl);
            equity = cumsum_of pnl; drawdown = map2 (-) equity (cummax_of equity) in
        \<lparr>bm_trade_count = n, bm_total_pnl = py_round (ksum pnl) 4,
         bm_win_rate = py_round (fdiv (of_nat_f64 wins) (of_nat_f64 n) * Fin 100) 1,
         bm_max_drawdown = py_round (fold py_min (tl drawdown) (hd drawdown)) 4,
         bm_avg_pnl = py_round (fdiv (ksum pnl) (of_nat_f64 n)) 4\<rparr>)"

text \<open>Trades without a readable time are left out of the equity curve but not of the metrics.\<close>

definition compute_equity_curve ::
  "(json \<Rightarrow> int option) \<Rightarrow> (json \<Rightarrow> f64) \<Rightarrow> (string, json) dict list \<Rightarrow> (int \<times> f64 \<times> f64) list" where
  "compute_equity_curve when numeric trades =
     (let rows = map (\<lambda>t. (when (dget t ''ts'' JNull), t)) trades;
          timed = sort_key fst (map (\<lambda>(w, t). (the w, t)) (filter (\<lambda>(w, t). w \<noteq> None) rows));
          pnl = pnl_column numeric (map snd timed) in
      zip (map fst timed) (zip (cumsum_of pnl) pnl))"

section \<open>The page\<close>

record bot_selected =
  bs_key :: bot_key
  bs_mode :: string

definition select_bot :: "nat list \<Rightarrow> merged_bot list \<Rightarrow> string \<Rightarrow> bot_selected option" where
  "select_bot selected_rows lb_data mode =
     (case selected_rows of
        [] \<Rightarrow> None
      | i # _ \<Rightarrow> if lb_data = [] \<or> length lb_data \<le> i then None else Some \<lparr>bs_key = mb_key (lb_data ! i), bs_mode = mode\<rparr>)"

definition refresh_bot_overview ::
  "(json \<Rightarrow> string) \<Rightarrow> f64 \<Rightarrow> (string \<Rightarrow> json res) \<Rightarrow> (string, json) dict list res \<Rightarrow> string \<Rightarrow>
   (f64 \<times> merged_bot list) res" where
  "refresh_bot_overview other now db running_answer mode =
     (let paper = (mode = ''paper''); running = (case running_answer of Inl e \<Rightarrow> [] | Inr r \<Rightarrow> r) in
      rbind (fetch_total_pnl db paper) (\<lambda>total.
      rbind (merge_bots other now running (bot_rows db (overview_query paper)) paper) (\<lambda>merged.
        Inr (total, merged))))"

section \<open>Properties\<close>

lemma stats_index_lookup:
  assumes "stats_index rows = Inr index"
  shows "map_of index k = map_option id (List.find (\<lambda>r. stats_key r = Inr k) (rev rows))"
proof -
  obtain kvs where kvs: "rmap (\<lambda>r. rbind (stats_key r) (\<lambda>k. Inr (k, r))) rows = Inr kvs" "index = fold (\<lambda>(k, r). dset k r) kvs []"
    using assms by (auto simp: stats_index_def rbind_Inr_iff)
  have "list_all2 (\<lambda>r kv. stats_key r = Inr (fst kv) \<and> snd kv = r) rows kvs"
    using kvs(1) unfolding rmap_Inr_iff by (auto simp: rbind_Inr_iff elim!: list_all2_mono)
  then have "map_of (fold (\<lambda>(k, r). dset k r) kvs []) k = List.find (\<lambda>r. stats_key r = Inr k) (rev rows)"
  proof (induction rows arbitrary: kvs rule: rev_induct)
    case (snoc r rows)
    then obtain kv kvs' where "kvs = kvs' @ [kv]" "list_all2 (\<lambda>r kv. stats_key r = Inr (fst kv) \<and> snd kv = r) rows kvs'"
      "stats_key r = Inr (fst kv)" "snd kv = r" by (auto simp: list_all2_append1 list_all2_Cons1)
    then show ?case using snoc.IH [of kvs'] by (cases kv) auto
  qed simp
  then show ?thesis by (simp add: kvs(2) option.map_id)
qed

text \<open>
  The leaderboard shows every running bot of the mode: one row per bot, in the order of the service, each with its own
  numbers from the last row of the statistics with exactly its strategy, exchange and symbol, and empty cells if there
  is none; bots that do not run are not shown.
\<close>

theorem leaderboard_shows_running_bots:
  assumes "merge_bots other now running stats paper = Inr rows"
  shows "map mb_key rows = map bot_key_of (filter (in_mode paper) running) \<and>
    list_all (\<lambda>m. case List.find (\<lambda>s. stats_key s = Inr (mb_key m)) (rev stats) of
        None \<Rightarrow> mb_trade_count m = JNull \<and> mb_total_pnl m = None
      | Some s \<Rightarrow> mb_trade_count m = dget s ''trade_count'' JNull \<and> opt_float (dget s ''total_pnl'' JNull) = Inr (mb_total_pnl m)) rows"
proof -
  obtain index where i: "stats_index stats = Inr index" "rmap (merge_bot other now index) (filter (in_mode paper) running) = Inr rows"
    using assms by (auto simp: merge_bots_def rbind_Inr_iff)
  have row: "mb_key m = bot_key_of b \<and> mb_trade_count m = dget (dget index (bot_key_of b) []) ''trade_count'' JNull \<and>
      opt_float (dget (dget index (bot_key_of b) []) ''total_pnl'' JNull) = Inr (mb_total_pnl m)"
    if "merge_bot other now index b = Inr m" for b m
    using that by (auto simp: merge_bot_def Let_def rbind_Inr_iff)
  have all: "list_all2 (\<lambda>b m. merge_bot other now index b = Inr m) (filter (in_mode paper) running) rows"
    using i(2) by (simp add: rmap_Inr_iff)
  then have "list_all2 (\<lambda>b m. bot_key_of b = mb_key m) (filter (in_mode paper) running) rows"
    by (rule list_all2_mono) (use row in simp)
  then have "map mb_key rows = map bot_key_of (filter (in_mode paper) running)"
    by (simp add: list_all2_conv_all_nth list_eq_iff_nth_eq)
  moreover have "case List.find (\<lambda>s. stats_key s = Inr (mb_key m)) (rev stats) of
        None \<Rightarrow> mb_trade_count m = JNull \<and> mb_total_pnl m = None
      | Some s \<Rightarrow> mb_trade_count m = dget s ''trade_count'' JNull \<and> opt_float (dget s ''total_pnl'' JNull) = Inr (mb_total_pnl m)"
    if mem: "m \<in> set rows" for m
  proof -
    obtain b where "merge_bot other now index b = Inr m"
      using list_all2_nthD2 [OF all] mem unfolding in_set_conv_nth by metis
    then show ?thesis
      using row [of b m] stats_index_lookup [OF i(1), of "mb_key m"] by (auto simp: dget_def opt_float_def split: option.splits)
  qed
  ultimately show ?thesis by (simp add: list_all_iff)
qed

text \<open>A loss of the first trades is no drawdown: the running maximum starts at the equity after the first trade.\<close>

lemma first_loss_is_no_drawdown:
  assumes "numeric (dget t ''realized_pnl'' JNull) = Fin x" and "fl x = Fin x"
  shows "bm_max_drawdown (compute_bot_metrics ksum numeric [t]) = Fin 0"
  using assms by (simp add: compute_bot_metrics_def pnl_column_def cumsum_of_def cummax_of_def Let_def is_nan_def py_round_def rhe_of_int [of 0, simplified])

lemma leaderboard_shows_running_bots_witness:
  "map mb_key [\<lparr>mb_key = (JStr ''ma'', JStr ''bybit'', JStr ''X''), mb_tf = JNull, mb_status = JStr ''unknown'', mb_uptime = None,
      mb_stop_loss_pct = JNull, mb_max_position_pct = JNull, mb_trade_count = JNull, mb_win_rate_pct = JNull, mb_total_pnl = None,
      mb_avg_pnl = None, mb_last_trade_ts = None\<rparr>] =
    map bot_key_of (filter (in_mode True) [[(''name'', JStr ''ma''), (''exchange'', JStr ''bybit''), (''symbol'', JStr ''X'')]])"
proof (rule leaderboard_shows_running_bots [THEN conjunct1])
  show "merge_bots (\<lambda>_. []) (Fin 0) [[(''name'', JStr ''ma''), (''exchange'', JStr ''bybit''), (''symbol'', JStr ''X'')]] [] True =
    Inr [\<lparr>mb_key = (JStr ''ma'', JStr ''bybit'', JStr ''X''), mb_tf = JNull, mb_status = JStr ''unknown'', mb_uptime = None,
      mb_stop_loss_pct = JNull, mb_max_position_pct = JNull, mb_trade_count = JNull, mb_win_rate_pct = JNull, mb_total_pnl = None,
      mb_avg_pnl = None, mb_last_trade_ts = None\<rparr>]"
    by (simp add: merge_bots_def stats_index_def in_mode_def merge_bot_def format_uptime_def opt_float_def bot_key_of_def or_blank_def
        jtruthy_def dget_def Let_def)
qed

end
