(* ===== verification/Dash_Charts.thy ===== *)
theory Dash_Charts
  imports Dash_Bots "HOL-Library.Multiset" "HOL-Library.Sublist"
begin

text \<open>
  The figures of the candle page as data: what \<open>dashboard/charts.py\<close> computes for each of its traces, and the footprint
  window of \<open>dashboard/callbacks.py\<close>. A missing or unreadable number is NaN; columns that are absent leave the figure
  empty and are not modelled. Arguments: \<open>loads\<close>, the JSON parser; \<open>fr\<close>, the text of a float; \<open>ksum\<close>, the sum of
  pandas; and \<open>stamp\<close>, the time stamps of pandas.
\<close>

record bar_row =
  cb_ts :: "int option"
  cb_high :: f64
  cb_low :: f64
  cb_close :: f64
  cb_buy :: f64
  cb_volume :: f64

definition usable :: "bar_row \<Rightarrow> bool" where
  "usable r = (cb_ts r \<noteq> None \<and> \<not> is_nan (cb_buy r) \<and> \<not> is_nan (cb_volume r))"

definition by_time :: "bar_row list \<Rightarrow> bar_row list" where
  "by_time rows = sort_key (\<lambda>r. the (cb_ts r)) (filter usable rows)"

section \<open>Cumulative volume delta\<close>

definition delta_of :: "bar_row \<Rightarrow> f64" where
  "delta_of r = Fin 2 * cb_buy r - cb_volume r"

text \<open>\<open>clip(lower=0)\<close> and \<open>clip(upper=0)\<close>: a missing value stays missing.\<close>

definition clip_low0 :: "f64 \<Rightarrow> f64" where
  "clip_low0 x = (if x < Fin 0 then Fin 0 else x)"

definition clip_up0 :: "f64 \<Rightarrow> f64" where
  "clip_up0 x = (if Fin 0 < x then Fin 0 else x)"

record cvd_panel =
  cv_ts :: "int list"
  cv_values :: "f64 list"
  cv_pos :: "f64 list"
  cv_neg :: "f64 list"

definition build_cvd_panel :: "bar_row list \<Rightarrow> cvd_panel" where
  "build_cvd_panel rows =
     (let df = by_time rows; cvd = cumsum_of (map delta_of df) in
      \<lparr>cv_ts = map (\<lambda>r. the (cb_ts r)) df, cv_values = cvd, cv_pos = map clip_low0 cvd, cv_neg = map clip_up0 cvd\<rparr>)"

section \<open>Volumes on bid and ask\<close>

record bidask_panel =
  ba_ask :: "f64 list"
  ba_bid :: "f64 list"
  ba_ratio :: "f64 list"

definition ratio_of :: "bar_row \<Rightarrow> f64" where
  "ratio_of r = (let q = fdiv (cb_buy r) (cb_volume r) in if q < Fin 0 then Fin 0 else if Fin 1 < q then Fin 1 else q)"

definition build_bidask_panel :: "bar_row list \<Rightarrow> bidask_panel" where
  "build_bidask_panel rows =
     (let df = filter (\<lambda>r. Fin 0 < cb_volume r) (by_time rows) in
      \<lparr>ba_ask = map cb_buy df, ba_bid = map (\<lambda>r. - (cb_volume r - cb_buy r)) df, ba_ratio = map ratio_of df\<rparr>)"

section \<open>Bubbles\<close>

definition bubble_size :: "f64 \<Rightarrow> f64 \<Rightarrow> f64" where
  "bubble_size max_vol v = (let s = fdiv v max_vol * Fin 30 in if s < Fin 4 then Fin 4 else s)"

definition volume_bubbles :: "bar_row list \<Rightarrow> (f64 \<times> f64 \<times> bool) list" where
  "volume_bubbles rows =
     (let valid = filter (\<lambda>r. \<not> is_nan (cb_buy r) \<and> \<not> is_nan (cb_volume r) \<and> Fin 0 < cb_volume r) rows;
          max_vol = fold py_max (map cb_volume (tl valid)) (cb_volume (hd valid)) in
      map (\<lambda>r. (fdiv (cb_high r + cb_low r) (Fin 2), bubble_size max_vol (cb_volume r),
                Fin (1 / 2) < fdiv (cb_buy r) (cb_volume r))) valid)"

section \<open>Volume by price\<close>

definition rint :: "f64 \<Rightarrow> f64" where
  "rint x = (case x of Fin r \<Rightarrow> Fin (of_int (rhe r)) | _ \<Rightarrow> x)"

definition price_level :: "f64 \<Rightarrow> f64 \<Rightarrow> f64" where
  "price_level bucket close = rint (fdiv close bucket) * bucket"

fun insert_asc :: "f64 \<Rightarrow> f64 list \<Rightarrow> f64 list" where
  "insert_asc x [] = [x]"
| "insert_asc x (y # ys) = (if y < x then y # insert_asc x ys else x # y # ys)"

text \<open>\<open>groupby(...).sum()\<close>: ascending levels, the missing one left out.\<close>

definition level_volumes :: "(f64 list \<Rightarrow> f64) \<Rightarrow> (f64 \<times> f64) list \<Rightarrow> (f64 \<times> f64) list" where
  "level_volumes ksum lvs =
     (let ls = foldr insert_asc (remdups (filter (\<lambda>l. \<not> is_nan l) (map fst lvs))) [] in
      map (\<lambda>l. (l, ksum (filter (\<lambda>v. \<not> is_nan v) (map snd (filter (\<lambda>(k, v). k = l) lvs))))) ls)"

definition build_vol_profile :: "(f64 list \<Rightarrow> f64) \<Rightarrow> bar_row list \<Rightarrow> (f64 \<times> f64) list" where
  "build_vol_profile ksum rows =
     (let df = filter (\<lambda>r. \<not> is_nan (cb_close r) \<and> \<not> is_nan (cb_volume r)) rows in
      if df = [] then []
      else
        let cs = map cb_close df; range = fold py_max (tl cs) (hd cs) - fold py_min (tl cs) (hd cs) in
        if range \<le> Fin 0 then []
        else
          let bucket = py_max (fdiv range (Fin 50)) (fl (1 / 100)) in
          level_volumes ksum (map (\<lambda>r. (price_level bucket (cb_close r), cb_volume r)) df))"

section \<open>The footprint\<close>

text \<open>The longest run of adjacent imbalanced levels.\<close>

fun longest_run_from :: "nat \<Rightarrow> nat \<Rightarrow> bool list \<Rightarrow> nat" where
  "longest_run_from m c [] = m"
| "longest_run_from m c (f # fs) =
     (let c' = (if f then c + 1 else 0) in longest_run_from (max m c') c' fs)"

definition longest_run :: "bool list \<Rightarrow> nat" where
  "longest_run flags = longest_run_from 0 0 flags"

record footprint_chart =
  fc_prices :: "f64 list"
  fc_buy :: "f64 list"
  fc_sell :: "f64 list"
  fc_buy_imbalanced :: "bool list"
  fc_sell_imbalanced :: "bool list"
  fc_single_print :: "bool list"
  fc_stack_buy :: nat
  fc_stack_sell :: nat
  fc_single_prints :: nat

text \<open>\<open>sorted(..., reverse=True)\<close> of pairs of a number and its text.\<close>

definition desc_less :: "f64 \<times> string \<Rightarrow> f64 \<times> string \<Rightarrow> bool" where
  "desc_less x y = (fst x < fst y \<or> feq (fst x) (fst y) \<and> snd x < snd y)"

fun insert_desc :: "f64 \<times> string \<Rightarrow> (f64 \<times> string) list \<Rightarrow> (f64 \<times> string) list" where
  "insert_desc x [] = [x]"
| "insert_desc x (y # ys) = (if desc_less x y then y # insert_desc x ys else x # y # ys)"

definition cell_volumes :: "json \<Rightarrow> (f64 \<times> f64) res" where
  "cell_volumes cell =
     (let c = (case cell of JObj _ \<Rightarrow> cell | _ \<Rightarrow> JObj []) in
      rbind (cell_amount c ''b'') (\<lambda>b. rbind (cell_amount c ''s'') (\<lambda>s. Inr (b, s))))"

definition buy_imbalance :: "f64 \<times> f64 \<Rightarrow> bool" where
  "buy_imbalance v = (Fin 0 < snd v \<and> Fin 3 * snd v < fst v)"

definition sell_imbalance :: "f64 \<times> f64 \<Rightarrow> bool" where
  "sell_imbalance v = (Fin 0 < fst v \<and> Fin 3 * fst v < snd v)"

text \<open>A failure anywhere leaves the figure without traces.\<close>

definition build_footprint_chart ::
  "(f64 \<Rightarrow> string) \<Rightarrow> (string \<Rightarrow> json option) \<Rightarrow> string \<Rightarrow> string set option \<Rightarrow> footprint_chart option" where
  "build_footprint_chart fr loads text levels =
     (case loads text of
        Some (JObj fp) \<Rightarrow>
          if fp = [] then None
          else (case rmap (\<lambda>k. rbind (of_option ValueError (py_float k)) (\<lambda>x. Inr (x, k))) (dkeys fp) of
            Inl e \<Rightarrow> None
          | Inr keyed \<Rightarrow>
              (let pairs = foldr insert_desc keyed [] in
               case rmap (\<lambda>(x, k). cell_volumes (dget fp k JNull)) pairs of
                 Inl e \<Rightarrow> None
               | Inr vols \<Rightarrow>
                   (let buy = map buy_imbalance vols; sell = map sell_imbalance vols;
                        single = map (\<lambda>(x, k). case levels of None \<Rightarrow> False | Some ls \<Rightarrow> fr x \<in> ls) pairs in
                    Some \<lparr>fc_prices = map fst pairs, fc_buy = map fst vols, fc_sell = map (\<lambda>v. - snd v) vols,
                          fc_buy_imbalanced = buy, fc_sell_imbalanced = sell, fc_single_print = single,
                          fc_stack_buy = longest_run buy, fc_stack_sell = longest_run sell,
                          fc_single_prints = length (filter id single)\<rparr>)))
      | _ \<Rightarrow> None)"

section \<open>The footprint window\<close>

text \<open>
  A time stamp of pandas has a time zone or not, and \<open>==\<close> between the two kinds is false. \<open>floor("s")\<close> cuts off the
  fraction.
\<close>

type_synonym pd_stamp = "bool \<times> int"

definition floor_second :: "pd_stamp \<Rightarrow> pd_stamp" where
  "floor_second s = (fst s, snd s div 1000000 * 1000000)"

definition clicked_row ::
  "(string \<Rightarrow> pd_stamp option) \<Rightarrow> string \<Rightarrow> (string, json) dict list \<Rightarrow> (string, json) dict option" where
  "clicked_row stamp clicked rows =
     (case stamp clicked of
        None \<Rightarrow> None
      | Some c \<Rightarrow>
          List.find (\<lambda>r. case dget r ''ts'' (JStr []) of
              JStr t \<Rightarrow> (case stamp t of Some s \<Rightarrow> floor_second s = floor_second c | None \<Rightarrow> False)
            | _ \<Rightarrow> False) rows)"

text \<open>The single print levels: an unreadable list counts as none, a level that is no number as well.\<close>

definition single_levels :: "(f64 \<Rightarrow> string) \<Rightarrow> (string \<Rightarrow> json option) \<Rightarrow> json \<Rightarrow> string set option" where
  "single_levels fr loads j =
     (case j of
        JStr t \<Rightarrow>
          if t = [] then None
          else (case loads t of
            Some (JList ps) \<Rightarrow>
              (case rmap (\<lambda>p. case p of JStr s \<Rightarrow> rbind (of_option ValueError (py_float s)) (\<lambda>x. Inr (fr x)) | _ \<Rightarrow> Inl OtherError)
                  (filter (\<lambda>p. case p of JStr _ \<Rightarrow> True | _ \<Rightarrow> False) ps) of
                 Inl e \<Rightarrow> None | Inr ts \<Rightarrow> Some (set ts))
          | _ \<Rightarrow> None)
      | _ \<Rightarrow> None)"

definition open_footprint_modal ::
  "(f64 \<Rightarrow> string) \<Rightarrow> (string \<Rightarrow> json option) \<Rightarrow> (string \<Rightarrow> pd_stamp option) \<Rightarrow> string option \<Rightarrow> (string, json) dict list \<Rightarrow>
   footprint_chart option" where
  "open_footprint_modal fr loads stamp clicked rows =
     (case clicked of
        None \<Rightarrow> None
      | Some c \<Rightarrow>
          (case clicked_row stamp c rows of
             None \<Rightarrow> None
           | Some row \<Rightarrow>
               (case dget row ''footprint_json'' JNull of
                  JStr fp \<Rightarrow>
                    if fp = [] then None
                    else build_footprint_chart fr loads fp (single_levels fr loads (dget row ''single_print_levels_json'' JNull))
                | _ \<Rightarrow> None)))"

section \<open>Properties\<close>

lemma lead_prefix: "n \<le> length (takeWhile (\<lambda>a. a) fs) \<longleftrightarrow> prefix (replicate n True) fs"
proof (induction fs arbitrary: n)
  case (Cons f fs)
  show ?case by (cases n) (auto simp: Cons.IH [symmetric])
qed (simp add: prefix_def)

lemma longest_run_from_spec:
  "n \<le> longest_run_from m c fs \<longleftrightarrow>
    n \<le> m \<or> 0 < length (takeWhile (\<lambda>a. a) fs) \<and> n \<le> c + length (takeWhile (\<lambda>a. a) fs) \<or> sublist (replicate n True) fs"
proof (induction m c fs rule: longest_run_from.induct)
  case (1 m c)
  then show ?case by (cases n) auto
next
  case (2 m c f fs)
  have sub: "sublist (replicate n True) (f # fs) \<longleftrightarrow> n \<le> length (takeWhile (\<lambda>a. a) (f # fs)) \<or> sublist (replicate n True) fs"
    unfolding lead_prefix by (rule sublist_Cons_right)
  show ?case
  proof (cases f)
    case True
    then show ?thesis using 2 [OF refl] unfolding sub by (auto simp: Let_def)
  next
    case False
    have "n \<le> length (takeWhile (\<lambda>a. a) fs) \<Longrightarrow> sublist (replicate n True) fs" unfolding lead_prefix by (rule prefix_imp_sublist)
    then show ?thesis using 2 [OF refl] False unfolding sub by (auto simp: Let_def)
  qed
qed

lemma longest_run_spec: "n \<le> longest_run fs \<longleftrightarrow> sublist (replicate n True) fs"
proof -
  have "n \<le> length (takeWhile (\<lambda>a. a) fs) \<Longrightarrow> sublist (replicate n True) fs" unfolding lead_prefix by (rule prefix_imp_sublist)
  then show ?thesis using longest_run_from_spec [of n 0 0 fs] by (cases n) (auto simp: longest_run_def)
qed

lemma map_eq_all2: "list_all2 (\<lambda>x y. f x = g y) xs ys \<Longrightarrow> map f xs = map g ys"
  by (induction rule: list_all2_induct) auto

lemma mset_insert_desc: "mset (insert_desc x ys) = add_mset x (mset ys)"
  by (induction ys) auto

lemma mset_sort_desc: "mset (foldr insert_desc xs []) = mset xs"
  by (induction xs) (auto simp: mset_insert_desc)

text \<open>
  C35. The footprint figure shows the footprint it is given: each price level once with the volumes of its cell, and the
  stack of a side is exactly the largest number of adjacent levels that are all imbalanced to that side.
\<close>

theorem footprint_chart_exact:
  assumes "loads text = Some (JObj fp)" and "build_footprint_chart fr loads text levels = Some c"
  shows "mset (zip (map Some (fc_prices c)) (zip (fc_buy c) (fc_sell c))) =
      mset (map (\<lambda>k. (py_float k, case cell_volumes (dget fp k JNull) of Inr (b, s) \<Rightarrow> (b, - s) | Inl e \<Rightarrow> (NaN, NaN))) (dkeys fp)) \<and>
    (n \<le> fc_stack_buy c \<longleftrightarrow> sublist (replicate n True) (fc_buy_imbalanced c)) \<and>
    (n \<le> fc_stack_sell c \<longleftrightarrow> sublist (replicate n True) (fc_sell_imbalanced c))"
proof -
  let ?cell = "\<lambda>k. case cell_volumes (dget fp k JNull) of Inr (b, s) \<Rightarrow> (b, - s) | Inl e \<Rightarrow> (NaN, NaN)"
  obtain keyed vols where keyed: "rmap (\<lambda>k. rbind (of_option ValueError (py_float k)) (\<lambda>x. Inr (x, k))) (dkeys fp) = Inr keyed"
    and vols: "rmap (\<lambda>(x, k). cell_volumes (dget fp k JNull)) (foldr insert_desc keyed []) = Inr vols"
    and c: "fc_prices c = map fst (foldr insert_desc keyed [])" "fc_buy c = map fst vols" "fc_sell c = map (\<lambda>v. - snd v) vols"
      "fc_stack_buy c = longest_run (fc_buy_imbalanced c)" "fc_stack_sell c = longest_run (fc_sell_imbalanced c)"
    using assms by (auto simp: build_footprint_chart_def Let_def split: if_splits sum.splits)
  define pairs where "pairs = foldr insert_desc keyed []"
  have "list_all2 (\<lambda>k xk. rbind (of_option ValueError (py_float k)) (\<lambda>x. Inr (x, k)) = Inr xk) (dkeys fp) keyed"
    using keyed unfolding rmap_Inr_iff .
  then have "list_all2 (\<lambda>k xk. (py_float k, ?cell k) = (Some (fst xk), ?cell (snd xk))) (dkeys fp) keyed"
    by (rule list_all2_mono) (auto simp: rbind_Inr_iff)
  note k = map_eq_all2 [OF this, symmetric]
  have "list_all2 (\<lambda>xk v. (case xk of (x, k) \<Rightarrow> cell_volumes (dget fp k JNull)) = Inr v) pairs vols"
    using vols unfolding rmap_Inr_iff pairs_def .
  then have "zip (map Some (map fst pairs)) (zip (map fst vols) (map (\<lambda>v. - snd v) vols)) =
      map (\<lambda>xk. (Some (fst xk), ?cell (snd xk))) pairs"
    by (induction rule: list_all2_induct) auto
  then have "zip (map Some (fc_prices c)) (zip (fc_buy c) (fc_sell c)) = map (\<lambda>xk. (Some (fst xk), ?cell (snd xk))) pairs"
    by (simp only: c pairs_def [symmetric])
  then have "mset (zip (map Some (fc_prices c)) (zip (fc_buy c) (fc_sell c))) = mset (map (\<lambda>xk. (Some (fst xk), ?cell (snd xk))) keyed)"
    using mset_sort_desc [of keyed] by (simp add: pairs_def)
  then show ?thesis unfolding k by (simp add: c longest_run_spec)
qed

text \<open>
  A click on a candle does not open its footprint: the time stamps of the rows carry a time zone, the one of the click
  does not, and the two are never equal.
\<close>

lemma footprint_click_never_matches:
  assumes "stamp c = Some (False, t)"
    and "list_all (\<lambda>r. case dget r ''ts'' (JStr []) of JStr x \<Rightarrow> (case stamp x of Some s \<Rightarrow> fst s | None \<Rightarrow> True) | _ \<Rightarrow> True) rows"
  shows "open_footprint_modal fr loads stamp (Some c) rows = None"
proof -
  have "clicked_row stamp c rows = None"
    using assms(2) by (auto simp: clicked_row_def assms(1) find_None_iff list_all_iff floor_second_def split: json.splits option.splits)
  then show ?thesis by (simp add: open_footprint_modal_def)
qed

lemma f64_ok_plus: "f64_ok (x + y)"
  by (cases x; cases y) (auto simp: f64_ok_def fl_idem split: f64.split)

lemma cumsum_ok: "list_all f64_ok xs \<Longrightarrow> list_all f64_ok (cumsum_of xs)"
proof -
  have "list_all f64_ok (cumulative acc ys)" for acc ys
    by (induction acc ys rule: cumulative.induct) (auto simp: f64_ok_plus)
  then show "list_all f64_ok xs \<Longrightarrow> list_all f64_ok (cumsum_of xs)" by (cases xs) (auto simp: cumsum_of_def)
qed

lemma clip_parts: "f64_ok x \<Longrightarrow> clip_low0 x + clip_up0 x = x"
  by (cases x) (auto simp: clip_low0_def clip_up0_def f64_ok_def)

text \<open>
  The two areas of the volume delta split it exactly: at every bar the upper area is not negative, the lower one not
  positive, and their sum in floating point is the running sum of the deltas.
\<close>

theorem cvd_areas_split_delta:
  "map2 (+) (cv_pos (build_cvd_panel rows)) (cv_neg (build_cvd_panel rows)) = cv_values (build_cvd_panel rows) \<and>
    list_all (\<lambda>x. \<not> x < Fin 0) (cv_pos (build_cvd_panel rows)) \<and> list_all (\<lambda>x. \<not> Fin 0 < x) (cv_neg (build_cvd_panel rows)) \<and>
    cv_values (build_cvd_panel rows) = cumsum_of (map delta_of (by_time rows))"
proof -
  let ?v = "cumsum_of (map delta_of (by_time rows))"
  have "list_all f64_ok ?v" by (rule cumsum_ok) (simp add: list_all_iff delta_of_def minus_f64_def f64_ok_plus)
  then have "map2 (+) (map clip_low0 ?v) (map clip_up0 ?v) = ?v" by (induction ?v) (auto simp: map2_map_map clip_parts list_all_iff intro!: map_idI)
  moreover have "\<not> clip_low0 x < Fin 0" "\<not> Fin 0 < clip_up0 x" for x by (cases x; simp add: clip_low0_def clip_up0_def)+
  ultimately show ?thesis by (simp add: build_cvd_panel_def Let_def list_all_iff)
qed

text \<open>The ratio of the volumes is between 0 and 1, and bubbles are between 4 and 30, roundings included.\<close>

lemma ratio_in_range: "\<not> is_nan (ratio_of r) \<Longrightarrow> Fin 0 \<le> ratio_of r \<and> ratio_of r \<le> Fin 1"
  by (cases "fdiv (cb_buy r) (cb_volume r)") (auto simp: ratio_of_def Let_def is_nan_def)

lemma bubble_in_range:
  assumes "0 < v" and "v \<le> m"
  shows "Fin 4 \<le> bubble_size (Fin m) (Fin v) \<and> bubble_size (Fin m) (Fin v) \<le> Fin 30"
proof -
  obtain q where q: "fl (v / m) = Fin q" "0 \<le> q" "q \<le> 1"
    using fl_range [of 0 1 "v / m"] assms by (auto simp: field_simps)
  obtain s where "fl (q * 30) = Fin s" "0 \<le> s" "s \<le> 30" using fl_range [of 0 30 "q * 30"] q by auto
  then show ?thesis using q by (auto simp: bubble_size_def Let_def)
qed

lemma footprint_chart_exact_witness:
  "\<exists>c. build_footprint_chart (\<lambda>_. []) (\<lambda>_. Some (JObj [(''1'', JObj [(''b'', JInt 4), (''s'', JInt 1)])])) ''x'' None = Some c \<and>
    (1 \<le> fc_stack_buy c \<longleftrightarrow> sublist (replicate 1 True) (fc_buy_imbalanced c))"
proof -
  let ?fp = "[(''1'', JObj [(''b'', JInt 4), (''s'', JInt 1)])]"
  have "py_float ''1'' = Some (Fin 1)" by code_simp
  then have "\<exists>c. build_footprint_chart (\<lambda>_. []) (\<lambda>_. Some (JObj ?fp)) ''x'' None = Some c"
    by (simp add: build_footprint_chart_def cell_volumes_def cell_amount_def dget_def jtruthy_def jfloat_def of_int_f64_def is_fin_def Let_def)
  then show ?thesis using footprint_chart_exact [of "\<lambda>_. Some (JObj ?fp)" "''x''" ?fp "\<lambda>_. []" None _ 1] by blast
qed

end
