(* ===== verification/Data_Gate.thy ===== *)
theory Data_Gate
  imports Questdb
begin

text \<open>
  Two gates that run before a deployment: \<open>scripts/data_readiness_gate.py\<close>, which decides whether the recorded data
  suffice for training, and \<open>scripts/validate-contract.py\<close>, which checks streams and tables. The answers of the
  database and of Redis are arguments; a query is named by its purpose.
\<close>

section \<open>Readiness of the data\<close>

definition min_days :: nat where "min_days = 28"
definition min_rows_per_day :: int where "min_rows_per_day = 80000"
definition max_null_pct :: f64 where "max_null_pct = Fin 5"

definition ml_columns :: "string list" where
  "ml_columns =
     [''hawkes_intensity'', ''microprice_mid_delta'', ''cancel_bias'', ''trade_aggressiveness'', ''buy_vwap_deviation_bps'',
      ''sell_vwap_deviation_bps'', ''bid_depth_l3_close'', ''realized_vol'', ''ofi'', ''ofi_l1'']"

text \<open>Rows per day of the last 35 days; rows and nulls of a column in the last 7 days; gaps of more than 6 hours in the last 29.\<close>

datatype gate_query = Q_Days | Q_Nulls string | Q_Gaps

datatype gate_failure = Coverage nat | Null_Rate string f64 | Gap_Count int

definition gate_rows :: "json \<Rightarrow> (string, json) dict list res" where
  "gate_rows data =
     rbind (jitem data ''columns'') (\<lambda>cs. rbind (column_names cs) (\<lambda>cols.
     rbind (jitem data ''dataset'') (\<lambda>ds. rbind (jiter ds) (\<lambda>rows.
       rmap (\<lambda>row. rbind (jiter row) (\<lambda>vs. Inr (zip_row cols vs))) rows))))"

text \<open>A column compared with a number.\<close>

definition count_of :: "(string, json) dict \<Rightarrow> string \<Rightarrow> int res" where
  "count_of r k = rbind (of_option KeyError (map_of r k)) (\<lambda>v. case v of JInt n \<Rightarrow> Inr n | JBool b \<Rightarrow> Inr (if b then 1 else 0) | _ \<Rightarrow> Inl TypeError)"

definition check_coverage :: "(string, json) dict list \<Rightarrow> gate_failure list res" where
  "check_coverage rows =
     rbind (rmap (\<lambda>r. count_of r ''cnt'') rows) (\<lambda>cnts.
       let good = length (filter (\<lambda>n. min_rows_per_day \<le> n) cnts) in
       Inr (if good < min_days then [Coverage good] else []))"

definition check_nulls :: "string \<Rightarrow> (string, json) dict list \<Rightarrow> gate_failure list res" where
  "check_nulls c rows =
     (case rows of
        [] \<Rightarrow> Inr []
      | r # _ \<Rightarrow>
          rbind (count_of r ''total'') (\<lambda>total.
            if total \<le> 0 then Inr []
            else rbind (count_of r ''nulls'') (\<lambda>nulls.
              let pct = fdiv (of_int_f64 nulls) (of_int_f64 total) * Fin 100 in
              Inr (if max_null_pct < pct then [Null_Rate c pct] else []))))"

definition check_gaps :: "(string, json) dict list \<Rightarrow> gate_failure list res" where
  "check_gaps rows =
     (case rows of
        [] \<Rightarrow> Inr []
      | r # _ \<Rightarrow> rbind (count_of r ''gap_count'') (\<lambda>n. Inr (if 0 < n then [Gap_Count n] else [])))"

definition gate_check :: "(gate_query \<Rightarrow> json res) \<Rightarrow> gate_failure list res" where
  "gate_check db =
     rbind (rbind (db Q_Days) gate_rows) (\<lambda>days. rbind (check_coverage days) (\<lambda>f1.
     rbind (rmap (\<lambda>c. rbind (rbind (db (Q_Nulls c)) gate_rows) (check_nulls c)) ml_columns) (\<lambda>f2.
     rbind (rbind (db Q_Gaps) gate_rows) (\<lambda>gaps. rbind (check_gaps gaps) (\<lambda>f3.
       Inr (f1 @ concat f2 @ f3))))))"

definition gate_exit :: "(gate_query \<Rightarrow> json res) \<Rightarrow> int" where
  "gate_exit db = (case gate_check db of Inr [] \<Rightarrow> 0 | _ \<Rightarrow> 1)"

section \<open>The contract between the repositories\<close>

datatype verdict = Ok_Result string | Warn_Result string | Fail_Result string

definition stream_keys :: "string \<times> string \<Rightarrow> string list" where
  "stream_keys es = [''ticks:'' @ fst es @ '':'' @ snd es, ''candles:close:'' @ fst es @ '':'' @ snd es @ '':1m'']"

definition freshness_s :: int where "freshness_s = 60"

text \<open>The length of a stream and the id of its last entry, \<open>None\<close> for no entry.\<close>

definition check_stream :: "int \<Rightarrow> (string \<Rightarrow> int res) \<Rightarrow> (string \<Rightarrow> string option res) \<Rightarrow> string \<Rightarrow> verdict" where
  "check_stream now xlen newest key =
     (case xlen key of
        Inl e \<Rightarrow> Fail_Result key
      | Inr n \<Rightarrow>
          if n = 0 then Fail_Result key
          else (case newest key of
             Inl e \<Rightarrow> Warn_Result key
           | Inr None \<Rightarrow> Fail_Result key
           | Inr (Some i) \<Rightarrow>
               (case py_int (hd (split_on (CHR ''-'') i)) of
                  None \<Rightarrow> Warn_Result key
                | Some ts_ms \<Rightarrow> if freshness_s < now - ts_ms div 1000 then Warn_Result key else Ok_Result key)))"

definition check_streams ::
  "unit res \<Rightarrow> int \<Rightarrow> (string \<Rightarrow> int res) \<Rightarrow> (string \<Rightarrow> string option res) \<Rightarrow> (string \<times> string) list \<Rightarrow> verdict list" where
  "check_streams connect now xlen newest symbols =
     (case connect of
        Inl e \<Rightarrow> [Fail_Result ''redis'']
      | Inr _ \<Rightarrow> concat (map (\<lambda>es. map (check_stream now xlen newest) (stream_keys es)) symbols))"

definition bar_columns :: "(string \<times> string) list" where
  "bar_columns =
     [(''ts'', ''TIMESTAMP''), (''exchange'', ''SYMBOL''), (''symbol'', ''SYMBOL''), (''open'', ''DOUBLE''), (''high'', ''DOUBLE''),
      (''low'', ''DOUBLE''), (''close'', ''DOUBLE''), (''volume'', ''DOUBLE'')]"

definition expected_columns :: "(string \<times> (string \<times> string) list) list" where
  "expected_columns =
     [(''snapshot_1s'', bar_columns @
        [(''trade_count'', ''INT''), (''buy_volume'', ''DOUBLE''), (''sell_volume'', ''DOUBLE''), (''gap_count'', ''INT''),
         (''is_partial'', ''BOOLEAN'')]),
      (''snapshot_1m'', bar_columns), (''snapshot_15m'', bar_columns)]"

text \<open>The columns of a table with their types, \<open>None\<close> for a missing table, an error for a failed query.\<close>

definition check_table :: "(string, string) dict option res \<Rightarrow> string \<Rightarrow> (string \<times> string) list \<Rightarrow> verdict list" where
  "check_table answer table expected =
     (case answer of
        Inl e \<Rightarrow> [Fail_Result table]
      | Inr None \<Rightarrow> [Fail_Result table]
      | Inr (Some actual) \<Rightarrow>
          (let bad = filter (\<lambda>(c, t). map_of actual c \<noteq> Some t) expected in
           if bad = [] then [Ok_Result table] else map (\<lambda>(c, t). Fail_Result (table @ ''.'' @ c)) bad))"

definition check_tables :: "unit res \<Rightarrow> (string \<Rightarrow> (string, string) dict option res) \<Rightarrow> verdict list" where
  "check_tables connect columns =
     (case connect of
        Inl e \<Rightarrow> [Fail_Result ''questdb'']
      | Inr _ \<Rightarrow> concat (map (\<lambda>(table, expected). check_table (columns table) table expected) expected_columns))"

definition parse_symbols :: "string \<Rightarrow> (string \<times> string) list" where
  "parse_symbols raw =
     concat (map (\<lambda>part0.
       let part = strip part0; pre = takeWhile (\<lambda>c. c \<noteq> CHR '':'') part in
       if CHR '':'' \<notin> set part then [] else [(strip pre, strip (drop (Suc (length pre)) part))]) (split_on (CHR '','') raw))"

definition failed :: "verdict \<Rightarrow> bool" where
  "failed v = (case v of Fail_Result _ \<Rightarrow> True | _ \<Rightarrow> False)"

definition contract_exit :: "verdict list \<Rightarrow> int" where
  "contract_exit results = (if list_ex failed results then 1 else 0)"

section \<open>What the gates promise\<close>

lemma rmap_Inr_nth: "rmap f xs = Inr ys \<Longrightarrow> x \<in> set xs \<Longrightarrow> \<exists>y\<in>set ys. f x = Inr y"
  by (induction xs arbitrary: ys) (auto simp: rbind_Inr_iff)

lemma rmap_total: "(\<And>x. x \<in> set xs \<Longrightarrow> f x = Inr (g x)) \<Longrightarrow> rmap f xs = Inr (map g xs)"
  by (induction xs) auto

text \<open>
  C33. Data that pass the gate satisfy what it stands for: at least 28 of the days in the answer have 80,000 rows or more, of
  each feature column that has rows at all at most five percent are missing, and no gap of more than six hours is
  reported; a query that fails never passes.
\<close>

theorem gate_passes_only_ready_data:
  assumes "gate_exit db = 0"
  shows "\<exists>days cnts gaps. rbind (db Q_Days) gate_rows = Inr days \<and> rmap (\<lambda>r. count_of r ''cnt'') days = Inr cnts \<and>
      28 \<le> length (filter (\<lambda>n. 80000 \<le> n) cnts) \<and>
      list_all (\<lambda>c. \<exists>rows. rbind (db (Q_Nulls c)) gate_rows = Inr rows \<and>
         (rows = [] \<or> (\<exists>total. count_of (hd rows) ''total'' = Inr total \<and>
            (total \<le> 0 \<or> (\<exists>nulls. count_of (hd rows) ''nulls'' = Inr nulls \<and>
               \<not> Fin 5 < fdiv (of_int_f64 nulls) (of_int_f64 total) * Fin 100))))) ml_columns \<and>
      rbind (db Q_Gaps) gate_rows = Inr gaps \<and> (gaps = [] \<or> (\<exists>n. count_of (hd gaps) ''gap_count'' = Inr n \<and> n \<le> 0))"
proof -
  have "gate_check db = Inr []" using assms by (auto simp: gate_exit_def split: sum.splits list.splits)
  then obtain days f2 gaps where d: "rbind (db Q_Days) gate_rows = Inr days" "check_coverage days = Inr []"
    and n: "rmap (\<lambda>c. rbind (rbind (db (Q_Nulls c)) gate_rows) (check_nulls c)) ml_columns = Inr f2" "concat f2 = []"
    and g: "rbind (db Q_Gaps) gate_rows = Inr gaps" "check_gaps gaps = Inr []"
    by (auto simp: gate_check_def rbind_Inr_iff)
  obtain cnts where "rmap (\<lambda>r. count_of r ''cnt'') days = Inr cnts" "28 \<le> length (filter (\<lambda>n. 80000 \<le> n) cnts)"
    using d(2) by (auto simp: check_coverage_def rbind_Inr_iff Let_def min_days_def min_rows_per_day_def split: if_splits)
  moreover have "\<exists>rows. rbind (db (Q_Nulls c)) gate_rows = Inr rows \<and>
         (rows = [] \<or> (\<exists>total. count_of (hd rows) ''total'' = Inr total \<and>
            (total \<le> 0 \<or> (\<exists>nulls. count_of (hd rows) ''nulls'' = Inr nulls \<and>
               \<not> Fin 5 < fdiv (of_int_f64 nulls) (of_int_f64 total) * Fin 100))))" if mem: "c \<in> set ml_columns" for c
  proof -
    obtain y where "y \<in> set f2" "rbind (rbind (db (Q_Nulls c)) gate_rows) (check_nulls c) = Inr y"
      using rmap_Inr_nth [OF n(1) mem] by blast
    then obtain rows where rows: "rbind (db (Q_Nulls c)) gate_rows = Inr rows" "check_nulls c rows = Inr []"
      using n(2) by (auto simp: rbind_Inr_iff [of "rbind (db (Q_Nulls c)) gate_rows"])
    then show ?thesis
      by (cases rows) (auto simp: check_nulls_def rbind_Inr_iff Let_def max_null_pct_def split: if_splits)
  qed
  moreover have "gaps = [] \<or> (\<exists>n. count_of (hd gaps) ''gap_count'' = Inr n \<and> n \<le> 0)"
    using g(2) by (cases gaps) (auto simp: check_gaps_def rbind_Inr_iff split: if_splits)
  ultimately show ?thesis using d(1) g(1) by (auto simp: list_all_iff)
qed

lemma concat_nothing: "concat (map (\<lambda>c. []) xs) = []"
  by (induction xs) auto

text \<open>The answers for a market whose last row is more than a week old: only the days still have rows.\<close>

definition quiet_db :: "int list \<Rightarrow> gate_query \<Rightarrow> json res" where
  "quiet_db cnts q = Inr (case q of
     Q_Days \<Rightarrow> JObj [(''columns'', JList [JObj [(''name'', JStr ''cnt'')]]), (''dataset'', JList (map (\<lambda>n. JList [JInt n]) cnts))]
   | Q_Nulls c \<Rightarrow> JObj [(''columns'', JList [JObj [(''name'', JStr ''total'')], JObj [(''name'', JStr ''nulls'')]]),
       (''dataset'', JList [JList [JInt 0, JNull]])]
   | Q_Gaps \<Rightarrow> JObj [(''columns'', JList [JObj [(''name'', JStr ''gap_count'')]]), (''dataset'', JList [JList [JInt 0]])])"

lemma quiet_market_passes:
  assumes "28 \<le> length (filter (\<lambda>n. 80000 \<le> n) cnts)"
  shows "gate_exit (quiet_db cnts) = 0"
proof -
  have "rbind (quiet_db cnts Q_Days) gate_rows = Inr (map (\<lambda>n. [(''cnt'', JInt n)]) cnts)"
  proof -
    have "rmap (\<lambda>row. rbind (jiter row) (\<lambda>vs. Inr (zip_row [''cnt''] vs))) (map (\<lambda>n. JList [JInt n]) cnts) =
        Inr (map (\<lambda>row. case row of JList vs \<Rightarrow> zip_row [''cnt''] vs | _ \<Rightarrow> []) (map (\<lambda>n. JList [JInt n]) cnts))"
      by (rule rmap_total) (auto simp: jiter_def)
    then show ?thesis
      by (simp add: quiet_db_def gate_rows_def jitem_def jiter_def column_names_def jname_def zip_row_def comp_def)
  qed
  moreover have "check_coverage (map (\<lambda>n. [(''cnt'', JInt n)]) cnts) = Inr []"
  proof -
    have "rmap (\<lambda>r. count_of r ''cnt'') (map (\<lambda>n. [(''cnt'', JInt n)]) cnts) =
        Inr (map (\<lambda>r. case map_of r ''cnt'' of Some (JInt n) \<Rightarrow> n | _ \<Rightarrow> 0) (map (\<lambda>n. [(''cnt'', JInt n)]) cnts))"
      by (rule rmap_total) (auto simp: count_of_def)
    then show ?thesis using assms by (simp add: check_coverage_def comp_def min_days_def min_rows_per_day_def Let_def)
  qed
  moreover have "rmap (\<lambda>c. rbind (rbind (quiet_db cnts (Q_Nulls c)) gate_rows) (check_nulls c)) ml_columns = Inr (map (\<lambda>c. []) ml_columns)"
    by (rule rmap_total)
      (simp add: quiet_db_def gate_rows_def jitem_def jiter_def column_names_def jname_def zip_row_def check_nulls_def count_of_def)
  moreover have "rbind (rbind (quiet_db cnts Q_Gaps) gate_rows) check_gaps = Inr []"
    by (simp add: quiet_db_def gate_rows_def jitem_def jiter_def column_names_def jname_def zip_row_def check_gaps_def count_of_def)
  ultimately show ?thesis by (auto simp: gate_exit_def gate_check_def rbind_Inr_iff concat_nothing)
qed


text \<open>
  The gate opens for a market that is no longer recorded: when the days of the last five weeks have enough rows up to a
  week ago, and nothing has been written since, the null rates are skipped because there are no rows, a gap without a
  row after it is not counted, and the data are declared ready.
\<close>

theorem gate_opens_for_dead_market:
  assumes "28 \<le> length (filter (\<lambda>n. 80000 \<le> n) cnts)"
  shows "gate_exit (quiet_db cnts) = 0"
  by (rule quiet_market_passes [OF assms])

lemma check_table_ok:
  "\<not> list_ex failed (check_table answer table expected) \<longleftrightarrow>
    (\<exists>actual. answer = Inr (Some actual) \<and> list_all (\<lambda>(c, t). map_of actual c = Some t) expected)"
  by (auto simp: check_table_def list_ex_iff list_all_iff failed_def filter_empty_conv Let_def split: sum.splits option.splits)

lemma check_stream_ok:
  "\<not> failed (check_stream now xlen newest key) \<longleftrightarrow> (\<exists>n. xlen key = Inr n \<and> n \<noteq> 0) \<and> newest key \<noteq> Inr None"
  by (auto simp: check_stream_def failed_def split: sum.splits option.splits)

text \<open>
  A valid contract means what it says: the validator ends with 0 exactly when both servers answered, each stream has
  entries, and each of the three tables has all required columns with their exact types; the age of the last entry of a
  stream has no influence.
\<close>

theorem contract_valid_iff:
  "contract_exit (check_streams redis now xlen newest symbols @ check_tables questdb columns) = 0 \<longleftrightarrow>
    redis = Inr () \<and> questdb = Inr () \<and>
    list_all (\<lambda>key. (\<exists>n. xlen key = Inr n \<and> n \<noteq> 0) \<and> newest key \<noteq> Inr None) (concat (map stream_keys symbols)) \<and>
    list_all (\<lambda>(table, expected). \<exists>actual. columns table = Inr (Some actual) \<and>
      list_all (\<lambda>(c, t). map_of actual c = Some t) expected) expected_columns"
proof -
  have streams: "\<not> list_ex failed (check_streams redis now xlen newest symbols) \<longleftrightarrow> redis = Inr () \<and>
      list_all (\<lambda>key. (\<exists>n. xlen key = Inr n \<and> n \<noteq> 0) \<and> newest key \<noteq> Inr None) (concat (map stream_keys symbols))"
  proof (cases redis)
    case (Inr u)
    have "list_ex failed (concat (map (\<lambda>es. map (check_stream now xlen newest) (stream_keys es)) symbols)) \<longleftrightarrow>
        list_ex (\<lambda>key. failed (check_stream now xlen newest key)) (concat (map stream_keys symbols))"
      by (auto simp: list_ex_iff)
    then show ?thesis
      by (simp add: check_streams_def Inr check_stream_ok list_ex_iff list_all_iff)
  qed (simp add: check_streams_def failed_def)
  have tables: "\<not> list_ex failed (check_tables questdb columns) \<longleftrightarrow> questdb = Inr () \<and>
      list_all (\<lambda>(table, expected). \<exists>actual. columns table = Inr (Some actual) \<and>
        list_all (\<lambda>(c, t). map_of actual c = Some t) expected) expected_columns"
  proof (cases questdb)
    case (Inr u)
    have "list_ex failed (concat (map (\<lambda>(t, e). check_table (columns t) t e) xs)) \<longleftrightarrow>
        \<not> list_all (\<lambda>(t, e). \<not> list_ex failed (check_table (columns t) t e)) xs" for xs
      by (induction xs) auto
    then show ?thesis by (simp add: check_tables_def Inr check_table_ok)
  qed (simp add: check_tables_def failed_def)
  have split: "contract_exit (xs @ ys) = 0 \<longleftrightarrow> \<not> list_ex failed xs \<and> \<not> list_ex failed ys" for xs ys
    by (simp add: contract_exit_def)
  show ?thesis unfolding split streams tables by blast
qed

lemma full_weeks: "28 \<le> length (filter (\<lambda>n. 80000 \<le> n) (replicate 28 (80000 :: int)))"
proof -
  have "filter (\<lambda>n. 80000 \<le> n) (replicate k (80000 :: int)) = replicate k 80000" for k by (induction k) auto
  then show ?thesis by (simp del: replicate.simps)
qed

lemma gate_opens_for_dead_market_witness: "gate_exit (quiet_db (replicate 28 80000)) = 0"
  by (rule gate_opens_for_dead_market [OF full_weeks])

lemma gate_passes_only_ready_data_witness:
  "\<exists>days cnts. rbind (quiet_db (replicate 28 80000) Q_Days) gate_rows = Inr days \<and> rmap (\<lambda>r. count_of r ''cnt'') days = Inr cnts \<and>
    28 \<le> length (filter (\<lambda>n. 80000 \<le> n) cnts)"
  using gate_passes_only_ready_data [OF quiet_market_passes [OF full_weeks]] by blast

end
