(* ===== verification/Spec2Isabelle.thy ===== *)
theory Spec2Isabelle
  imports Event_Types Metrics Barrier_M Exchange Rest Ws_Feed Circuit_Breaker Order_Worker Base_Strategy
    Reconciliation Event_Bus Registry Signals Bots Backtest Paper Funding Questdb Service_Api
    Ml_Labels Ml_Registry Ml_Inference Ml_Training Ml_Features Dash_Bars Logging Json_Parse
    Dash_Profiles Dash_Backtest Dash_Bots Dash_Charts Data_Gate
begin

text \<open>
  A verification library for the Python parts of the trading system. The bot service
  (\<open>src/bot-service/\<close>) consumes market data from Redis streams, runs user strategies in threads of their own,
  and places orders on two exchanges. The machine learning service (\<open>src/ml-service/\<close>) builds features and labels
  from recorded snapshots, clusters and trains models, and publishes live signals. The dashboard
  (\<open>src/dashboard/\<close>) shows candles, bots and backtests, and two scripts (\<open>src/scripts/\<close>) guard deployments.

  \<^bold>\<open>How the program works.\<close> Stream entries are parsed into typed events (\<open>bus/event_types.py\<close>). The bus
  manager (\<open>bus/event_bus.py\<close>) reads the streams in one consumer loop and routes each event into the
  bounded queue of every strategy thread. The barrier (\<open>barrier.py\<close>) joins the bars of several symbols of
  one interval. A strategy (\<open>strategy/base.py\<close>) reacts to events in its handlers and posts order requests
  to the order queue worker (\<open>strategy/order_worker.py\<close>), which checks its gates, calls the exchange client
  (\<open>exchange/\<close>), records rows in the order event table, and receives fills from the private feeds
  (\<open>exchange/*/ws_private.py\<close>). At a restart the reconciliation (\<open>strategy/reconciliation.py\<close>) rebuilds the
  worker's books from the table and from the exchange. The registry (\<open>strategy/registry.py\<close>) watches the
  strategy directory, loads, reloads and stops strategies and restarts crashed ones with a backoff. The
  backtest package (\<open>backtest/\<close>) runs the same strategies over recorded data. \<open>main.py\<close> starts and stops all
  of this and serves backtests and validations over HTTP; \<open>exchange/funding_poller.py\<close> feeds funding rates into the
  streams. In the machine learning service the handlers of \<open>main.py\<close> run the stages on files of one day each:
  \<open>features/\<close>, \<open>labels/\<close>, \<open>clustering/\<close>, \<open>training/\<close>; trained models enter the \<open>registry/\<close>, from which the
  loops of \<open>inference/\<close> choose the model of the current regime.

  \<^bold>\<open>Theories and what they model.\<close>
  \<^item> \<open>Prelude\<close>, \<open>Float64\<close>, \<open>Json\<close>: exceptions and results as sums, Python dictionaries, strings and integer
    texts, binary64 arithmetic, JSON values. Python integers are \<open>int\<close>; floats are rounded after every
    operation by the executable function \<open>fl\<close>.
  \<^item> \<open>Event_Types\<close>: \<open>bus/event_types.py\<close>. Each dataclass is a record, each parser a function of the same
    name; the lemmas say exactly which entries are accepted.
  \<^item> \<open>Metrics\<close>: \<open>metrics/prometheus.py\<close>. The calls on the client library are a trace; the lemmas show the library
    is used by its rules and that the reset of a strategy's gauges is exact.
  \<^item> \<open>Barrier_M\<close>: \<open>barrier.py\<close>. State, feed, lazy flush; invariant, content of emissions, deadline, conservation.
  \<^item> \<open>Exchange\<close>, \<open>Rest\<close>, \<open>Ws_Feed\<close>: \<open>exchange/__init__.py\<close>, the two REST clients and the two private feeds.
    HTTP answers, clock and random ids are streams of an explicit world; retries, signatures, paging,
    deduplication and the REST fallback are the code's; the callback of a feed is a function over a state of its own,
    and the properties log the calls it receives.
  \<^item> \<open>Circuit_Breaker\<close>, \<open>Order_Worker\<close>: \<open>strategy/circuit_breaker.py\<close>, \<open>strategy/order_worker.py\<close>. A handler that
    awaits in the middle is two definitions; the step relation \<open>wstep\<close> interleaves them. A write to the order
    event table is handed its outcome: one that fails is logged (\<open>WRowFailed\<close>) and the handler goes on, as in the code.
  \<^item> \<open>Base_Strategy\<close>, \<open>Signals\<close>, \<open>Bots\<close>: \<open>strategy/base.py\<close>, \<open>strategy/signals/\<close>, \<open>strategies/\<close>. The threads that close
    positions after a bus silence run in any order.
  \<^item> \<open>Reconciliation\<close>: \<open>strategy/reconciliation.py\<close>.
  \<^item> \<open>Event_Bus\<close>: \<open>bus/event_bus.py\<close>. A delivery is a list of single operations on a queue, and the relation
    \<open>qstep\<close> interleaves each of them with the scheduled puts of the strategy's loop, its reads and its closing.
  \<^item> \<open>Registry\<close>: \<open>strategy/registry.py\<close>; the relation \<open>rstep\<close> has one step per operation of the watcher.
  \<^item> \<open>Backtest\<close>: \<open>backtest/\<close>.
  \<^item> \<open>Paper\<close>: \<open>exchange/paper.py\<close>; the scheduled fill tasks may run in any order.
  \<^item> \<open>Funding\<close>: \<open>exchange/funding_poller.py\<close> and the parser of its setting in \<open>main.py\<close>.
  \<^item> \<open>Questdb\<close>: what the services do with an answer of the database.
  \<^item> \<open>Service_Api\<close>: \<open>main.py\<close> and \<open>persistence/schema.py\<close> of the bot service; the relation \<open>api_step\<close> interleaves
    requests and the end of background tasks.
  \<^item> \<open>Ml_Labels\<close>: \<open>labels/generator.py\<close> and the Kalman filter of \<open>inference/spread_arb.py\<close>.
  \<^item> \<open>Ml_Registry\<close>: \<open>registry/registry.py\<close>, \<open>inference/engine.py\<close> and the training handler of \<open>main.py\<close>; the relation
    \<open>ml_step\<close> has one step per operation on the shared registry.
  \<^item> \<open>Ml_Inference\<close>: \<open>inference/loop.py\<close> and \<open>inference/spread_arb.py\<close>.
  \<^item> \<open>Ml_Training\<close>: \<open>training/trainer.py\<close> and \<open>clustering/pipeline.py\<close>.
  \<^item> \<open>Ml_Features\<close>: \<open>features/extractor.py\<close>.
  \<^item> \<open>Dash_Bars\<close>: \<open>dashboard/data.py\<close> and the stores of \<open>dashboard/callbacks.py\<close>: timeframes, resampling of source rows
    into windows, history and live queries, and the page as a state that each live tick extends.
  \<^item> \<open>Dash_Profiles\<close>, \<open>Json_Parse\<close>: \<open>dashboard/callbacks_profiles.py\<close>, \<open>dashboard/profile_storage.py\<close> and the defaults of
    \<open>dashboard/layout_profiles.py\<close>. The page is a state, every click a step followed by the callbacks it sets off; the
    file is printed and parsed by the JSON functions of \<open>Json_Parse\<close>.
  \<^item> \<open>Dash_Backtest\<close>: \<open>dashboard/callbacks_backtest.py\<close>, \<open>dashboard/backtest_data.py\<close>, composed with the model of the service
    they poll.
  \<^item> \<open>Dash_Bots\<close>: \<open>dashboard/callbacks_bots.py\<close>, \<open>dashboard/bot_data.py\<close>.
  \<^item> \<open>Dash_Charts\<close>: \<open>dashboard/charts.py\<close> and the footprint window of \<open>dashboard/callbacks.py\<close>.
  \<^item> \<open>Data_Gate\<close>: \<open>scripts/data_readiness_gate.py\<close>, \<open>scripts/validate-contract.py\<close>.
  \<^item> \<open>Logging\<close>: the redaction of log events in \<open>config.py\<close>.

  \<^bold>\<open>Interfaces.\<close> \<open>dictionary\<close> (interpreted on the association lists of Prelude) is what the components rely on for
  their dicts; \<open>order_placer\<close> is the contract of \<open>place_order\<close>, interpreted on the exchange clients;
  \<open>fill_feed\<close> states what the two private feeds share and \<open>logged_feed\<close> what their callback receives; each is interpreted on both; \<open>window_grid\<close> is what
  resampling needs of a timeframe, interpreted on the windows of the dashboard.

  \<^bold>\<open>What the theorems show.\<close> The order path: every open order of the worker has a row handed to the table before it, written unless the
  write failed and was logged, and duplicates are gated under every interleaving; a placement sends at most four identical requests with one
  client id; a fill is delivered once and applied once; the loss limit trips once. The restart path: the reconciliation restores, alerts and covers
  exactly the orders it should, and the round in which its background confirmation ends. The event path:
  which entries parse, that every event is accounted for in a queue, and that the bus routes to exactly the
  loaded strategies. Equivalence of the backtest cost basis with the worker's, and refinement of a two-state
  position machine by the flip bots. The service path: an accepted backtest ends as done or failed and the result
  tables stay bounded; a paper order is filled once. The learning path: the registry holds one model per slot and a
  prediction names a registered one; labels, clusters, splits, features and the files of an extraction are what the
  stages promise, and the offline and the live hedge filter agree bit for bit. The dashboard path: one live tick shows exactly what
  resampling the whole history would show, when the rows come in time and fit its limit; a session on the profiles page keeps the profiles well-formed, and their file is
  replaced atomically and read back unchanged; the end of a backtest reaches the page that started it; the footprint
  figure is exact. The gates: what passes is what they promise. The other theorems describe behaviours in which the code departs from
  what its comments promise: a lost fill, an emission repeated by the barrier, a leaked thread, a signature over a
  text that is not sent, a day of data cut short, a retrained model that is not used.

  \<^bold>\<open>Bounds and fuel.\<close> The retry loops have their literal bounds (four requests, a hundred pages, nine failed polls)
  and are structural recursion on them. Loops that run until cancelled are relations or functions of the
  list of their rounds. The emergency close loop and the background confirmation may run forever; their
  theorems characterise exactly when they return. The paging loop of an extraction may run forever too; under
  the database's documented answer it ends after two requests.

  \<^bold>\<open>Not modelled.\<close> Sockets, Redis, QuestDB, HTTP transport, hashing, the scheduling of the event loop and the
  numerical libraries (pandas, numpy, scipy, scikit-learn, backtrader) are arguments or traces. Where a property
  needs what the database answers, it is a hypothesis of the theorem that names it: \<open>columns_answered\<close> (the columns the
  query asks for), \<open>live_answered\<close> (the first rows in order of time after a time stamp). A read of the bus thread that wakes a put
  waiting on a closed loop, which makes the bus thread raise, is not modelled. The
  layouts of the dashboard and the drawing of its figures, the set-up of logging, the command lines and the Go
  services are not part of this library, and of the training and the clustering only what surrounds the fitted models
  is. A callback that only passes rows to a figure is left out.
\<close>

end
